theory Spec2Isabelle
  imports Complex_Main "HOL-Library.Char_ord" "HOL-Library.List_Lexorder"
    "HOL-Library.Product_Lexorder"
begin

section \<open>Data model\<close>

text \<open>
  The pipeline of \<^verbatim>\<open>data_utils.py\<close> works on one pandas DataFrame. A table is the list of
  its rows in index order (the index is the default one, \<open>0..n-1\<close>, as
  \<^verbatim>\<open>sort_values(..., ignore_index=True)\<close> and \<^verbatim>\<open>merge\<close> leave it). A row has its country code,
  its date (a day number: the dates are parsed from \<^verbatim>\<open>%Y%m%d\<close> and have no time of day) and
  its numeric columns, looked up by column name. A numeric cell is a float of the source,
  modelled as an exact real, or NaN (\<open>None\<close>); rounding is not modelled.
  A table has every column the code reads (pandas raises \<^verbatim>\<open>KeyError\<close> otherwise).
\<close>

type_synonym cell = "real option"

record row =
  Country_Code :: string
  DateTime :: int
  num :: "string \<Rightarrow> cell"

type_synonym dataframe = "row list"

datatype error = ValueError

subsection \<open>Column names: classes \<^verbatim>\<open>COL\<close> and \<^verbatim>\<open>FEATURE\<close>\<close>

definition COL_c1 :: string where "COL_c1 = ''C1_School_closing''"
definition COL_c2 :: string where "COL_c2 = ''C2_Workplace_closing''"
definition COL_c3 :: string where "COL_c3 = ''C3_Cancel_public_events''"
definition COL_c4 :: string where "COL_c4 = ''C4_Restrictions_on_gatherings''"
definition COL_c5 :: string where "COL_c5 = ''C5_Close_public_transport''"
definition COL_c6 :: string where "COL_c6 = ''C6_Stay_at_home_requirements''"
definition COL_c7 :: string where "COL_c7 = ''C7_Restrictions_on_internal_movement''"
definition COL_c8 :: string where "COL_c8 = ''C8_International_travel_controls''"
definition COL_h1 :: string where "COL_h1 = ''H1_Public_information_campaigns''"

definition COL_cc :: string where "COL_cc = ''ConfirmedCases''"
definition COL_cd :: string where "COL_cd = ''ConfirmedDeaths''"
definition COL_rc :: string where "COL_rc = ''Recovered''"
definition COL_ac :: string where "COL_ac = ''Active''"
definition COL_dcc :: string where "COL_dcc = ''DailyConfirmedCases''"
definition COL_dcd :: string where "COL_dcd = ''DailyConfirmedDeaths''"
definition COL_drc :: string where "COL_drc = ''DailyRecovered''"
definition COL_dac :: string where "COL_dac = ''DailyActive''"
definition COL_si :: string where "COL_si = ''StringencyIndex''"

definition ci_cols :: "string list" where
  "ci_cols = [COL_h1, COL_c1, COL_c2, COL_c3, COL_c4, COL_c5, COL_c6, COL_c7, COL_c8]"

definition si_cols :: "string list" where
  "si_cols = [''S1'', ''S2'', ''S3'', ''S4'', ''S5'', ''S6'', ''S7'', ''S8'', ''S9'']"

definition FEATURE_stringency :: string where "FEATURE_stringency = ''st''"
definition FEATURE_stringency_sum :: string where "FEATURE_stringency_sum = ''St''"
definition FEATURE_mobility :: string where "FEATURE_mobility = ''mt''"
definition FEATURE_mobility_sum :: string where "FEATURE_mobility_sum = ''Mt''"
definition FEATURE_public_information :: string where "FEATURE_public_information = ''S1''"
definition FEATURE_school_closing :: string where "FEATURE_school_closing = ''S2''"
definition FEATURE_workplace_closing :: string where "FEATURE_workplace_closing = ''S3''"
definition FEATURE_cancel_public_events :: string where "FEATURE_cancel_public_events = ''S4''"
definition FEATURE_restrictions_on_gatherings :: string where
  "FEATURE_restrictions_on_gatherings = ''S5''"
definition FEATURE_close_public_transport :: string where
  "FEATURE_close_public_transport = ''S6''"
definition FEATURE_stay_at_home_requirements :: string where
  "FEATURE_stay_at_home_requirements = ''S7''"
definition FEATURE_restrictions_on_internal_movement :: string where
  "FEATURE_restrictions_on_internal_movement = ''S8''"
definition FEATURE_international_travel_controls :: string where
  "FEATURE_international_travel_controls = ''S9''"

subsection \<open>Float cells: arithmetic that propagates NaN\<close>

definition fadd :: "cell \<Rightarrow> cell \<Rightarrow> cell" where
  "fadd a b = (case a of None \<Rightarrow> None | Some x \<Rightarrow> (case b of None \<Rightarrow> None | Some y \<Rightarrow> Some (x + y)))"

definition fsub :: "cell \<Rightarrow> cell \<Rightarrow> cell" where
  "fsub a b = (case a of None \<Rightarrow> None | Some x \<Rightarrow> (case b of None \<Rightarrow> None | Some y \<Rightarrow> Some (x - y)))"

definition fmul :: "cell \<Rightarrow> cell \<Rightarrow> cell" where
  "fmul a b = (case a of None \<Rightarrow> None | Some x \<Rightarrow> (case b of None \<Rightarrow> None | Some y \<Rightarrow> Some (x * y)))"

text \<open>
  A zero divisor gives a float that is not a finite number (an infinity, or NaN for \<open>0/0\<close>).
  The model has no infinities and returns \<open>None\<close> there. The only division by a value of the
  table is the one by \<^verbatim>\<open>Population\<close>, whose results nothing reads afterwards.
\<close>

definition fdiv :: "cell \<Rightarrow> cell \<Rightarrow> cell" where
  "fdiv a b = (case a of None \<Rightarrow> None | Some x \<Rightarrow>
     (case b of None \<Rightarrow> None | Some y \<Rightarrow> if y = 0 then None else Some (x / y)))"

text \<open>\<^verbatim>\<open>fillna(0)\<close> on one cell.\<close>

definition fillna0 :: "cell \<Rightarrow> cell" where
  "fillna0 a = (case a of None \<Rightarrow> Some 0 | Some x \<Rightarrow> Some x)"

subsection \<open>Columns of a table\<close>

text \<open>\<^verbatim>\<open>df[col]\<close>: the column as a series, in row order.\<close>

definition series :: "string \<Rightarrow> dataframe \<Rightarrow> cell list" where
  "series col df = map (\<lambda>r. num r col) df"

definition col_set :: "string \<Rightarrow> cell \<Rightarrow> row \<Rightarrow> row" where
  "col_set col v r = r\<lparr>num := (num r)(col := v)\<rparr>"

text \<open>
  \<^verbatim>\<open>df[col] = s\<close> for a series \<open>s\<close>: the values are aligned on the index; a row of
  \<open>df\<close> whose label the series does not have gets NaN, a value of the series beyond the
  last row of \<open>df\<close> is dropped.
\<close>

fun set_column :: "string \<Rightarrow> cell list \<Rightarrow> dataframe \<Rightarrow> dataframe" where
  "set_column col vs [] = []"
| "set_column col [] (r # rs) = col_set col None r # set_column col [] rs"
| "set_column col (v # vs) (r # rs) = col_set col v r # set_column col vs rs"

text \<open>\<^verbatim>\<open>df[col] = x\<close> for a scalar \<open>x\<close>.\<close>

definition set_column_scalar :: "string \<Rightarrow> cell \<Rightarrow> dataframe \<Rightarrow> dataframe" where
  "set_column_scalar col x df = map (col_set col x) df"

section \<open>The mobility transformer: \<^verbatim>\<open>transform_to_mobility\<close>\<close>

subsection \<open>\<^verbatim>\<open>int(s)\<close> and \<^verbatim>\<open>str(n)\<close>\<close>

text \<open>
  \<^verbatim>\<open>int\<close> on a string: an optional sign and one or more ASCII digits; anything else is
  a \<^verbatim>\<open>ValueError\<close>. (Python also strips surrounding white space and reads digits of other
  scripts; no column name of the pipeline has either.)
\<close>

fun digits_value :: "nat \<Rightarrow> string \<Rightarrow> nat option" where
  "digits_value acc [] = Some acc"
| "digits_value acc (c # cs) =
     (if c \<in> set ''0123456789'' then digits_value (10 * acc + (of_char c - 48)) cs else None)"

definition py_int :: "string \<Rightarrow> error + int" where
  "py_int s =
     (let neg = (take 1 s = ''-'');
          ds = (if take 1 s = ''-'' \<or> take 1 s = ''+'' then drop 1 s else s)
      in if ds = [] then Inl ValueError
         else (case digits_value 0 ds of
                 None \<Rightarrow> Inl ValueError
               | Some n \<Rightarrow> Inr (if neg then - int n else int n)))"

fun str_nat :: "nat \<Rightarrow> string" where
  "str_nat n = (if n < 10 then [''0123456789'' ! n]
                else str_nat (n div 10) @ [''0123456789'' ! (n mod 10)])"

declare str_nat.simps [simp del]

definition py_str :: "int \<Rightarrow> string" where
  "py_str i = (if i < 0 then CHR ''-'' # str_nat (nat (- i)) else str_nat (nat i))"

subsection \<open>The transformer\<close>

text \<open>\<^verbatim>\<open>s_id = column.split('_')[0]\<close>: the part of the name before its first underscore.\<close>

definition s_id_of :: "string \<Rightarrow> string" where
  "s_id_of column = takeWhile (\<lambda>c. c \<noteq> CHR ''_'') column"

text \<open>\<^verbatim>\<open>idx\<close>: 9 for \<^verbatim>\<open>H1\<close>, else the number after the first character of \<open>s_id\<close>.\<close>

definition idx_of :: "string \<Rightarrow> error + int" where
  "idx_of column = (let s_id = s_id_of column in
     if s_id = ''H1'' then Inr 9 else py_int (drop 1 s_id))"

definition w :: real where "w = 0.28375"

definition nf :: real where "nf = 1"

text \<open>\<^verbatim>\<open>m_id = 'S' + str(idx)\<close>: the name of the derived column.\<close>

definition m_id_of :: "int \<Rightarrow> string" where
  "m_id_of idx = ''S'' @ py_str idx"

text \<open>Lines 247-253 together: the derived column that a raw column is written to.\<close>

definition derived_column :: "string \<Rightarrow> error + string" where
  "derived_column column = (case idx_of column of Inl e \<Rightarrow> Inl e | Inr idx \<Rightarrow> Inr (m_id_of idx))"

text \<open>
  The value assigned to \<^verbatim>\<open>l_i\<close>: a series computed from the raw series \<open>si\<close> and the
  scope series \<open>si_g\<close> (both columns of \<^verbatim>\<open>old_df\<close>, so they have the same index), or the
  scalar \<open>0.0\<close> of the last branch.
\<close>

datatype l_value = Series "cell list" | Scalar cell

definition l_i :: "int \<Rightarrow> cell list \<Rightarrow> cell list \<Rightarrow> l_value" where
  "l_i idx si si_g =
     (if idx \<in> set [3, 5, 7, 9] then
        Series (map2 (\<lambda>s g. fmul (Some nf)
          (fadd (fmul (fdiv s (Some 2)) (Some (1 - w))) (fmul (Some w) g))) si si_g)
      else if idx \<in> set [1, 2, 6] then
        Series (map2 (\<lambda>s g. fmul (Some nf)
          (fadd (fmul (fdiv s (Some 3)) (Some (1 - w))) (fmul (Some w) g))) si si_g)
      else if idx \<in> set [4] then
        Series (map2 (\<lambda>s g. fmul (Some nf)
          (fadd (fmul (fdiv s (Some 4)) (Some (1 - w))) (fmul (Some w) g))) si si_g)
      else if idx \<in> set [8] then
        Series (map (\<lambda>s. fdiv (fmul (Some nf) s) (Some 4)) si)
      else Scalar (Some 0))"

text \<open>
  \<^verbatim>\<open>transform_to_mobility(df, old_df, column, has_flag)\<close>. The source changes \<open>df\<close> in
  place; the model returns the new table. \<^verbatim>\<open>int\<close> may raise.
\<close>

definition transform_to_mobility ::
    "dataframe \<Rightarrow> dataframe \<Rightarrow> string \<Rightarrow> bool \<Rightarrow> error + dataframe" where
  "transform_to_mobility df old_df column has_flag =
     (case idx_of column of
        Inl e \<Rightarrow> Inl e
      | Inr idx \<Rightarrow>
          (let m_id = m_id_of idx;
               si = series column old_df;
               si_g = (if has_flag then series (s_id_of column @ ''_Flag'') old_df
                       else map (\<lambda>x. fadd (fmul x (Some 0)) (Some 1)) (series column old_df))
           in Inr (case l_i idx si si_g of
                     Series vs \<Rightarrow> set_column m_id vs (set_column_scalar m_id (Some 0) df)
                   | Scalar x \<Rightarrow> set_column_scalar m_id x (set_column_scalar m_id (Some 0) df))))"

section \<open>\<^verbatim>\<open>extend_data\<close>\<close>

text \<open>
  The loop over \<^verbatim>\<open>COL.ci_cols\<close> with its counter \<open>i\<close>: the column at position 8 is
  transformed without a flag.
\<close>

fun extend_loop :: "nat \<Rightarrow> string list \<Rightarrow> dataframe \<Rightarrow> dataframe \<Rightarrow> error + dataframe" where
  "extend_loop i [] df old_df = Inr df"
| "extend_loop i (s_col # cols) df old_df =
     (case (if i = 8 then transform_to_mobility df old_df s_col False
            else transform_to_mobility df old_df s_col True) of
        Inl e \<Rightarrow> Inl e
      | Inr df' \<Rightarrow> extend_loop (i + 1) cols df' old_df)"

text \<open>\<^verbatim>\<open>for col in df.columns: df[col].fillna(0, inplace=True)\<close>\<close>

definition fillna_all :: "dataframe \<Rightarrow> dataframe" where
  "fillna_all df = map (\<lambda>r. r\<lparr>num := (\<lambda>col. fillna0 (num r col))\<rparr>) df"

text \<open>
  \<^verbatim>\<open>df.sort_values(by=['Country_Code', 'DateTime'], ignore_index=True)\<close>: a stable sort on
  the pair of keys; strings compare lexicographically by character code.
\<close>

definition sort_values :: "dataframe \<Rightarrow> dataframe" where
  "sort_values df = sort_key (\<lambda>r. (Country_Code r, DateTime r)) df"

definition extend_data :: "dataframe \<Rightarrow> dataframe \<Rightarrow> error + dataframe" where
  "extend_data df old_df =
     (case extend_loop 0 ci_cols df old_df of
        Inl e \<Rightarrow> Inl e
      | Inr df1 \<Rightarrow>
          (let df2 = fillna_all df1;
               df3 = sort_values df2;
               df4 = set_column_scalar ''mt'' (Some 0) df3;
               df5 = set_column_scalar ''Mt'' (Some 0) df4;
               df6 = set_column_scalar ''pt'' (Some 0) df5;
               df7 = set_column_scalar ''Pt'' (Some 0) df6;
               df8 = set_column_scalar ''st'' (Some 0) df7;
               df9 = set_column_scalar ''St'' (Some 0) df8
           in Inr df9))"

text \<open>
  The ranges of the raw table, as the spec documents them: an ordinal of an indicator is
  between 0 and the maximum of its group (2 for the indices 3, 5, 7 and 9, 3 for the
  indices 1, 2 and 6, 4 for the indices 4 and 8), a flag is 0 or 1, and the stringency
  index is between 0 and 100. A missing reading (NaN) is within every range.
\<close>

definition cell_between :: "real \<Rightarrow> real \<Rightarrow> cell \<Rightarrow> bool" where
  "cell_between lo hi a = (case a of None \<Rightarrow> True | Some v \<Rightarrow> lo \<le> v \<and> v \<le> hi)"

definition flag_ok :: "cell \<Rightarrow> bool" where
  "flag_ok a = (case a of None \<Rightarrow> True | Some v \<Rightarrow> v = 0 \<or> v = 1)"

definition raw_in_range :: "row \<Rightarrow> bool" where
  "raw_in_range r =
     (cell_between 0 3 (num r COL_c1) \<and> flag_ok (num r ''C1_Flag'') \<and>
      cell_between 0 3 (num r COL_c2) \<and> flag_ok (num r ''C2_Flag'') \<and>
      cell_between 0 2 (num r COL_c3) \<and> flag_ok (num r ''C3_Flag'') \<and>
      cell_between 0 4 (num r COL_c4) \<and> flag_ok (num r ''C4_Flag'') \<and>
      cell_between 0 2 (num r COL_c5) \<and> flag_ok (num r ''C5_Flag'') \<and>
      cell_between 0 3 (num r COL_c6) \<and> flag_ok (num r ''C6_Flag'') \<and>
      cell_between 0 2 (num r COL_c7) \<and> flag_ok (num r ''C7_Flag'') \<and>
      cell_between 0 4 (num r COL_c8) \<and>
      cell_between 0 2 (num r COL_h1) \<and> flag_ok (num r ''H1_Flag''))"

definition stringency_in_range :: "row \<Rightarrow> bool" where
  "stringency_in_range r = cell_between 0 100 (num r ''StringencyIndex'')"

section \<open>The temporal continuity filler: \<^verbatim>\<open>fill_missing_values\<close>\<close>

text \<open>\<^verbatim>\<open>Series.unique()\<close>: the distinct values, in order of first appearance.\<close>

fun unique :: "'a list \<Rightarrow> 'a list" where
  "unique [] = []"
| "unique (x # xs) = x # unique (removeAll x xs)"

text \<open>\<^verbatim>\<open>df.loc[df.Country_Code == c_code]\<close>: the rows of one country, in table order.\<close>

definition loc_country :: "string \<Rightarrow> dataframe \<Rightarrow> dataframe" where
  "loc_country c_code df = filter (\<lambda>r. Country_Code r = c_code) df"

text \<open>
  \<^verbatim>\<open>df.loc[mask, col] = s\<close>: the selected rows take the values of \<open>s\<close> in order. Every
  right-hand side of the source is computed from the rows of the same mask, so it has one
  value for each selected row; a selected row without a value would get NaN.
\<close>

fun loc_assign :: "(row \<Rightarrow> bool) \<Rightarrow> string \<Rightarrow> cell list \<Rightarrow> dataframe \<Rightarrow> dataframe" where
  "loc_assign msk col vs [] = []"
| "loc_assign msk col vs (r # rs) =
     (if msk r then
        (case vs of
           [] \<Rightarrow> col_set col None r # loc_assign msk col [] rs
         | v # vs' \<Rightarrow> col_set col v r # loc_assign msk col vs' rs)
      else r # loc_assign msk col vs rs)"

text \<open>
  \<^verbatim>\<open>Series.replace(to_replace=0, method='ffill')\<close>: pandas pads the entries equal to 0
  with the last entry that is not; the value carried starts as the first entry, so zeros
  at the head of the series stay. NaN is not equal to 0 and is carried like a number.
\<close>

fun pad :: "cell \<Rightarrow> cell list \<Rightarrow> cell list" where
  "pad val [] = []"
| "pad val (x # xs) = (if x = Some 0 then val # pad val xs else x # pad x xs)"

definition replace_ffill :: "cell list \<Rightarrow> cell list" where
  "replace_ffill xs = (case xs of [] \<Rightarrow> [] | x # _ \<Rightarrow> pad x xs)"

text \<open>\<^verbatim>\<open>df[cols].sum(axis=1)\<close>: the sum of each row over the columns, NaN skipped.\<close>

definition nan_as_zero :: "cell \<Rightarrow> real" where
  "nan_as_zero a = (case a of None \<Rightarrow> 0 | Some v \<Rightarrow> v)"

definition sum_axis1 :: "string list \<Rightarrow> dataframe \<Rightarrow> cell list" where
  "sum_axis1 cols df = map (\<lambda>r. Some (sum_list (map (\<lambda>col. nan_as_zero (num r col)) cols))) df"

text \<open>\<^verbatim>\<open>Series.cumsum()\<close>: the running sum; a NaN entry stays NaN and is skipped.\<close>

fun cumsum_from :: "real \<Rightarrow> cell list \<Rightarrow> cell list" where
  "cumsum_from acc [] = []"
| "cumsum_from acc (None # xs) = None # cumsum_from acc xs"
| "cumsum_from acc (Some v # xs) = Some (acc + v) # cumsum_from (acc + v) xs"

definition cumsum :: "cell list \<Rightarrow> cell list" where
  "cumsum xs = cumsum_from 0 xs"

text \<open>The forward fill of one column of one country (lines 202-203 and their copies).\<close>

definition ffill_col :: "string \<Rightarrow> string \<Rightarrow> dataframe \<Rightarrow> dataframe" where
  "ffill_col c_code col df =
     loc_assign (\<lambda>r. Country_Code r = c_code) col
       (replace_ffill (series col (loc_country c_code df))) df"

text \<open>The body of the loop over the countries.\<close>

definition fill_country :: "string \<Rightarrow> dataframe \<Rightarrow> dataframe" where
  "fill_country c_code df =
     (let m = (\<lambda>r. Country_Code r = c_code);
          df1 = foldl (\<lambda>d col. ffill_col c_code col d) df si_cols;
          df2 = ffill_col c_code ''ConfirmedCases'' df1;
          df3 = ffill_col c_code ''ConfirmedDeaths'' df2;
          df4 = ffill_col c_code ''Recovered'' df3;
          df5 = ffill_col c_code ''StringencyIndex'' df4;
          df6 = loc_assign m ''pt''
                  (map (\<lambda>x. fdiv x (Some 9)) (sum_axis1 si_cols (loc_country c_code df5))) df5;
          df7 = loc_assign m ''Pt'' (cumsum (series ''pt'' (loc_country c_code df6))) df6;
          df8 = loc_assign m ''mt''
                  (map (\<lambda>x. fsub (Some 1) x) (series ''pt'' (loc_country c_code df7))) df7;
          df9 = loc_assign m ''Mt'' (cumsum (series ''mt'' (loc_country c_code df8))) df8;
          df10 = loc_assign m ''st''
                  (map (\<lambda>x. fdiv x (Some 100))
                     (series ''StringencyIndex'' (loc_country c_code df9))) df9;
          df11 = loc_assign m ''St'' (cumsum (series ''st'' (loc_country c_code df10))) df10
      in df11)"

definition fill_missing_values :: "dataframe \<Rightarrow> dataframe" where
  "fill_missing_values df =
     foldl (\<lambda>d c_code. fill_country c_code d) df (unique (map Country_Code df))"

text \<open>The thirteen columns that the loop body forward-fills, in the order of the source.\<close>

definition fill_cols :: "string list" where
  "fill_cols = si_cols @ [''ConfirmedCases'', ''ConfirmedDeaths'', ''Recovered'', ''StringencyIndex'']"

section \<open>\<^verbatim>\<open>add_world_population_data\<close>\<close>

text \<open>
  Modelled from the spec: the class \<^verbatim>\<open>WorldPopulationData\<close> of module \<^verbatim>\<open>world_data\<close> is
  not part of the sources. The spec describes the join as left-outer by country code,
  giving a numeric population, and missing for a country without a match. The population
  table is the parameter \<open>wp\<close>, from a country code to its population or NaN; the join
  keeps every row and adds the column \<^verbatim>\<open>Population\<close>.
\<close>

definition add_world_population_data :: "(string \<Rightarrow> cell) \<Rightarrow> dataframe \<Rightarrow> dataframe" where
  "add_world_population_data wp df = map (\<lambda>r. col_set ''Population'' (wp (Country_Code r)) r) df"

section \<open>The feature synthesizer: \<^verbatim>\<open>create_features\<close>\<close>

text \<open>\<^verbatim>\<open>Series.diff()\<close>: each entry minus the one before it; the first entry is NaN.\<close>

definition diff :: "cell list \<Rightarrow> cell list" where
  "diff xs = (case xs of [] \<Rightarrow> [] | x # xs' \<Rightarrow> None # map2 fsub xs' xs)"

text \<open>\<^verbatim>\<open>df.ConfirmedCases > 0\<close> on one row: a comparison with NaN is false.\<close>

definition cases_positive :: "row \<Rightarrow> bool" where
  "cases_positive r = (case num r ''ConfirmedCases'' of None \<Rightarrow> False | Some v \<Rightarrow> v > 0)"

text \<open>
  \<^verbatim>\<open>(dates - dates.min()).dt.days.values\<close>: the days from the earliest date of the
  series; for an empty series the minimum is NaT and the result is empty.
\<close>

definition days_count :: "int list \<Rightarrow> cell list" where
  "days_count dates =
     (case dates of [] \<Rightarrow> [] | _ # _ \<Rightarrow> map (\<lambda>d. Some (of_int (d - min_list dates))) dates)"

text \<open>\<^verbatim>\<open>df[col].fillna(0, inplace=True)\<close>\<close>

definition fillna_col :: "string \<Rightarrow> dataframe \<Rightarrow> dataframe" where
  "fillna_col col df = map (\<lambda>r. col_set col (fillna0 (num r col)) r) df"

text \<open>The body of the loop over the countries (lines 336-352).\<close>

definition features_country :: "string \<Rightarrow> dataframe \<Rightarrow> dataframe" where
  "features_country c df =
     (let m = (\<lambda>r. Country_Code r = c);
          mc = (\<lambda>r. Country_Code r = c \<and> cases_positive r);
          dates = map DateTime (filter mc df);
          df1 = loc_assign mc ''DaysCountFromFirstCase'' (days_count dates) df;
          df2 = loc_assign m ''DailyConfirmedCases''
                  (diff (series ''ConfirmedCases'' (filter m df1))) df1;
          df3 = loc_assign m ''DailyConfirmedDeaths''
                  (diff (series ''ConfirmedDeaths'' (filter m df2))) df2;
          df4 = loc_assign m ''DailyRecovered'' (diff (series ''Recovered'' (filter m df3))) df3;
          df5 = loc_assign m ''DailyActive'' (diff (series ''Active'' (filter m df4))) df4
      in df5)"

definition create_features :: "dataframe \<Rightarrow> dataframe" where
  "create_features df =
     (let a1 = set_column ''Active''
                 (map2 fsub (map2 fsub (series ''ConfirmedCases'' df) (series ''ConfirmedDeaths'' df))
                    (series ''Recovered'' df)) df;
          a2 = set_column ''RelativeConfirmedCases''
                 (map2 fdiv (series ''ConfirmedCases'' a1) (series ''Population'' a1)) a1;
          a3 = set_column ''RelativeConfirmedDeaths''
                 (map2 fdiv (series ''ConfirmedDeaths'' a2) (series ''Population'' a2)) a2;
          a4 = set_column ''RelativeRecovered''
                 (map2 fdiv (series ''Recovered'' a3) (series ''Population'' a3)) a3;
          a5 = set_column ''RelativeActive''
                 (map2 fdiv (series ''Active'' a4) (series ''Population'' a4)) a4;
          a6 = set_column_scalar ''DailyConfirmedCases'' (Some 0) a5;
          a7 = set_column_scalar ''DailyConfirmedDeaths'' (Some 0) a6;
          a8 = set_column_scalar ''DailyRecovered'' (Some 0) a7;
          a9 = set_column_scalar ''DailyActive'' (Some 0) a8;
          a10 = set_column_scalar ''DaysCountFromFirstCase'' (Some 0) a9;
          a11 = foldl (\<lambda>d c. features_country c d) a10 (unique (map Country_Code a10));
          a12 = fillna_col ''DailyConfirmedCases'' a11;
          a13 = fillna_col ''DailyConfirmedDeaths'' a12;
          a14 = fillna_col ''DailyRecovered'' a13;
          a15 = fillna_col ''DailyActive'' a14
      in a15)"

text \<open>
  Lines 321-333 of \<^verbatim>\<open>create_features\<close> read on one row: the active cases, the four
  relative rates and the seeds of the five columns of the loop.
\<close>

definition features_init_row :: "row \<Rightarrow> row" where
  "features_init_row r =
     (let r1 = col_set ''Active''
                 (fsub (fsub (num r ''ConfirmedCases'') (num r ''ConfirmedDeaths''))
                    (num r ''Recovered'')) r;
          r2 = col_set ''RelativeConfirmedCases''
                 (fdiv (num r1 ''ConfirmedCases'') (num r1 ''Population'')) r1;
          r3 = col_set ''RelativeConfirmedDeaths''
                 (fdiv (num r2 ''ConfirmedDeaths'') (num r2 ''Population'')) r2;
          r4 = col_set ''RelativeRecovered'' (fdiv (num r3 ''Recovered'') (num r3 ''Population'')) r3;
          r5 = col_set ''RelativeActive'' (fdiv (num r4 ''Active'') (num r4 ''Population'')) r4;
          r6 = col_set ''DailyConfirmedCases'' (Some 0) r5;
          r7 = col_set ''DailyConfirmedDeaths'' (Some 0) r6;
          r8 = col_set ''DailyRecovered'' (Some 0) r7;
          r9 = col_set ''DailyActive'' (Some 0) r8
      in col_set ''DaysCountFromFirstCase'' (Some 0) r9)"

text \<open>Lines 355-358 read on one row.\<close>

definition features_fillna_row :: "row \<Rightarrow> row" where
  "features_fillna_row r =
     (let r1 = col_set ''DailyConfirmedCases'' (fillna0 (num r ''DailyConfirmedCases'')) r;
          r2 = col_set ''DailyConfirmedDeaths'' (fillna0 (num r1 ''DailyConfirmedDeaths'')) r1;
          r3 = col_set ''DailyRecovered'' (fillna0 (num r2 ''DailyRecovered'')) r2
      in col_set ''DailyActive'' (fillna0 (num r3 ''DailyActive'')) r3)"

section \<open>\<^verbatim>\<open>process_data\<close>\<close>

definition process_data :: "(string \<Rightarrow> cell) \<Rightarrow> dataframe \<Rightarrow> dataframe \<Rightarrow> error + dataframe" where
  "process_data wp df old_df =
     (case extend_data df old_df of
        Inl e \<Rightarrow> Inl e
      | Inr df1 \<Rightarrow>
          Inr (create_features (add_world_population_data wp (fill_missing_values df1))))"

section \<open>Example tables\<close>

text \<open>
  A row given by its country, its day and the numeric cells listed; every other cell is
  NaN.
\<close>

definition mk_row :: "string \<Rightarrow> int \<Rightarrow> (string \<times> real) list \<Rightarrow> row" where
  "mk_row c d kvs = \<lparr>Country_Code = c, DateTime = d, num = map_of kvs\<rparr>"

text \<open>One raw row: school closing at level 2 with general scope, travel controls at level 3.\<close>

definition raw_example :: dataframe where
  "raw_example = [mk_row ''ABW'' 18293
     [(''C1_School_closing'', 2), (''C1_Flag'', 1), (''C8_International_travel_controls'', 3)]]"

text \<open>A row of a table after \<^verbatim>\<open>extend_data\<close>: the cells that are not listed are 0.\<close>

definition mk_row0 :: "string \<Rightarrow> int \<Rightarrow> (string \<times> real) list \<Rightarrow> row" where
  "mk_row0 c d kvs = \<lparr>Country_Code = c, DateTime = d,
     num = (\<lambda>col. case map_of kvs col of None \<Rightarrow> Some 0 | Some v \<Rightarrow> Some v)\<rparr>"

text \<open>
  Two countries. Country \<open>X\<close> has the confirmed cases 0, 0, 5, 5, 12 of the spec's example
  on five days, and gaps in \<open>S1\<close> and in the stringency index.
\<close>

definition table_example :: dataframe where
  "table_example =
    [mk_row0 ''X'' 18290 [(''ConfirmedCases'', 0), (''S1'', 0), (''StringencyIndex'', 0)],
     mk_row0 ''X'' 18291 [(''ConfirmedCases'', 0), (''S1'', 1 / 2), (''StringencyIndex'', 40)],
     mk_row0 ''Y'' 18290 [(''ConfirmedCases'', 7), (''S1'', 1 / 4), (''StringencyIndex'', 20)],
     mk_row0 ''X'' 18292 [(''ConfirmedCases'', 5), (''S1'', 0), (''StringencyIndex'', 0)],
     mk_row0 ''X'' 18293 [(''ConfirmedCases'', 5), (''S1'', 0), (''StringencyIndex'', 0)],
     mk_row0 ''Y'' 18291 [(''ConfirmedCases'', 0), (''S1'', 0), (''StringencyIndex'', 0)],
     mk_row0 ''X'' 18294 [(''ConfirmedCases'', 12), (''S1'', 1), (''StringencyIndex'', 60)]]"

text \<open>
  The same table with other rows for country \<open>Y\<close>: one more day, other counts and other
  indices. The rows of \<open>X\<close> are the same.
\<close>

definition table_example_other :: dataframe where
  "table_example_other =
    [mk_row0 ''Y'' 18289 [(''ConfirmedCases'', 1), (''S1'', 1), (''StringencyIndex'', 90)],
     mk_row0 ''X'' 18290 [(''ConfirmedCases'', 0), (''S1'', 0), (''StringencyIndex'', 0)],
     mk_row0 ''X'' 18291 [(''ConfirmedCases'', 0), (''S1'', 1 / 2), (''StringencyIndex'', 40)],
     mk_row0 ''Y'' 18290 [(''ConfirmedCases'', 70), (''S1'', 0), (''StringencyIndex'', 0)],
     mk_row0 ''X'' 18292 [(''ConfirmedCases'', 5), (''S1'', 0), (''StringencyIndex'', 0)],
     mk_row0 ''X'' 18293 [(''ConfirmedCases'', 5), (''S1'', 0), (''StringencyIndex'', 0)],
     mk_row0 ''Y'' 18291 [(''ConfirmedCases'', 0), (''S1'', 3 / 4), (''StringencyIndex'', 10)],
     mk_row0 ''X'' 18294 [(''ConfirmedCases'', 12), (''S1'', 1), (''StringencyIndex'', 60)]]"

text \<open>
  Two rows with 100 and 50 confirmed cases; the first has a population of one million,
  the second has none.
\<close>

definition population_example :: dataframe where
  "population_example =
    [mk_row ''X'' 18290 [(''ConfirmedCases'', 100), (''ConfirmedDeaths'', 1), (''Recovered'', 9),
       (''Population'', 1000000)],
     mk_row ''Y'' 18290 [(''ConfirmedCases'', 50), (''ConfirmedDeaths'', 0), (''Recovered'', 0)]]"

text \<open>
  A raw table of one country on two days, the later day first: school closing at levels
  3 and 2 with general scope, travel controls at levels 4 and 3, and a stringency index.
\<close>

definition raw_table_example :: dataframe where
  "raw_table_example =
    [mk_row ''ABW'' 18294 [(''C1_School_closing'', 3), (''C1_Flag'', 1),
       (''C8_International_travel_controls'', 4), (''StringencyIndex'', 80)],
     mk_row ''ABW'' 18293 [(''C1_School_closing'', 2), (''C1_Flag'', 1),
       (''C8_International_travel_controls'', 3), (''StringencyIndex'', 50)]]"

text \<open>
  A table that the filler has not processed: the count of country \<open>X\<close> falls back to 0
  on the third day.
\<close>

definition unfilled_example :: dataframe where
  "unfilled_example =
    [mk_row0 ''X'' 18290 [(''ConfirmedCases'', 0)],
     mk_row0 ''X'' 18291 [(''ConfirmedCases'', 5)],
     mk_row0 ''X'' 18292 [(''ConfirmedCases'', 0)],
     mk_row0 ''X'' 18293 [(''ConfirmedCases'', 7)]]"

section \<open>Basic facts about columns and assignments\<close>

lemma num_col_set [simp]: "num (col_set col v r) c = (if c = col then v else num r c)"
  by (simp add: col_set_def)

lemma Country_Code_col_set [simp]: "Country_Code (col_set col v r) = Country_Code r"
  by (simp add: col_set_def)

lemma DateTime_col_set [simp]: "DateTime (col_set col v r) = DateTime r"
  by (simp add: col_set_def)

lemma length_series [simp]: "length (series col df) = length df"
  by (simp add: series_def)

lemma length_set_column [simp]: "length (set_column col vs df) = length df"
  by (induction col vs df rule: set_column.induct) simp_all

lemma set_column_nth:
  "j < length df \<Longrightarrow>
   set_column col vs df ! j = col_set col (if j < length vs then vs ! j else None) (df ! j)"
proof (induction col vs df arbitrary: j rule: set_column.induct)
  case (1 col vs)
  then show ?case by simp
next
  case (2 col r rs)
  then show ?case by (cases j) simp_all
next
  case (3 col v vs r rs)
  then show ?case by (cases j) simp_all
qed

lemma map_Country_Code_set_column [simp]:
  "map Country_Code (set_column col vs df) = map Country_Code df"
  by (induction col vs df rule: set_column.induct) simp_all

lemma map_DateTime_set_column [simp]:
  "map DateTime (set_column col vs df) = map DateTime df"
  by (induction col vs df rule: set_column.induct) simp_all

lemma series_set_column:
  "length vs = length df \<Longrightarrow>
   series c (set_column col vs df) = (if c = col then vs else series c df)"
  by (induction col vs df rule: set_column.induct) (auto simp: series_def)

lemma set_column_map:
  "set_column col (map g df) df = map (\<lambda>r. col_set col (g r) r) df"
  by (induction df) simp_all

lemma length_loc_assign [simp]: "length (loc_assign m col vs df) = length df"
  by (induction df arbitrary: vs) (auto split: list.splits)

lemma map_Country_Code_loc_assign [simp]:
  "map Country_Code (loc_assign m col vs df) = map Country_Code df"
  by (induction df arbitrary: vs) (auto split: list.splits)

lemma map_DateTime_loc_assign [simp]:
  "map DateTime (loc_assign m col vs df) = map DateTime df"
  by (induction df arbitrary: vs) (auto split: list.splits)

text \<open>
  Selecting rows by a predicate that no assignment to \<open>col\<close> changes: the selection
  commutes with an assignment under a mask inside the predicate, and does not see one under
  a mask outside of it.
\<close>

lemma filter_loc_assign_inside:
  assumes "\<And>r v. P (col_set col v r) = P r" and "\<And>r. m r \<Longrightarrow> P r"
  shows "filter P (loc_assign m col vs df) = loc_assign m col vs (filter P df)"
  using assms by (induction df arbitrary: vs) (auto split: list.splits)

lemma filter_loc_assign_outside:
  assumes "\<And>r v. P (col_set col v r) = P r" and "\<And>r. m r \<Longrightarrow> \<not> P r"
  shows "filter P (loc_assign m col vs df) = filter P df"
  using assms by (induction df arbitrary: vs) (auto split: list.splits)

lemma loc_assign_all:
  "\<forall>r\<in>set df. m r \<Longrightarrow> loc_assign m col vs df = set_column col vs df"
  by (induction col vs df rule: set_column.induct) auto

lemma unique_set [simp]: "set (unique xs) = set xs"
  by (induction xs rule: unique.induct) auto

lemma unique_distinct [simp]: "distinct (unique xs)"
  by (induction xs rule: unique.induct) auto

lemma loc_country_idem [simp]: "loc_country c (loc_country c df) = loc_country c df"
  by (simp add: loc_country_def)

lemma loc_country_other [simp]: "c' \<noteq> c \<Longrightarrow> loc_country c' (loc_country c df) = []"
  by (induction df) (auto simp: loc_country_def)

lemma loc_country_all: "\<forall>r\<in>set (loc_country c df). Country_Code r = c"
  by (simp add: loc_country_def)

lemma loc_country_empty: "c \<notin> set (map Country_Code df) \<Longrightarrow> loc_country c df = []"
  by (induction df) (auto simp: loc_country_def)

section \<open>Each country is filled on its own\<close>

lemma loc_country_loc_assign_same:
  "loc_country c (loc_assign (\<lambda>r. Country_Code r = c) col vs df)
     = loc_assign (\<lambda>r. Country_Code r = c) col vs (loc_country c df)"
  unfolding loc_country_def by (rule filter_loc_assign_inside) simp_all

lemma loc_country_loc_assign_other:
  "c' \<noteq> c \<Longrightarrow> loc_country c' (loc_assign (\<lambda>r. Country_Code r = c) col vs df) = loc_country c' df"
  unfolding loc_country_def by (rule filter_loc_assign_outside) simp_all

lemma loc_country_ffill_col_same:
  "loc_country c (ffill_col c col df) = ffill_col c col (loc_country c df)"
  by (simp add: ffill_col_def loc_country_loc_assign_same)

lemma loc_country_ffill_col_other:
  "c' \<noteq> c \<Longrightarrow> loc_country c' (ffill_col c col df) = loc_country c' df"
  by (simp add: ffill_col_def loc_country_loc_assign_other)

lemma loc_country_foldl_ffill_same:
  "loc_country c (foldl (\<lambda>d col. ffill_col c col d) df cols)
     = foldl (\<lambda>d col. ffill_col c col d) (loc_country c df) cols"
  by (induction cols arbitrary: df) (simp_all add: loc_country_ffill_col_same)

lemma loc_country_foldl_ffill_other:
  "c' \<noteq> c \<Longrightarrow> loc_country c' (foldl (\<lambda>d col. ffill_col c col d) df cols) = loc_country c' df"
  by (induction cols arbitrary: df) (simp_all add: loc_country_ffill_col_other)

lemma loc_country_fill_country_same:
  "loc_country c (fill_country c df) = fill_country c (loc_country c df)"
  by (simp add: fill_country_def Let_def loc_country_loc_assign_same loc_country_ffill_col_same
      loc_country_foldl_ffill_same)

lemma loc_country_fill_country_other:
  "c' \<noteq> c \<Longrightarrow> loc_country c' (fill_country c df) = loc_country c' df"
  by (simp add: fill_country_def Let_def loc_country_loc_assign_other loc_country_ffill_col_other
      loc_country_foldl_ffill_other)

lemma fill_country_Nil [simp]: "fill_country c [] = []"
  by (simp add: fill_country_def Let_def ffill_col_def si_cols_def)

lemma map_Country_Code_fill_country [simp]:
  "map Country_Code (fill_country c df) = map Country_Code df"
proof -
  have g: "map Country_Code (ffill_col c col d) = map Country_Code d" for d col
    by (simp add: ffill_col_def)
  have f: "map Country_Code (foldl (\<lambda>d col. ffill_col c col d) d cols) = map Country_Code d"
    for d cols by (induction cols arbitrary: d) (simp_all add: g)
  show ?thesis by (simp add: fill_country_def Let_def g f)
qed

lemma loc_country_foldl_fill_country:
  "distinct cs \<Longrightarrow>
   loc_country c (foldl (\<lambda>d c_code. fill_country c_code d) df cs)
     = (if c \<in> set cs then fill_country c (loc_country c df) else loc_country c df)"
proof (induction cs arbitrary: df)
  case Nil
  then show ?case by simp
next
  case (Cons a cs)
  show ?case
  proof (cases "c = a")
    case True
    with Cons show ?thesis by (simp add: loc_country_fill_country_same)
  next
    case False
    with Cons show ?thesis by (simp add: loc_country_fill_country_other)
  qed
qed

lemma loc_country_fill_missing_values:
  "loc_country c (fill_missing_values df) = fill_country c (loc_country c df)"
proof (cases "c \<in> set (map Country_Code df)")
  case True
  then show ?thesis
    by (simp add: fill_missing_values_def loc_country_foldl_fill_country)
next
  case False
  then have "loc_country c df = []" by (rule loc_country_empty)
  with False show ?thesis 
    by (simp add: fill_missing_values_def loc_country_foldl_fill_country)
qed

section \<open>The forward fill of a series\<close>

lemma length_pad [simp]: "length (pad v xs) = length xs"
  by (induction xs arbitrary: v) simp_all

lemma length_replace_ffill [simp]: "length (replace_ffill xs) = length xs"
  by (simp add: replace_ffill_def split: list.splits)

lemma replace_ffill_Cons: "replace_ffill (x # xs) = x # pad x xs"
  by (simp add: replace_ffill_def)

lemma pad_keeps_nonzero:
  "i < length xs \<Longrightarrow> xs ! i \<noteq> Some 0 \<Longrightarrow> pad v xs ! i = xs ! i"
proof (induction xs arbitrary: v i)
  case Nil
  then show ?case by simp
next
  case (Cons x xs)
  then show ?case by (cases i) auto
qed

lemma pad_leading_zeros:
  "i < length xs \<Longrightarrow> \<forall>j\<le>i. xs ! j = Some 0 \<Longrightarrow> pad v xs ! i = v"
proof (induction xs arbitrary: v i)
  case Nil
  then show ?case by simp
next
  case (Cons x xs)
  show ?case
  proof (cases i)
    case 0
    with Cons.prems show ?thesis by auto
  next
    case (Suc i')
    from Cons.prems have x: "x = Some 0" by auto
    from Cons.prems Suc have "\<forall>j\<le>i'. xs ! j = Some 0" by auto
    with Cons.IH [of i' v] Cons.prems Suc x show ?thesis by simp
  qed
qed

lemma pad_carries_last_nonzero:
  "i < length xs \<Longrightarrow> j < i \<Longrightarrow> xs ! j \<noteq> Some 0 \<Longrightarrow> \<forall>k. j < k \<and> k \<le> i \<longrightarrow> xs ! k = Some 0
   \<Longrightarrow> pad v xs ! i = xs ! j"
proof (induction xs arbitrary: v i j)
  case Nil
  then show ?case by simp
next
  case (Cons x xs)
  from Cons.prems obtain i' where i: "i = Suc i'" by (cases i) auto
  show ?case
  proof (cases j)
    case 0
    with Cons.prems i have x: "x \<noteq> Some 0" and z: "\<forall>k\<le>i'. xs ! k = Some 0" by auto
    from Cons.prems i have "i' < length xs" by simp
    from pad_leading_zeros [OF this z] x i 0 show ?thesis by simp
  next
    case (Suc j')
    with Cons.prems i have a: "i' < length xs" "j' < i'" "xs ! j' \<noteq> Some 0"
      "\<forall>k. j' < k \<and> k \<le> i' \<longrightarrow> xs ! k = Some 0" by auto
    from Cons.IH [OF a] i Suc show ?thesis by simp
  qed
qed

lemma pad_pad: "(v = Some 0 \<longrightarrow> u = Some 0) \<Longrightarrow> pad u (pad v xs) = pad v xs"
  by (induction xs arbitrary: u v) auto

lemma replace_ffill_idem [simp]: "replace_ffill (replace_ffill xs) = replace_ffill xs"
  by (cases xs) (simp_all add: replace_ffill_Cons pad_pad, simp add: replace_ffill_def)

section \<open>The filler on the rows of one country\<close>

lemma loc_country_single: "set (map Country_Code rs) \<subseteq> {c} \<Longrightarrow> loc_country c rs = rs"
  by (induction rs) (auto simp: loc_country_def)

lemma loc_assign_single:
  "set (map Country_Code rs) \<subseteq> {c} \<Longrightarrow>
   loc_assign (\<lambda>r. Country_Code r = c) col vs rs = set_column col vs rs"
  by (rule loc_assign_all) auto

lemma ffill_col_single:
  "set (map Country_Code rs) \<subseteq> {c} \<Longrightarrow>
   ffill_col c col rs = set_column col (replace_ffill (series col rs)) rs"
  by (simp add: ffill_col_def loc_country_single loc_assign_single)

lemma map_Country_Code_ffill_col [simp]:
  "map Country_Code (ffill_col c col d) = map Country_Code d"
  by (simp add: ffill_col_def)

lemma map_DateTime_ffill_col [simp]: "map DateTime (ffill_col c col d) = map DateTime d"
  by (simp add: ffill_col_def)

lemma length_ffill_col [simp]: "length (ffill_col c col d) = length d"
  by (simp add: ffill_col_def)

lemma map_Country_Code_foldl_ffill [simp]:
  "map Country_Code (foldl (\<lambda>d col. ffill_col c col d) d cols) = map Country_Code d"
  by (induction cols arbitrary: d) simp_all

lemma map_DateTime_foldl_ffill [simp]:
  "map DateTime (foldl (\<lambda>d col. ffill_col c col d) d cols) = map DateTime d"
  by (induction cols arbitrary: d) simp_all

lemma length_foldl_ffill [simp]:
  "length (foldl (\<lambda>d col. ffill_col c col d) d cols) = length d"
  by (induction cols arbitrary: d) simp_all

lemma series_ffill_col_single:
  "set (map Country_Code rs) \<subseteq> {c} \<Longrightarrow>
   series col' (ffill_col c col rs)
     = (if col' = col then replace_ffill (series col rs) else series col' rs)"
  by (simp add: ffill_col_single series_set_column)

lemma series_foldl_ffill_single:
  "set (map Country_Code rs) \<subseteq> {c} \<Longrightarrow>
   series col' (foldl (\<lambda>d col. ffill_col c col d) rs cols)
     = (if col' \<in> set cols then replace_ffill (series col' rs) else series col' rs)"
proof (induction cols arbitrary: rs)
  case Nil
  then show ?case by simp
next
  case (Cons a cols)
  from Cons.prems have "set (map Country_Code (ffill_col c a rs)) \<subseteq> {c}" by simp
  from Cons.IH [OF this] Cons.prems show ?case
    by (simp add: series_ffill_col_single)
qed

lemma fill_country_fill_cols:
  "fill_country c rs =
     (let m = (\<lambda>r. Country_Code r = c);
          df5 = foldl (\<lambda>d col. ffill_col c col d) rs fill_cols;
          df6 = loc_assign m ''pt''
                  (map (\<lambda>x. fdiv x (Some 9)) (sum_axis1 si_cols (loc_country c df5))) df5;
          df7 = loc_assign m ''Pt'' (cumsum (series ''pt'' (loc_country c df6))) df6;
          df8 = loc_assign m ''mt''
                  (map (\<lambda>x. fsub (Some 1) x) (series ''pt'' (loc_country c df7))) df7;
          df9 = loc_assign m ''Mt'' (cumsum (series ''mt'' (loc_country c df8))) df8;
          df10 = loc_assign m ''st''
                  (map (\<lambda>x. fdiv x (Some 100))
                     (series ''StringencyIndex'' (loc_country c df9))) df9;
          df11 = loc_assign m ''St'' (cumsum (series ''st'' (loc_country c df10))) df10
      in df11)"
  by (simp add: fill_country_def fill_cols_def Let_def)

lemma length_cumsum_from [simp]: "length (cumsum_from a xs) = length xs"
  by (induction a xs rule: cumsum_from.induct) simp_all

lemma length_cumsum [simp]: "length (cumsum xs) = length xs"
  by (simp add: cumsum_def)

lemma length_sum_axis1 [simp]: "length (sum_axis1 cols df) = length df"
  by (simp add: sum_axis1_def)

text \<open>
  On the rows of one country, the filler first forward-fills the thirteen columns, which
  gives the table \<open>T\<close>, and then writes the six derived columns, computed from \<open>T\<close>.
\<close>

lemma fill_country_single:
  assumes single: "set (map Country_Code rs) \<subseteq> {c}"
  defines "T \<equiv> foldl (\<lambda>d col. ffill_col c col d) rs fill_cols"
  defines "P \<equiv> map (\<lambda>x. fdiv x (Some 9)) (sum_axis1 si_cols T)"
  defines "M \<equiv> map (\<lambda>x. fsub (Some 1) x) P"
  defines "S \<equiv> map (\<lambda>x. fdiv x (Some 100)) (series ''StringencyIndex'' T)"
  shows "fill_country c rs =
    set_column ''St'' (cumsum S) (set_column ''st'' S (set_column ''Mt'' (cumsum M)
      (set_column ''mt'' M (set_column ''Pt'' (cumsum P) (set_column ''pt'' P T)))))"
proof -
  have T: "set (map Country_Code T) \<subseteq> {c}" using single by (simp add: T_def)
  define d6 where "d6 = set_column ''pt'' P T"
  define d7 where "d7 = set_column ''Pt'' (cumsum P) d6"
  define d8 where "d8 = set_column ''mt'' M d7"
  define d9 where "d9 = set_column ''Mt'' (cumsum M) d8"
  define d10 where "d10 = set_column ''st'' S d9"
  have lens: "length P = length T" "length M = length T" "length S = length T"
    by (simp_all add: P_def M_def S_def)
  have s6: "set (map Country_Code d6) \<subseteq> {c}" using T by (simp add: d6_def)
  have s7: "set (map Country_Code d7) \<subseteq> {c}" using s6 by (simp add: d7_def)
  have s8: "set (map Country_Code d8) \<subseteq> {c}" using s7 by (simp add: d8_def)
  have s9: "set (map Country_Code d9) \<subseteq> {c}" using s8 by (simp add: d9_def)
  have s10: "set (map Country_Code d10) \<subseteq> {c}" using s9 by (simp add: d10_def)
  have e6: "loc_assign (\<lambda>r. Country_Code r = c) ''pt''
      (map (\<lambda>x. fdiv x (Some 9)) (sum_axis1 si_cols (loc_country c T))) T = d6"
    using T by (simp add: loc_country_single loc_assign_single d6_def P_def)
  have p6: "series ''pt'' d6 = P" by (simp add: d6_def series_set_column lens)
  have e7: "loc_assign (\<lambda>r. Country_Code r = c) ''Pt'' (cumsum (series ''pt'' (loc_country c d6))) d6
      = d7"
    using s6 by (simp add: loc_country_single loc_assign_single d7_def p6)
  have p7: "series ''pt'' d7 = P" by (simp add: d7_def series_set_column lens p6 d6_def)
  have e8: "loc_assign (\<lambda>r. Country_Code r = c) ''mt''
      (map (\<lambda>x. fsub (Some 1) x) (series ''pt'' (loc_country c d7))) d7 = d8"
    using s7 by (simp add: loc_country_single loc_assign_single d8_def p7 M_def)
  have m8: "series ''mt'' d8 = M" by (simp add: d8_def d7_def d6_def series_set_column lens)
  have e9: "loc_assign (\<lambda>r. Country_Code r = c) ''Mt'' (cumsum (series ''mt'' (loc_country c d8))) d8
      = d9"
    using s8 by (simp add: loc_country_single loc_assign_single d9_def m8)
  have i9: "series ''StringencyIndex'' d9 = series ''StringencyIndex'' T"
    by (simp add: d9_def d8_def d7_def d6_def series_set_column lens)
  have e10: "loc_assign (\<lambda>r. Country_Code r = c) ''st''
      (map (\<lambda>x. fdiv x (Some 100)) (series ''StringencyIndex'' (loc_country c d9))) d9 = d10"
    using s9 by (simp add: loc_country_single loc_assign_single d10_def i9 S_def)
  have t10: "series ''st'' d10 = S"
    by (simp add: d10_def d9_def d8_def d7_def d6_def series_set_column lens)
  have e11: "loc_assign (\<lambda>r. Country_Code r = c) ''St'' (cumsum (series ''st'' (loc_country c d10))) d10
      = set_column ''St'' (cumsum S) d10"
    using s10 by (simp add: loc_country_single loc_assign_single t10)
  have "fill_country c rs = set_column ''St'' (cumsum S) d10"
    unfolding fill_country_fill_cols Let_def T_def [symmetric] e6 e7 e8 e9 e10 e11 ..
  then show ?thesis by (simp add: d10_def d9_def d8_def d7_def d6_def)
qed

lemma set_column_same: "series col d = vs \<Longrightarrow> set_column col vs d = d"
proof (induction col vs d rule: set_column.induct)
  case (1 col vs)
  then show ?case by simp
next
  case (2 col r rs)
  then show ?case by (simp add: series_def)
next
  case (3 col v vs r rs)
  then show ?case by (auto simp: series_def col_set_def)
qed

lemma derived_not_fill_cols:
  "''pt'' \<notin> set fill_cols" "''Pt'' \<notin> set fill_cols" "''mt'' \<notin> set fill_cols"
  "''Mt'' \<notin> set fill_cols" "''st'' \<notin> set fill_cols" "''St'' \<notin> set fill_cols"
  by (simp_all add: fill_cols_def si_cols_def)

lemma series_fill_country_fill_cols:
  assumes single: "set (map Country_Code rs) \<subseteq> {c}" and col: "col \<in> set fill_cols"
  shows "series col (fill_country c rs) = replace_ffill (series col rs)"
proof -
  from col have ne: "col \<noteq> ''pt''" "col \<noteq> ''Pt''" "col \<noteq> ''mt''" "col \<noteq> ''Mt''"
    "col \<noteq> ''st''" "col \<noteq> ''St''"
    using derived_not_fill_cols by auto
  show ?thesis
    unfolding fill_country_single [OF single]
    using ne col by (simp add: series_set_column series_foldl_ffill_single [OF single])
qed

lemma sum_axis1_cong:
  assumes "length a = length b" and "\<forall>col\<in>set cols. series col a = series col b"
  shows "sum_axis1 cols a = sum_axis1 cols b"
proof (rule nth_equalityI)
  show "length (sum_axis1 cols a) = length (sum_axis1 cols b)" using assms by simp
next
  fix i assume "i < length (sum_axis1 cols a)"
  then have i: "i < length a" "i < length b" using assms by simp_all
  have "num (a ! i) col = num (b ! i) col" if "col \<in> set cols" for col
  proof -
    from that assms have "series col a ! i = series col b ! i" by simp
    with i show ?thesis by (simp add: series_def)
  qed
  then have "map (\<lambda>col. nan_as_zero (num (a ! i) col)) cols
      = map (\<lambda>col. nan_as_zero (num (b ! i) col)) cols" by simp
  then have "sum_list (map (\<lambda>col. nan_as_zero (num (a ! i) col)) cols)
      = sum_list (map (\<lambda>col. nan_as_zero (num (b ! i) col)) cols)" by (rule arg_cong)
  with i show "sum_axis1 cols a ! i = sum_axis1 cols b ! i" by (simp add: sum_axis1_def)
qed

lemma ffill_col_fixed:
  "set (map Country_Code d) \<subseteq> {c} \<Longrightarrow> replace_ffill (series col d) = series col d
   \<Longrightarrow> ffill_col c col d = d"
  by (simp add: ffill_col_single set_column_same)

lemma foldl_ffill_fixed:
  "set (map Country_Code d) \<subseteq> {c} \<Longrightarrow> \<forall>col\<in>set cols. replace_ffill (series col d) = series col d
   \<Longrightarrow> foldl (\<lambda>d col. ffill_col c col d) d cols = d"
  by (induction cols) (simp_all add: ffill_col_fixed)

lemma si_cols_fill_cols: "set si_cols \<subseteq> set fill_cols"
  by (auto simp: fill_cols_def)

lemma fill_country_idem_single:
  assumes single: "set (map Country_Code rs) \<subseteq> {c}"
  shows "fill_country c (fill_country c rs) = fill_country c rs"
proof -
  define R where "R = fill_country c rs"
  define T where "T = foldl (\<lambda>d col. ffill_col c col d) rs fill_cols"
  define P where "P = map (\<lambda>x. fdiv x (Some 9)) (sum_axis1 si_cols T)"
  define M where "M = map (\<lambda>x. fsub (Some 1) x) P"
  define S where "S = map (\<lambda>x. fdiv x (Some 100)) (series ''StringencyIndex'' T)"
  have R: "R = set_column ''St'' (cumsum S) (set_column ''st'' S (set_column ''Mt'' (cumsum M)
      (set_column ''mt'' M (set_column ''Pt'' (cumsum P) (set_column ''pt'' P T)))))"
    unfolding R_def T_def P_def M_def S_def by (rule fill_country_single [OF single])
  have lens: "length P = length T" "length M = length T" "length S = length T"
    by (simp_all add: P_def M_def S_def)
  have singleR: "set (map Country_Code R) \<subseteq> {c}" using single by (simp add: R_def)
  have lenR: "length R = length T" by (simp add: R)
  have fc: "series col R = replace_ffill (series col rs)" if "col \<in> set fill_cols" for col
    unfolding R_def using single that by (rule series_fill_country_fill_cols)
  have fT: "series col T = replace_ffill (series col rs)" if "col \<in> set fill_cols" for col
    unfolding T_def using that by (simp add: series_foldl_ffill_single [OF single])
  have T': "foldl (\<lambda>d col. ffill_col c col d) R fill_cols = R"
    using singleR by (rule foldl_ffill_fixed) (simp add: fc)
  have P': "map (\<lambda>x. fdiv x (Some 9)) (sum_axis1 si_cols R) = P"
  proof -
    have "sum_axis1 si_cols R = sum_axis1 si_cols T"
      using lenR by (rule sum_axis1_cong) (use si_cols_fill_cols fc fT in auto)
    then show ?thesis by (simp add: P_def)
  qed
  have S': "map (\<lambda>x. fdiv x (Some 100)) (series ''StringencyIndex'' R) = S"
    by (simp add: S_def fc fT fill_cols_def)
  have cols: "series ''pt'' R = P" "series ''Pt'' R = cumsum P" "series ''mt'' R = M"
    "series ''Mt'' R = cumsum M" "series ''st'' R = S" "series ''St'' R = cumsum S"
    by (simp_all add: R series_set_column lens)
  have "fill_country c R = set_column ''St'' (cumsum S) (set_column ''st'' S
      (set_column ''Mt'' (cumsum M) (set_column ''mt'' M (set_column ''Pt'' (cumsum P)
      (set_column ''pt'' P R)))))"
    unfolding fill_country_single [OF singleR] T' P' S' M_def [symmetric] ..
  also have "\<dots> = R" by (simp add: set_column_same cols)
  finally show ?thesis by (simp add: R_def)
qed

lemma tables_equal_by_country:
  "map Country_Code a = map Country_Code b \<Longrightarrow> \<forall>c. loc_country c a = loc_country c b \<Longrightarrow> a = b"
proof (induction a arbitrary: b)
  case Nil
  then show ?case by simp
next
  case (Cons x a)
  from Cons.prems(1) obtain y b' where b: "b = y # b'" by (cases b) auto
  with Cons.prems(1) have cc: "Country_Code x = Country_Code y"
    and m: "map Country_Code a = map Country_Code b'" by simp_all
  from Cons.prems(2) b have all: "loc_country c (x # a) = loc_country c (y # b')" for c by simp
  from all [of "Country_Code x"] cc have xy: "x = y"
    and "loc_country (Country_Code x) a = loc_country (Country_Code x) b'"
    by (simp_all add: loc_country_def)
  have "loc_country c a = loc_country c b'" for c
    using all [of c] cc by (cases "Country_Code x = c") (simp_all add: loc_country_def)
  with m Cons.IH [of b'] have "a = b'" by simp
  with xy b show ?case by simp
qed

lemma map_Country_Code_fill_missing_values [simp]:
  "map Country_Code (fill_missing_values df) = map Country_Code df"
proof -
  have "map Country_Code (foldl (\<lambda>d c_code. fill_country c_code d) d cs) = map Country_Code d"
    for d cs by (induction cs arbitrary: d) simp_all
  then show ?thesis by (simp add: fill_missing_values_def)
qed

text \<open>
  C7: the filler is idempotent. Run on a table that it has already processed, it returns
  the table unchanged: the forward fills find nothing to fill, and the six derived
  columns are recomputed to the values they have.
\<close>

theorem fill_missing_values_idempotent:
  "fill_missing_values (fill_missing_values df) = fill_missing_values df"
proof (rule tables_equal_by_country)
  show "map Country_Code (fill_missing_values (fill_missing_values df))
      = map Country_Code (fill_missing_values df)" by simp
next
  show "\<forall>c. loc_country c (fill_missing_values (fill_missing_values df))
      = loc_country c (fill_missing_values df)"
  proof
    fix c
    have "set (map Country_Code (loc_country c df)) \<subseteq> {c}"
      using loc_country_all [of c df] by auto
    then show "loc_country c (fill_missing_values (fill_missing_values df))
      = loc_country c (fill_missing_values df)"
      by (simp add: loc_country_fill_missing_values fill_country_idem_single)
  qed
qed

section \<open>The transformer\<close>

lemma idx_of_cols:
  "idx_of COL_c1 = Inr 1" "idx_of COL_c2 = Inr 2" "idx_of COL_c3 = Inr 3" "idx_of COL_c4 = Inr 4"
  "idx_of COL_c5 = Inr 5" "idx_of COL_c6 = Inr 6" "idx_of COL_c7 = Inr 7" "idx_of COL_c8 = Inr 8"
  "idx_of COL_h1 = Inr 9"
  by (simp_all add: idx_of_def s_id_of_def py_int_def COL_c1_def COL_c2_def COL_c3_def COL_c4_def
      COL_c5_def COL_c6_def COL_c7_def COL_c8_def COL_h1_def)

lemma m_id_of_vals:
  "m_id_of 1 = ''S1''" "m_id_of 2 = ''S2''" "m_id_of 3 = ''S3''" "m_id_of 4 = ''S4''"
  "m_id_of 5 = ''S5''" "m_id_of 6 = ''S6''" "m_id_of 7 = ''S7''" "m_id_of 8 = ''S8''"
  "m_id_of 9 = ''S9''"
  by (simp_all add: m_id_of_def py_str_def str_nat.simps)

text \<open>
  C1: for an indicator column of index \<open>i\<close> in 1..9, a row with raw value \<open>raw\<close> and scope
  flag \<open>flag\<close> gets \<open>S{i} = raw / d * (1 - 0.28375) + 0.28375 * flag\<close>, with \<open>d = 2\<close> for
  \<open>i\<close> in 3, 5, 7, 9, \<open>d = 3\<close> for \<open>i\<close> in 1, 2, 6 and \<open>d = 4\<close> for \<open>i = 4\<close>; for \<open>i = 8\<close>
  it gets \<open>S8 = raw / 4\<close>, whatever the flag column holds and whether or not it is read.
  Without \<open>has_flag\<close> the flag is the default 1.
\<close>

theorem transform_to_mobility_formula:
  assumes j: "j < length df" "j < length old_df"
    and raw: "num (old_df ! j) column = Some raw"
    and idx: "idx_of column = Inr i" "1 \<le> i" "i \<le> 9"
    and flag: "i \<noteq> 8 \<Longrightarrow>
      (if has_flag then num (old_df ! j) (s_id_of column @ ''_Flag'') else Some 1) = Some flag"
  shows "\<exists>df'. transform_to_mobility df old_df column has_flag = Inr df' \<and>
     num (df' ! j) (m_id_of i) =
       Some (if i = 8 then raw / 4
             else raw / (if i \<in> {3, 5, 7, 9} then 2 else if i \<in> {1, 2, 6} then 3 else 4)
                    * (1 - 0.28375) + 0.28375 * flag)"
proof -
  from idx have "i \<in> {1, 2, 3, 4, 5, 6, 7, 8, 9}" by auto
  then show ?thesis using j raw flag idx(1)
    by (auto simp: transform_to_mobility_def l_i_def set_column_nth set_column_scalar_def
        series_def fadd_def fmul_def fdiv_def w_def nf_def Let_def split: if_splits)
qed

text \<open>
  The two examples of the spec: index 1 with raw 2 and flag 1 gives 0.76125; index 8 with
  raw 3 gives 0.75, with and without \<open>has_flag\<close>.
\<close>

theorem transform_to_mobility_formula_witness:
  "(\<exists>df'. transform_to_mobility raw_example raw_example COL_c1 True = Inr df' \<and>
      num (df' ! 0) ''S1'' = Some 0.76125) \<and>
   (\<exists>df'. transform_to_mobility raw_example raw_example COL_c8 False = Inr df' \<and>
      num (df' ! 0) ''S8'' = Some 0.75) \<and>
   (\<exists>df'. transform_to_mobility raw_example raw_example COL_c8 True = Inr df' \<and>
      num (df' ! 0) ''S8'' = Some 0.75)"
proof -
  have a: "num (raw_example ! 0) COL_c1 = Some 2"
    "num (raw_example ! 0) (s_id_of COL_c1 @ ''_Flag'') = Some 1"
    "num (raw_example ! 0) COL_c8 = Some 3"
    by (simp_all add: raw_example_def mk_row_def COL_c1_def COL_c8_def s_id_of_def)
  have l: "0 < length raw_example" by (simp add: raw_example_def)
  from transform_to_mobility_formula [OF l l a(1) idx_of_cols(1), of True 1] a(2)
  have 1: "\<exists>df'. transform_to_mobility raw_example raw_example COL_c1 True = Inr df' \<and>
      num (df' ! 0) ''S1'' = Some 0.76125"
    by (simp add: m_id_of_vals)
  from transform_to_mobility_formula [OF l l a(3) idx_of_cols(8), of False 0]
  have 2: "\<exists>df'. transform_to_mobility raw_example raw_example COL_c8 False = Inr df' \<and>
      num (df' ! 0) ''S8'' = Some 0.75"
    by (simp add: m_id_of_vals)
  from transform_to_mobility_formula [OF l l a(3) idx_of_cols(8), of True 0]
  have 3: "\<exists>df'. transform_to_mobility raw_example raw_example COL_c8 True = Inr df' \<and>
      num (df' ! 0) ''S8'' = Some 0.75"
    by (simp add: m_id_of_vals)
  from 1 2 3 show ?thesis by blast
qed

section \<open>What the filler writes\<close>

lemma set_pad: "set (pad v xs) \<subseteq> insert v (set xs)"
proof (induction xs arbitrary: v)
  case Nil
  then show ?case by simp
next
  case (Cons x xs)
  from Cons.IH [of v] Cons.IH [of x] show ?case by auto
qed

lemma set_replace_ffill: "set (replace_ffill xs) \<subseteq> set xs"
proof (cases xs)
  case Nil
  then show ?thesis by (simp add: replace_ffill_def)
next
  case (Cons x xs')
  with set_pad [of x xs'] show ?thesis by (auto simp: replace_ffill_Cons)
qed

lemma replace_ffill_keeps_nonzero:
  assumes "i < length xs" and "xs ! i \<noteq> Some 0"
  shows "replace_ffill xs ! i = xs ! i"
proof (cases xs)
  case Nil
  with assms show ?thesis by simp
next
  case (Cons x xs')
  then have "replace_ffill xs = pad x xs" by (simp add: replace_ffill_def)
  with pad_keeps_nonzero [OF assms, of x] show ?thesis by simp
qed

lemma replace_ffill_leading_zeros:
  assumes "i < length xs" and "\<forall>j\<le>i. xs ! j = Some 0"
  shows "replace_ffill xs ! i = Some 0"
proof (cases xs)
  case Nil
  with assms show ?thesis by simp
next
  case (Cons x xs')
  from assms(2) Cons have "x = Some 0" by auto
  with pad_leading_zeros [OF assms, of x] Cons show ?thesis by (simp add: replace_ffill_def)
qed

lemma replace_ffill_carries_last_nonzero:
  "i < length xs \<Longrightarrow> j < i \<Longrightarrow> xs ! j \<noteq> Some 0 \<Longrightarrow> \<forall>k. j < k \<and> k \<le> i \<longrightarrow> xs ! k = Some 0
   \<Longrightarrow> replace_ffill xs ! i = xs ! j"
  by (cases xs) (simp_all add: replace_ffill_def pad_carries_last_nonzero del: pad.simps)

text \<open>
  The six derived columns of a filled country satisfy their defining equations, read on
  the filled table itself.
\<close>

lemma fill_country_derived_series:
  assumes single: "set (map Country_Code rs) \<subseteq> {c}"
  defines "R \<equiv> fill_country c rs"
  shows "series ''pt'' R = map (\<lambda>x. fdiv x (Some 9)) (sum_axis1 si_cols R)"
    and "series ''Pt'' R = cumsum (series ''pt'' R)"
    and "series ''mt'' R = map (\<lambda>x. fsub (Some 1) x) (series ''pt'' R)"
    and "series ''Mt'' R = cumsum (series ''mt'' R)"
    and "series ''st'' R = map (\<lambda>x. fdiv x (Some 100)) (series ''StringencyIndex'' R)"
    and "series ''St'' R = cumsum (series ''st'' R)"
proof -
  define T where "T = foldl (\<lambda>d col. ffill_col c col d) rs fill_cols"
  define P where "P = map (\<lambda>x. fdiv x (Some 9)) (sum_axis1 si_cols T)"
  define M where "M = map (\<lambda>x. fsub (Some 1) x) P"
  define S where "S = map (\<lambda>x. fdiv x (Some 100)) (series ''StringencyIndex'' T)"
  have R: "R = set_column ''St'' (cumsum S) (set_column ''st'' S (set_column ''Mt'' (cumsum M)
      (set_column ''mt'' M (set_column ''Pt'' (cumsum P) (set_column ''pt'' P T)))))"
    unfolding R_def T_def P_def M_def S_def by (rule fill_country_single [OF single])
  have lens: "length P = length T" "length M = length T" "length S = length T"
    by (simp_all add: P_def M_def S_def)
  have lenR: "length R = length T" by (simp add: R)
  have fc: "series col R = replace_ffill (series col rs)" if "col \<in> set fill_cols" for col
    unfolding R_def using single that by (rule series_fill_country_fill_cols)
  have fT: "series col T = replace_ffill (series col rs)" if "col \<in> set fill_cols" for col
    unfolding T_def using that by (simp add: series_foldl_ffill_single [OF single])
  have cols: "series ''pt'' R = P" "series ''Pt'' R = cumsum P" "series ''mt'' R = M"
    "series ''Mt'' R = cumsum M" "series ''st'' R = S" "series ''St'' R = cumsum S"
    by (simp_all add: R series_set_column lens)
  have "sum_axis1 si_cols R = sum_axis1 si_cols T"
    using lenR by (rule sum_axis1_cong) (use si_cols_fill_cols fc fT in auto)
  then show "series ''pt'' R = map (\<lambda>x. fdiv x (Some 9)) (sum_axis1 si_cols R)"
    by (simp add: cols P_def)
  show "series ''Pt'' R = cumsum (series ''pt'' R)" by (simp add: cols)
  show "series ''mt'' R = map (\<lambda>x. fsub (Some 1) x) (series ''pt'' R)" by (simp add: cols M_def)
  show "series ''Mt'' R = cumsum (series ''mt'' R)" by (simp add: cols)
  show "series ''st'' R = map (\<lambda>x. fdiv x (Some 100)) (series ''StringencyIndex'' R)"
    by (simp add: cols S_def fc fT fill_cols_def)
  show "series ''St'' R = cumsum (series ''st'' R)" by (simp add: cols)
qed

lemma single_loc_country [simp]: "set (map Country_Code (loc_country c df)) \<subseteq> {c}"
  by (auto simp: loc_country_def)

lemma cumsum_from_numbers:
  "i < length vs \<Longrightarrow> cumsum_from acc (map Some vs) ! i = Some (acc + (\<Sum>j\<le>i. vs ! j))"
proof (induction vs arbitrary: acc i)
  case Nil
  then show ?case by simp
next
  case (Cons v vs)
  show ?case
  proof (cases i)
    case 0
    then show ?thesis by simp
  next
    case (Suc i')
    with Cons.prems have "i' < length vs" by simp
    from Cons.IH [OF this, of "acc + v"] Suc show ?thesis
      by (simp add: sum.atMost_Suc_shift add.assoc del: sum.atMost_Suc)
  qed
qed

lemma cumsum_numbers:
  "i < length vs \<Longrightarrow> cumsum (map Some vs) ! i = Some (\<Sum>j\<le>i. vs ! j)"
  by (simp add: cumsum_def cumsum_from_numbers)

lemma series_nth: "i < length df \<Longrightarrow> series col df ! i = num (df ! i) col"
  by (simp add: series_def)

lemma series_numbers:
  "\<forall>r\<in>set df. num r col \<noteq> None \<Longrightarrow> series col df = map Some (map (\<lambda>r. the (num r col)) df)"
  by (induction df) (auto simp: series_def)

lemma length_fill_country [simp]: "length (fill_country c rs) = length rs"
  using map_Country_Code_fill_country [of c rs] by (metis length_map)

text \<open>
  C2: for each country on its own, in each of the thirteen columns \<open>S1..S9\<close>,
  \<open>ConfirmedCases\<close>, \<open>ConfirmedDeaths\<close>, \<open>Recovered\<close> and \<open>StringencyIndex\<close>, the filler keeps
  every value that is not zero, replaces a zero by the most recent value before it that is
  not zero, and leaves a zero with only zeros before it at zero; a column of zeros stays a
  column of zeros. Here \<open>xs\<close> is the column of the country before and \<open>ys\<close> after.
\<close>

theorem forward_fill_per_country:
  fixes c :: string and df :: dataframe
  assumes "col \<in> set fill_cols"
  defines "xs \<equiv> series col (loc_country c df)"
  defines "ys \<equiv> series col (loc_country c (fill_missing_values df))"
  shows "length ys = length xs \<and>
    (\<forall>i<length xs. xs ! i \<noteq> Some 0 \<longrightarrow> ys ! i = xs ! i) \<and>
    (\<forall>i<length xs. \<forall>j<i. xs ! j \<noteq> Some 0 \<and> (\<forall>k. j < k \<and> k \<le> i \<longrightarrow> xs ! k = Some 0)
        \<longrightarrow> ys ! i = xs ! j) \<and>
    (\<forall>i<length xs. (\<forall>j\<le>i. xs ! j = Some 0) \<longrightarrow> ys ! i = Some 0) \<and>
    ((\<forall>x\<in>set xs. x = Some 0) \<longrightarrow> (\<forall>y\<in>set ys. y = Some 0))"
proof -
  have ys: "ys = replace_ffill xs"
    unfolding ys_def xs_def loc_country_fill_missing_values
    using single_loc_country assms(1) by (rule series_fill_country_fill_cols)
  have "\<forall>y\<in>set ys. y = Some 0" if "\<forall>x\<in>set xs. x = Some 0"
    using that set_replace_ffill [of xs] unfolding ys by blast
  then show ?thesis
    unfolding ys
    by (simp add: replace_ffill_keeps_nonzero replace_ffill_leading_zeros
        replace_ffill_carries_last_nonzero)
qed

theorem forward_fill_per_country_witness:
  "''S1'' \<in> set fill_cols \<and>
   series ''S1'' (loc_country ''X'' table_example) = [Some 0, Some (1 / 2), Some 0, Some 0, Some 1] \<and>
   length (series ''S1'' (loc_country ''X'' (fill_missing_values table_example))) = 5 \<and>
   series ''S1'' (loc_country ''X'' (fill_missing_values table_example)) ! 0 = Some 0 \<and>
   series ''S1'' (loc_country ''X'' (fill_missing_values table_example)) ! 1 = Some (1 / 2) \<and>
   series ''S1'' (loc_country ''X'' (fill_missing_values table_example)) ! 2 = Some (1 / 2) \<and>
   series ''S1'' (loc_country ''X'' (fill_missing_values table_example)) ! 3 = Some (1 / 2) \<and>
   series ''S1'' (loc_country ''X'' (fill_missing_values table_example)) ! 4 = Some 1"
proof -
  define xs where "xs = series ''S1'' (loc_country ''X'' table_example)"
  define ys where "ys = series ''S1'' (loc_country ''X'' (fill_missing_values table_example))"
  have h: "''S1'' \<in> set fill_cols" by (simp add: fill_cols_def si_cols_def)
  have xs: "xs = [Some 0, Some (1 / 2), Some 0, Some 0, Some 1]"
    by (simp add: xs_def table_example_def mk_row0_def loc_country_def series_def)
  note t = forward_fill_per_country [OF h, of "''X''" table_example, folded xs_def ys_def]
  from t have len: "length ys = length xs"
    and keep: "\<forall>i<length xs. xs ! i \<noteq> Some 0 \<longrightarrow> ys ! i = xs ! i"
    and carry: "\<forall>i<length xs. \<forall>j<i. xs ! j \<noteq> Some 0 \<and> (\<forall>k. j < k \<and> k \<le> i \<longrightarrow> xs ! k = Some 0)
        \<longrightarrow> ys ! i = xs ! j"
    and lead: "\<forall>i<length xs. (\<forall>j\<le>i. xs ! j = Some 0) \<longrightarrow> ys ! i = Some 0"
    by blast+
  from lead [rule_format, of 0] have y0: "ys ! 0 = Some 0" by (simp add: xs)
  from keep [rule_format, of 1] have y1: "ys ! 1 = Some (1 / 2)" by (simp add: xs)
  have z2: "\<forall>k. (1::nat) < k \<and> k \<le> 2 \<longrightarrow> xs ! k = Some 0"
    by (auto simp: xs nth_Cons' ) 
  from carry [rule_format, of 2 1] z2 have y2: "ys ! 2 = Some (1 / 2)" by (simp add: xs)
  have z3: "\<forall>k. (1::nat) < k \<and> k \<le> 3 \<longrightarrow> xs ! k = Some 0"
    by (auto simp: xs nth_Cons')
  from carry [rule_format, of 3 1] z3 have y3: "ys ! 3 = Some (1 / 2)" by (simp add: xs)
  from keep [rule_format, of 4] have y4: "ys ! 4 = Some 1" by (simp add: xs)
  from h xs len y0 y1 y2 y3 y4 show ?thesis unfolding xs_def ys_def by simp
qed

lemma replace_ffill_numbers:
  "None \<notin> set xs \<Longrightarrow> None \<notin> set (replace_ffill xs)"
  using set_replace_ffill [of xs] by blast

lemma series_no_nan:
  "\<forall>r\<in>set df. num r col \<noteq> None \<Longrightarrow> None \<notin> set (series col df)"
  by (auto simp: series_def)

lemma sum_axis1_nth:
  "i < length df \<Longrightarrow>
   sum_axis1 cols df ! i = Some (\<Sum>col\<leftarrow>cols. nan_as_zero (num (df ! i) col))"
  by (simp add: sum_axis1_def)

lemma nan_as_zero_the: "a \<noteq> None \<Longrightarrow> nan_as_zero a = the a"
  by (cases a) (simp_all add: nan_as_zero_def)

lemma cumsum_nth_numbers:
  assumes "None \<notin> set xs" and "i < length xs"
  shows "cumsum xs ! i = Some (\<Sum>j\<le>i. the (xs ! j))"
proof -
  define vs where "vs = map the xs"
  from assms(1) have xs: "xs = map Some vs"
    unfolding vs_def by (induction xs) auto
  from assms(2) have i: "i < length vs" by (simp add: vs_def)
  have "(\<Sum>j\<le>i. vs ! j) = (\<Sum>j\<le>i. the (xs ! j))"
    using assms(2) by (intro sum.cong) (simp_all add: vs_def)
  with cumsum_numbers [OF i] show ?thesis unfolding xs [symmetric] by simp
qed

text \<open>
  The six derived cells of a row of a filled country, for a country whose rows have numbers
  in \<open>S1..S9\<close> and \<open>StringencyIndex\<close>.
\<close>

lemma derived_cells:
  fixes c :: string and df :: dataframe
  assumes nums: "\<forall>r\<in>set (loc_country c df). \<forall>col\<in>set (''StringencyIndex'' # si_cols).
      num r col \<noteq> None"
  defines "out \<equiv> loc_country c (fill_missing_values df)"
  assumes i: "i < length out"
  shows "(\<forall>col\<in>set (''StringencyIndex'' # si_cols). num (out ! i) col \<noteq> None) \<and>
    num (out ! i) ''pt'' = Some ((\<Sum>col\<leftarrow>si_cols. the (num (out ! i) col)) / 9) \<and>
    num (out ! i) ''mt'' = Some (1 - the (num (out ! i) ''pt'')) \<and>
    num (out ! i) ''st'' = Some (the (num (out ! i) ''StringencyIndex'') / 100) \<and>
    num (out ! i) ''Pt'' = Some (\<Sum>j\<le>i. the (num (out ! j) ''pt'')) \<and>
    num (out ! i) ''Mt'' = Some (\<Sum>j\<le>i. the (num (out ! j) ''mt'')) \<and>
    num (out ! i) ''St'' = Some (\<Sum>j\<le>i. the (num (out ! j) ''st''))"
proof -
  define rs where "rs = loc_country c df"
  have single: "set (map Country_Code rs) \<subseteq> {c}"
    unfolding rs_def by (rule single_loc_country)
  have out: "out = fill_country c rs"
    by (simp add: out_def rs_def loc_country_fill_missing_values)
  note d = fill_country_derived_series [OF single, folded out]
  have fc: "series col out = replace_ffill (series col rs)" if "col \<in> set fill_cols" for col
    unfolding out using single that by (rule series_fill_country_fill_cols)
  have sub: "set (''StringencyIndex'' # si_cols) \<subseteq> set fill_cols"
    by (auto simp: fill_cols_def)
  have nn: "None \<notin> set (series col out)" if "col \<in> set (''StringencyIndex'' # si_cols)" for col
  proof -
    from nums that have "None \<notin> set (series col rs)"
      unfolding rs_def by (intro series_no_nan) blast
    moreover from sub that have "col \<in> set fill_cols" by blast
    ultimately show ?thesis by (simp add: fc replace_ffill_numbers)
  qed
  have n: "num (out ! j) col \<noteq> None"
    if "col \<in> set (''StringencyIndex'' # si_cols)" "j < length out" for col j
  proof -
    from that(2) have "series col out ! j \<in> set (series col out)" by simp
    with nn [OF that(1)] that(2) show ?thesis by (metis series_nth)
  qed
  have pt: "num (out ! j) ''pt'' = Some ((\<Sum>col\<leftarrow>si_cols. the (num (out ! j) col)) / 9)"
    if "j < length out" for j
  proof -
    have "map (\<lambda>col. nan_as_zero (num (out ! j) col)) si_cols
        = map (\<lambda>col. the (num (out ! j) col)) si_cols"
      using n [of _ j] that by (intro map_cong) (simp_all add: nan_as_zero_the)
    then have "(\<Sum>col\<leftarrow>si_cols. nan_as_zero (num (out ! j) col))
        = (\<Sum>col\<leftarrow>si_cols. the (num (out ! j) col))" by (rule arg_cong)
    moreover have "num (out ! j) ''pt'' = series ''pt'' out ! j" using that by (simp add: series_nth)
    ultimately show ?thesis using that by (simp add: d(1) sum_axis1_nth fdiv_def)
  qed
  have mt: "num (out ! j) ''mt'' = Some (1 - the (num (out ! j) ''pt''))" if "j < length out" for j
  proof -
    have "num (out ! j) ''mt'' = series ''mt'' out ! j" using that by (simp add: series_nth)
    also have "\<dots> = fsub (Some 1) (num (out ! j) ''pt'')"
      using that by (simp add: d(3) series_nth)
    finally show ?thesis using pt [OF that] by (simp add: fsub_def)
  qed
  have st: "num (out ! j) ''st'' = Some (the (num (out ! j) ''StringencyIndex'') / 100)"
    if "j < length out" for j
  proof -
    have "num (out ! j) ''st'' = series ''st'' out ! j" using that by (simp add: series_nth)
    also have "\<dots> = fdiv (num (out ! j) ''StringencyIndex'') (Some 100)"
      using that by (simp add: d(5) series_nth)
    finally show ?thesis using n [of "''StringencyIndex''" j] that by (auto simp: fdiv_def)
  qed
  have nn2: "None \<notin> set (series ''pt'' out)" "None \<notin> set (series ''mt'' out)"
    "None \<notin> set (series ''st'' out)"
    using pt mt st by (auto simp: series_def in_set_conv_nth)
  have cs: "num (out ! i) A = Some (\<Sum>j\<le>i. the (num (out ! j) B))"
    if "series A out = cumsum (series B out)" "None \<notin> set (series B out)" for A B
  proof -
    have "num (out ! i) A = cumsum (series B out) ! i" using i that(1) by (metis series_nth)
    also have "\<dots> = Some (\<Sum>j\<le>i. the (series B out ! j))"
      using that(2) i by (simp add: cumsum_nth_numbers)
    also have "(\<Sum>j\<le>i. the (series B out ! j)) = (\<Sum>j\<le>i. the (num (out ! j) B))"
      using i by (intro sum.cong) (simp_all add: series_nth)
    finally show ?thesis .
  qed
  from n [of _ i] i pt [OF i] mt [OF i] st [OF i] cs [OF d(2) nn2(1)] cs [OF d(4) nn2(2)]
    cs [OF d(6) nn2(3)]
  show ?thesis by blast
qed

text \<open>
  C3: on every row of a country, after the filling, \<open>pt\<close> is the sum of \<open>S1..S9\<close> divided
  by 9, \<open>mt\<close> is \<open>1 - pt\<close>, \<open>st\<close> is \<open>StringencyIndex / 100\<close>, and \<open>Pt\<close>, \<open>Mt\<close>, \<open>St\<close> are the sums
  of \<open>pt\<close>, \<open>mt\<close>, \<open>st\<close> over the rows of that country up to and including this one. The
  country's rows of the input have numbers in \<open>S1..S9\<close> and \<open>StringencyIndex\<close>, as
  \<^verbatim>\<open>extend_data\<close> leaves them.
\<close>

theorem derived_columns_per_country:
  fixes c :: string and df :: dataframe
  assumes nums: "\<forall>r\<in>set (loc_country c df). \<forall>col\<in>set (''StringencyIndex'' # si_cols).
      num r col \<noteq> None"
  defines "out \<equiv> loc_country c (fill_missing_values df)"
  assumes i: "i < length out"
  shows "(\<forall>col\<in>set (''StringencyIndex'' # si_cols). num (out ! i) col \<noteq> None) \<and>
    num (out ! i) ''pt'' = Some ((\<Sum>col\<leftarrow>si_cols. the (num (out ! i) col)) / 9) \<and>
    num (out ! i) ''mt'' = Some (1 - the (num (out ! i) ''pt'')) \<and>
    num (out ! i) ''st'' = Some (the (num (out ! i) ''StringencyIndex'') / 100) \<and>
    num (out ! i) ''Pt'' = Some (\<Sum>j\<le>i. the (num (out ! j) ''pt'')) \<and>
    num (out ! i) ''Mt'' = Some (\<Sum>j\<le>i. the (num (out ! j) ''mt'')) \<and>
    num (out ! i) ''St'' = Some (\<Sum>j\<le>i. the (num (out ! j) ''st''))"
  using nums i unfolding out_def by (rule derived_cells)

lemma num_mk_row0: "num (mk_row0 c d kvs) col \<noteq> None"
  by (simp add: mk_row0_def split: option.splits)

lemma num_mk_row0_eq:
  "num (mk_row0 c d kvs) col = (case map_of kvs col of None \<Rightarrow> Some 0 | Some v \<Rightarrow> Some v)"
  by (simp add: mk_row0_def)

lemma length_loc_country_fill_missing_values [simp]:
  "length (loc_country c (fill_missing_values df)) = length (loc_country c df)"
  by (simp add: loc_country_fill_missing_values)

lemma series_fill_missing_values:
  "col \<in> set fill_cols \<Longrightarrow>
   series col (loc_country c (fill_missing_values df)) = replace_ffill (series col (loc_country c df))"
  unfolding loc_country_fill_missing_values
  using single_loc_country by (rule series_fill_country_fill_cols)

text \<open>The rows of country \<open>X\<close> in the example table, and its columns before and after the filling.\<close>

lemma loc_country_X_table_example:
  "loc_country ''X'' table_example =
    [mk_row0 ''X'' 18290 [(''ConfirmedCases'', 0), (''S1'', 0), (''StringencyIndex'', 0)],
     mk_row0 ''X'' 18291 [(''ConfirmedCases'', 0), (''S1'', 1 / 2), (''StringencyIndex'', 40)],
     mk_row0 ''X'' 18292 [(''ConfirmedCases'', 5), (''S1'', 0), (''StringencyIndex'', 0)],
     mk_row0 ''X'' 18293 [(''ConfirmedCases'', 5), (''S1'', 0), (''StringencyIndex'', 0)],
     mk_row0 ''X'' 18294 [(''ConfirmedCases'', 12), (''S1'', 1), (''StringencyIndex'', 60)]]"
  by (simp add: table_example_def loc_country_def mk_row0_def)

lemma table_example_X:
  "series ''S1'' (loc_country ''X'' table_example) = [Some 0, Some (1 / 2), Some 0, Some 0, Some 1]"
  "col \<in> set [''S2'', ''S3'', ''S4'', ''S5'', ''S6'', ''S7'', ''S8'', ''S9''] \<Longrightarrow>
     series col (loc_country ''X'' table_example) = [Some 0, Some 0, Some 0, Some 0, Some 0]"
  "series ''StringencyIndex'' (loc_country ''X'' table_example)
     = [Some 0, Some 40, Some 0, Some 0, Some 60]"
  "series ''ConfirmedCases'' (loc_country ''X'' table_example)
     = [Some 0, Some 0, Some 5, Some 5, Some 12]"
  by (auto simp: loc_country_X_table_example series_def num_mk_row0_eq)

lemma table_example_X_filled:
  "series ''S1'' (loc_country ''X'' (fill_missing_values table_example))
     = [Some 0, Some (1 / 2), Some (1 / 2), Some (1 / 2), Some 1]"
  "col \<in> set [''S2'', ''S3'', ''S4'', ''S5'', ''S6'', ''S7'', ''S8'', ''S9''] \<Longrightarrow>
     series col (loc_country ''X'' (fill_missing_values table_example))
       = [Some 0, Some 0, Some 0, Some 0, Some 0]"
  "series ''StringencyIndex'' (loc_country ''X'' (fill_missing_values table_example))
     = [Some 0, Some 40, Some 40, Some 40, Some 60]"
  "series ''ConfirmedCases'' (loc_country ''X'' (fill_missing_values table_example))
     = [Some 0, Some 0, Some 5, Some 5, Some 12]"
proof -
  show "series ''S1'' (loc_country ''X'' (fill_missing_values table_example))
     = [Some 0, Some (1 / 2), Some (1 / 2), Some (1 / 2), Some 1]"
    by (simp add: series_fill_missing_values fill_cols_def si_cols_def table_example_X(1)
        replace_ffill_def)
  show "series ''StringencyIndex'' (loc_country ''X'' (fill_missing_values table_example))
     = [Some 0, Some 40, Some 40, Some 40, Some 60]"
    by (simp add: series_fill_missing_values fill_cols_def si_cols_def table_example_X(3)
        replace_ffill_def)
  show "series ''ConfirmedCases'' (loc_country ''X'' (fill_missing_values table_example))
     = [Some 0, Some 0, Some 5, Some 5, Some 12]"
    by (simp add: series_fill_missing_values fill_cols_def si_cols_def table_example_X(4)
        replace_ffill_def)
  assume c: "col \<in> set [''S2'', ''S3'', ''S4'', ''S5'', ''S6'', ''S7'', ''S8'', ''S9'']"
  then have "col \<in> set fill_cols" by (auto simp: fill_cols_def si_cols_def)
  then show "series col (loc_country ''X'' (fill_missing_values table_example))
       = [Some 0, Some 0, Some 0, Some 0, Some 0]"
    by (simp add: series_fill_missing_values table_example_X(2) [OF c] replace_ffill_def)
qed

theorem derived_columns_per_country_witness:
  "length (loc_country ''X'' (fill_missing_values table_example)) = 5 \<and>
   num (loc_country ''X'' (fill_missing_values table_example) ! 1) ''pt'' = Some (1 / 18) \<and>
   num (loc_country ''X'' (fill_missing_values table_example) ! 1) ''mt'' = Some (17 / 18) \<and>
   num (loc_country ''X'' (fill_missing_values table_example) ! 1) ''st'' = Some (2 / 5) \<and>
   num (loc_country ''X'' (fill_missing_values table_example) ! 1) ''Pt'' = Some (1 / 18) \<and>
   num (loc_country ''X'' (fill_missing_values table_example) ! 1) ''Mt'' = Some (35 / 18) \<and>
   num (loc_country ''X'' (fill_missing_values table_example) ! 1) ''St'' = Some (2 / 5)"
proof -
  define out where "out = loc_country ''X'' (fill_missing_values table_example)"
  have len: "length out = 5"
    by (simp add: out_def loc_country_X_table_example)
  have h: "\<forall>r\<in>set (loc_country ''X'' table_example). \<forall>col\<in>set (''StringencyIndex'' # si_cols).
      num r col \<noteq> None"
    by (simp add: loc_country_X_table_example num_mk_row0 del: not_None_eq)
  note f = table_example_X_filled [folded out_def]
  have c0: "num (out ! 0) col = series col out ! 0" for col
    using len by (simp add: series_nth)
  have c1: "num (out ! 1) col = series col out ! 1" for col
    using len by (simp add: series_nth)
  have s0: "(\<Sum>col\<leftarrow>si_cols. the (num (out ! 0) col)) = 0"
    unfolding c0 by (simp add: si_cols_def f)
  have s1: "(\<Sum>col\<leftarrow>si_cols. the (num (out ! 1) col)) = 1 / 2"
    unfolding c1 by (simp add: si_cols_def f)
  have i0: "0 < length out" and i1: "1 < length out" using len by simp_all
  note t0 = derived_columns_per_country [OF h, of 0, folded out_def, OF i0]
  note t1 = derived_columns_per_country [OF h, of 1, folded out_def, OF i1]
  from t0 have "num (out ! 0) ''pt'' = Some ((\<Sum>col\<leftarrow>si_cols. the (num (out ! 0) col)) / 9)"
    by (rule conjunct1 [OF conjunct2])
  then have p0: "num (out ! 0) ''pt'' = Some 0" by (simp only: s0) simp
  from t1 have "num (out ! 1) ''pt'' = Some ((\<Sum>col\<leftarrow>si_cols. the (num (out ! 1) col)) / 9)"
    by (rule conjunct1 [OF conjunct2])
  then have p1: "num (out ! 1) ''pt'' = Some (1 / 18)" by (simp only: s1) simp
  from t0 have "num (out ! 0) ''mt'' = Some (1 - the (num (out ! 0) ''pt''))"
    by (rule conjunct1 [OF conjunct2 [OF conjunct2]])
  then have m0: "num (out ! 0) ''mt'' = Some 1" using p0 by simp
  from t1 have "num (out ! 1) ''mt'' = Some (1 - the (num (out ! 1) ''pt''))"
    by (rule conjunct1 [OF conjunct2 [OF conjunct2]])
  then have m1: "num (out ! 1) ''mt'' = Some (17 / 18)" using p1 by simp
  from t0 have "num (out ! 0) ''st'' = Some (the (num (out ! 0) ''StringencyIndex'') / 100)"
    by (rule conjunct1 [OF conjunct2 [OF conjunct2 [OF conjunct2]]])
  then have st0: "num (out ! 0) ''st'' = Some 0" unfolding c0 f(3) by simp
  from t1 have "num (out ! 1) ''st'' = Some (the (num (out ! 1) ''StringencyIndex'') / 100)"
    by (rule conjunct1 [OF conjunct2 [OF conjunct2 [OF conjunct2]]])
  then have st1: "num (out ! 1) ''st'' = Some (2 / 5)" unfolding c1 f(3) by simp
  have two: "{..Suc 0} = {0, Suc 0}" by auto
  from t1 have "num (out ! 1) ''Pt'' = Some (\<Sum>j\<le>1. the (num (out ! j) ''pt''))"
    by (rule conjunct1 [OF conjunct2 [OF conjunct2 [OF conjunct2 [OF conjunct2]]]])
  then have P1: "num (out ! 1) ''Pt'' = Some (1 / 18)" using p0 p1 by (simp add: two)
  from t1 have "num (out ! 1) ''Mt'' = Some (\<Sum>j\<le>1. the (num (out ! j) ''mt''))"
    by (rule conjunct1 [OF conjunct2 [OF conjunct2 [OF conjunct2 [OF conjunct2 [OF conjunct2]]]]])
  then have M1: "num (out ! 1) ''Mt'' = Some (35 / 18)" using m0 m1 by (simp add: two)
  from t1 have "num (out ! 1) ''St'' = Some (\<Sum>j\<le>1. the (num (out ! j) ''st''))"
    by (rule conjunct2 [OF conjunct2 [OF conjunct2 [OF conjunct2 [OF conjunct2 [OF conjunct2]]]]])
  then have S1: "num (out ! 1) ''St'' = Some (2 / 5)" using st0 st1 by (simp add: two)
  from len p1 m1 st1 P1 M1 S1 show ?thesis unfolding out_def by blast
qed

section \<open>The feature synthesizer, row by row and country by country\<close>

lemma map2_map_map: "map2 f (map g xs) (map h xs) = map (\<lambda>x. f (g x) (h x)) xs"
  by (induction xs) simp_all

lemma set_column_rowwise2:
  "set_column X (map2 f (series A d) (series B d)) d
     = map (\<lambda>r. col_set X (f (num r A) (num r B)) r) d"
  by (simp add: series_def map2_map_map set_column_map)

lemma set_column_rowwise3:
  "set_column X (map2 f (map2 g (series A d) (series B d)) (series C d)) d
     = map (\<lambda>r. col_set X (f (g (num r A) (num r B)) (num r C)) r) d"
  by (simp add: series_def map2_map_map set_column_map)

lemma create_features_rowwise:
  "create_features df =
     map features_fillna_row
       (foldl (\<lambda>d c. features_country c d) (map features_init_row df)
          (unique (map Country_Code df)))"
proof -
  have init: "map features_init_row df =
    set_column_scalar ''DaysCountFromFirstCase'' (Some 0)
     (set_column_scalar ''DailyActive'' (Some 0)
      (set_column_scalar ''DailyRecovered'' (Some 0)
       (set_column_scalar ''DailyConfirmedDeaths'' (Some 0)
        (set_column_scalar ''DailyConfirmedCases'' (Some 0)
         (map (\<lambda>r. col_set ''RelativeActive'' (fdiv (num r ''Active'') (num r ''Population'')) r)
          (map (\<lambda>r. col_set ''RelativeRecovered'' (fdiv (num r ''Recovered'') (num r ''Population'')) r)
           (map (\<lambda>r. col_set ''RelativeConfirmedDeaths''
                   (fdiv (num r ''ConfirmedDeaths'') (num r ''Population'')) r)
            (map (\<lambda>r. col_set ''RelativeConfirmedCases''
                    (fdiv (num r ''ConfirmedCases'') (num r ''Population'')) r)
             (map (\<lambda>r. col_set ''Active''
                     (fsub (fsub (num r ''ConfirmedCases'') (num r ''ConfirmedDeaths''))
                        (num r ''Recovered'')) r) df)))))))))"
    by (simp add: set_column_scalar_def features_init_row_def Let_def o_def)
  have cc: "map Country_Code (map features_init_row df) = map Country_Code df"
    by (simp add: features_init_row_def Let_def o_def)
  have fin: "map features_fillna_row d =
    fillna_col ''DailyActive'' (fillna_col ''DailyRecovered''
      (fillna_col ''DailyConfirmedDeaths'' (fillna_col ''DailyConfirmedCases'' d)))" for d
    by (simp add: fillna_col_def features_fillna_row_def Let_def o_def)
  show ?thesis
    unfolding create_features_def Let_def set_column_rowwise2 set_column_rowwise3
      init [symmetric] fin [symmetric] cc ..
qed

lemma Country_Code_features_init_row [simp]:
  "Country_Code (features_init_row r) = Country_Code r"
  by (simp add: features_init_row_def Let_def)

lemma DateTime_features_init_row [simp]: "DateTime (features_init_row r) = DateTime r"
  by (simp add: features_init_row_def Let_def)

lemma Country_Code_features_fillna_row [simp]:
  "Country_Code (features_fillna_row r) = Country_Code r"
  by (simp add: features_fillna_row_def Let_def)

lemma DateTime_features_fillna_row [simp]: "DateTime (features_fillna_row r) = DateTime r"
  by (simp add: features_fillna_row_def Let_def)

lemma loc_country_map:
  "(\<And>r. Country_Code (h r) = Country_Code r) \<Longrightarrow>
   loc_country c (map h df) = map h (loc_country c df)"
  by (induction df) (simp_all add: loc_country_def)

lemma filter_country_loc_assign_positive:
  "filter (\<lambda>r. Country_Code r = c)
     (loc_assign (\<lambda>r. Country_Code r = c \<and> cases_positive r) col vs df)
   = loc_assign (\<lambda>r. Country_Code r = c \<and> cases_positive r) col vs
       (filter (\<lambda>r. Country_Code r = c) df)"
  by (rule filter_loc_assign_inside) simp_all

lemma filter_other_loc_assign_positive:
  "c' \<noteq> c \<Longrightarrow>
   filter (\<lambda>r. Country_Code r = c')
     (loc_assign (\<lambda>r. Country_Code r = c \<and> cases_positive r) col vs df)
   = filter (\<lambda>r. Country_Code r = c') df"
  by (rule filter_loc_assign_outside) simp_all

lemma filter_country_loc_assign:
  "filter (\<lambda>r. Country_Code r = c) (loc_assign (\<lambda>r. Country_Code r = c) col vs df)
   = loc_assign (\<lambda>r. Country_Code r = c) col vs (filter (\<lambda>r. Country_Code r = c) df)"
  by (rule filter_loc_assign_inside) simp_all

lemma filter_other_loc_assign:
  "c' \<noteq> c \<Longrightarrow>
   filter (\<lambda>r. Country_Code r = c') (loc_assign (\<lambda>r. Country_Code r = c) col vs df)
   = filter (\<lambda>r. Country_Code r = c') df"
  by (rule filter_loc_assign_outside) simp_all

lemma filter_positive_country:
  "filter (\<lambda>r. Country_Code r = c \<and> cases_positive r) (filter (\<lambda>r. Country_Code r = c) df)
   = filter (\<lambda>r. Country_Code r = c \<and> cases_positive r) df"
  by (induction df) simp_all

lemma filter_country_twice:
  "filter (\<lambda>r. Country_Code r = c) (filter (\<lambda>r. Country_Code r = c) df)
   = filter (\<lambda>r. Country_Code r = c) df"
  by simp

lemma loc_country_features_country_same:
  "loc_country c (features_country c df) = features_country c (loc_country c df)"
  unfolding loc_country_def features_country_def Let_def
  by (simp only: filter_country_loc_assign filter_country_loc_assign_positive
      filter_positive_country filter_country_twice)

lemma loc_country_features_country_other:
  assumes "c' \<noteq> c"
  shows "loc_country c' (features_country c df) = loc_country c' df"
  unfolding loc_country_def features_country_def Let_def
  by (simp only: filter_other_loc_assign [OF assms] filter_other_loc_assign_positive [OF assms])

lemma map_Country_Code_features_country [simp]:
  "map Country_Code (features_country c df) = map Country_Code df"
  by (simp add: features_country_def Let_def)

lemma map_DateTime_features_country [simp]:
  "map DateTime (features_country c df) = map DateTime df"
  by (simp add: features_country_def Let_def)

lemma features_country_Nil [simp]: "features_country c [] = []"
  by (simp add: features_country_def Let_def)

lemma loc_country_foldl_features_country:
  "distinct cs \<Longrightarrow>
   loc_country c (foldl (\<lambda>d c. features_country c d) df cs)
     = (if c \<in> set cs then features_country c (loc_country c df) else loc_country c df)"
proof (induction cs arbitrary: df)
  case Nil
  then show ?case by simp
next
  case (Cons a cs)
  show ?case
  proof (cases "c = a")
    case True
    with Cons show ?thesis by (simp add: loc_country_features_country_same)
  next
    case False
    with Cons show ?thesis by (simp add: loc_country_features_country_other)
  qed
qed

text \<open>The rows of one country after \<^verbatim>\<open>create_features\<close>, from its rows before.\<close>

lemma loc_country_create_features:
  "loc_country c (create_features df)
     = map features_fillna_row (features_country c (map features_init_row (loc_country c df)))"
proof -
  define d where "d = map features_init_row df"
  have cc: "map Country_Code d = map Country_Code df" by (simp add: d_def)
  have "loc_country c (foldl (\<lambda>d c. features_country c d) d (unique (map Country_Code df)))
      = features_country c (loc_country c d)"
  proof (cases "c \<in> set (map Country_Code df)")
    case True
    then show ?thesis by (simp add: loc_country_foldl_features_country)
  next
    case False
    with cc have "loc_country c d = []" by (metis loc_country_empty)
    with False show ?thesis by (simp add: loc_country_foldl_features_country)
  qed
  then show ?thesis
    by (simp add: create_features_rowwise loc_country_map d_def)
qed

lemma map_Country_Code_foldl_features_country [simp]:
  "map Country_Code (foldl (\<lambda>d c. features_country c d) d cs) = map Country_Code d"
  by (induction cs arbitrary: d) simp_all

lemma map_DateTime_foldl_features_country [simp]:
  "map DateTime (foldl (\<lambda>d c. features_country c d) d cs) = map DateTime d"
  by (induction cs arbitrary: d) simp_all

lemma map_Country_Code_create_features [simp]:
  "map Country_Code (create_features df) = map Country_Code df"
proof -
  have a: "map Country_Code (map features_fillna_row d) = map Country_Code d" for d
    by (simp add: o_def)
  have b: "map Country_Code (map features_init_row d) = map Country_Code d" for d
    by (simp add: o_def)
  show ?thesis unfolding create_features_rowwise a by (simp only: map_Country_Code_foldl_features_country b)
qed

lemma map_DateTime_create_features [simp]:
  "map DateTime (create_features df) = map DateTime df"
proof -
  have a: "map DateTime (map features_fillna_row d) = map DateTime d" for d
    by (simp add: o_def)
  have b: "map DateTime (map features_init_row d) = map DateTime d" for d
    by (simp add: o_def)
  show ?thesis unfolding create_features_rowwise a by (simp only: map_DateTime_foldl_features_country b)
qed

lemma loc_country_create_features_commute:
  "loc_country c (create_features df) = create_features (loc_country c df)"
proof -
  have "set (map Country_Code (create_features (loc_country c df))) \<subseteq> {c}"
    unfolding map_Country_Code_create_features by (rule single_loc_country)
  then have "loc_country c (create_features (loc_country c df))
      = create_features (loc_country c df)"
    by (rule loc_country_single)
  then show ?thesis
    by (simp add: loc_country_create_features [of c df]
        loc_country_create_features [of c "loc_country c df"])
qed

section \<open>The feature synthesizer on the rows of one country\<close>

lemma length_diff [simp]: "length (diff xs) = length xs"
  by (cases xs) (simp_all add: diff_def)

lemma series_loc_assign_other:
  "col' \<noteq> col \<Longrightarrow> series col' (loc_assign m col vs d) = series col' d"
  by (induction d arbitrary: vs) (auto simp: series_def split: list.splits)

lemma series_map_rows: "series col (map h d) = map (\<lambda>r. num (h r) col) d"
  by (simp add: series_def)

lemma features_country_single:
  assumes single: "set (map Country_Code rs) \<subseteq> {c}"
  defines "D1 \<equiv> loc_assign (\<lambda>r. Country_Code r = c \<and> cases_positive r) ''DaysCountFromFirstCase''
      (days_count (map DateTime (filter (\<lambda>r. Country_Code r = c \<and> cases_positive r) rs))) rs"
  shows "features_country c rs =
    set_column ''DailyActive'' (diff (series ''Active'' rs))
     (set_column ''DailyRecovered'' (diff (series ''Recovered'' rs))
      (set_column ''DailyConfirmedDeaths'' (diff (series ''ConfirmedDeaths'' rs))
       (set_column ''DailyConfirmedCases'' (diff (series ''ConfirmedCases'' rs)) D1)))"
proof -
  have f: "filter (\<lambda>r. Country_Code r = c) d = d" if "set (map Country_Code d) \<subseteq> {c}" for d :: dataframe
    using loc_country_single [OF that] by (simp add: loc_country_def)
  have s1: "set (map Country_Code D1) \<subseteq> {c}" using single by (simp add: D1_def)
  define D2 where "D2 = set_column ''DailyConfirmedCases'' (diff (series ''ConfirmedCases'' rs)) D1"
  define D3 where "D3 = set_column ''DailyConfirmedDeaths'' (diff (series ''ConfirmedDeaths'' rs)) D2"
  define D4 where "D4 = set_column ''DailyRecovered'' (diff (series ''Recovered'' rs)) D3"
  have l1: "length D1 = length rs" by (simp add: D1_def)
  have s2: "set (map Country_Code D2) \<subseteq> {c}" using s1 by (simp add: D2_def)
  have s3: "set (map Country_Code D3) \<subseteq> {c}" using s2 by (simp add: D3_def)
  have s4: "set (map Country_Code D4) \<subseteq> {c}" using s3 by (simp add: D4_def)
  have c1: "series col D1 = series col rs" if "col \<noteq> ''DaysCountFromFirstCase''" for col
    using that by (simp add: D1_def series_loc_assign_other)
  have e2: "loc_assign (\<lambda>r. Country_Code r = c) ''DailyConfirmedCases''
      (diff (series ''ConfirmedCases'' (filter (\<lambda>r. Country_Code r = c) D1))) D1 = D2"
    using s1 by (simp add: f loc_assign_single D2_def c1)
  have e3: "loc_assign (\<lambda>r. Country_Code r = c) ''DailyConfirmedDeaths''
      (diff (series ''ConfirmedDeaths'' (filter (\<lambda>r. Country_Code r = c) D2))) D2 = D3"
    using s2 by (simp add: f loc_assign_single D3_def D2_def series_set_column l1 c1)
  have e4: "loc_assign (\<lambda>r. Country_Code r = c) ''DailyRecovered''
      (diff (series ''Recovered'' (filter (\<lambda>r. Country_Code r = c) D3))) D3 = D4"
    using s3 by (simp add: f loc_assign_single D4_def D3_def D2_def series_set_column l1 c1)
  have e5: "loc_assign (\<lambda>r. Country_Code r = c) ''DailyActive''
      (diff (series ''Active'' (filter (\<lambda>r. Country_Code r = c) D4))) D4
      = set_column ''DailyActive'' (diff (series ''Active'' rs)) D4"
    using s4 by (simp add: f loc_assign_single D4_def D3_def D2_def series_set_column l1 c1)
  have "features_country c rs = set_column ''DailyActive'' (diff (series ''Active'' rs)) D4"
    unfolding features_country_def Let_def D1_def [symmetric] e2 e3 e4 e5 ..
  then show ?thesis by (simp add: D4_def D3_def D2_def)
qed

lemma num_features_fillna_row:
  "num (features_fillna_row r) col =
     (if col \<in> set [''DailyConfirmedCases'', ''DailyConfirmedDeaths'', ''DailyRecovered'',
         ''DailyActive''] then fillna0 (num r col) else num r col)"
  by (simp add: features_fillna_row_def Let_def)

lemma num_features_init_row:
  "num (features_init_row r) col =
     (if col \<in> set [''DailyConfirmedCases'', ''DailyConfirmedDeaths'', ''DailyRecovered'',
         ''DailyActive'', ''DaysCountFromFirstCase''] then Some 0
      else if col = ''RelativeActive'' then
        fdiv (fsub (fsub (num r ''ConfirmedCases'') (num r ''ConfirmedDeaths'')) (num r ''Recovered''))
          (num r ''Population'')
      else if col = ''RelativeRecovered'' then fdiv (num r ''Recovered'') (num r ''Population'')
      else if col = ''RelativeConfirmedDeaths'' then
        fdiv (num r ''ConfirmedDeaths'') (num r ''Population'')
      else if col = ''RelativeConfirmedCases'' then
        fdiv (num r ''ConfirmedCases'') (num r ''Population'')
      else if col = ''Active'' then
        fsub (fsub (num r ''ConfirmedCases'') (num r ''ConfirmedDeaths'')) (num r ''Recovered'')
      else num r col)"
  by (simp add: features_init_row_def Let_def)

lemma cases_positive_features_init_row [simp]:
  "cases_positive (features_init_row r) = cases_positive r"
  by (simp add: cases_positive_def num_features_init_row)

lemma loc_assign_map_filter:
  "loc_assign m col (map g (filter m d)) d = map (\<lambda>r. if m r then col_set col (g r) r else r) d"
  by (induction d) simp_all

lemma days_count_map:
  "days_count (map DateTime d)
     = map (\<lambda>r. Some (of_int (DateTime r - min_list (map DateTime d)))) d"
  by (cases d) (simp_all add: days_count_def)

text \<open>
  The rows of one country after \<^verbatim>\<open>create_features\<close>, column by column: \<open>rs\<close> are the rows
  of the country before.
\<close>

lemma create_features_series:
  fixes c :: string and df :: dataframe
  defines "rs \<equiv> loc_country c df"
  defines "out \<equiv> loc_country c (create_features df)"
  defines "active \<equiv> map (\<lambda>r. fsub (fsub (num r ''ConfirmedCases'') (num r ''ConfirmedDeaths''))
      (num r ''Recovered'')) rs"
  shows "series ''Active'' out = active"
    and "series ''DailyConfirmedCases'' out = map fillna0 (diff (series ''ConfirmedCases'' rs))"
    and "series ''DailyConfirmedDeaths'' out = map fillna0 (diff (series ''ConfirmedDeaths'' rs))"
    and "series ''DailyRecovered'' out = map fillna0 (diff (series ''Recovered'' rs))"
    and "series ''DailyActive'' out = map fillna0 (diff active)"
    and "series ''DaysCountFromFirstCase'' out =
      map (\<lambda>r. if cases_positive r
         then Some (of_int (DateTime r - min_list (map DateTime (filter cases_positive rs))))
         else Some 0) rs"
    and "series ''RelativeConfirmedCases'' out
      = map (\<lambda>r. fdiv (num r ''ConfirmedCases'') (num r ''Population'')) rs"
    and "series ''RelativeConfirmedDeaths'' out
      = map (\<lambda>r. fdiv (num r ''ConfirmedDeaths'') (num r ''Population'')) rs"
    and "series ''RelativeRecovered'' out
      = map (\<lambda>r. fdiv (num r ''Recovered'') (num r ''Population'')) rs"
    and "series ''RelativeActive'' out
      = map (\<lambda>r. fdiv (fsub (fsub (num r ''ConfirmedCases'') (num r ''ConfirmedDeaths''))
          (num r ''Recovered'')) (num r ''Population'')) rs"
    and "col \<notin> set [''Active'', ''RelativeConfirmedCases'', ''RelativeConfirmedDeaths'',
        ''RelativeRecovered'', ''RelativeActive'', ''DailyConfirmedCases'',
        ''DailyConfirmedDeaths'', ''DailyRecovered'', ''DailyActive'', ''DaysCountFromFirstCase'']
      \<Longrightarrow> series col out = series col rs"
    and "map DateTime out = map DateTime rs"
    and "map Country_Code out = map Country_Code rs"
proof -
  define I where "I = map features_init_row rs"
  define mc where "mc = (\<lambda>r. Country_Code r = c \<and> cases_positive r)"
  define D1 where "D1 = loc_assign mc ''DaysCountFromFirstCase''
      (days_count (map DateTime (filter mc I))) I"
  define FC where "FC = features_country c I"
  have single: "set (map Country_Code rs) \<subseteq> {c}" unfolding rs_def by (rule single_loc_country)
  have singleI: "set (map Country_Code I) \<subseteq> {c}"
    using single by (simp add: I_def o_def)
  have out: "out = map features_fillna_row FC"
    by (simp add: out_def FC_def I_def rs_def loc_country_create_features)
  have FC: "FC = set_column ''DailyActive'' (diff (series ''Active'' I))
     (set_column ''DailyRecovered'' (diff (series ''Recovered'' I))
      (set_column ''DailyConfirmedDeaths'' (diff (series ''ConfirmedDeaths'' I))
       (set_column ''DailyConfirmedCases'' (diff (series ''ConfirmedCases'' I)) D1)))"
    unfolding FC_def D1_def mc_def by (rule features_country_single [OF singleI])
  have lenD1: "length D1 = length rs" by (simp add: D1_def I_def)
  have lenI: "length I = length rs" by (simp add: I_def)
  have sI: "series col I = map (\<lambda>r. num (features_init_row r) col) rs" for col
    by (simp add: I_def series_def)
  have sout: "series col out = map (\<lambda>r. num (features_fillna_row r) col) FC" for col
    by (simp add: out series_def)
  have sD1: "series col D1 = series col I" if "col \<noteq> ''DaysCountFromFirstCase''" for col
    using that by (simp add: D1_def series_loc_assign_other)
  have mcI: "filter mc I = map features_init_row (filter cases_positive rs)"
  proof -
    have "filter mc I = filter cases_positive I"
      using singleI by (induction I) (auto simp: mc_def)
    then show ?thesis by (simp add: I_def filter_map o_def)
  qed
  have D1: "D1 = map (\<lambda>r. if mc r
      then col_set ''DaysCountFromFirstCase''
        (Some (of_int (DateTime r - min_list (map DateTime (filter mc I))))) r else r) I"
    unfolding D1_def days_count_map by (rule loc_assign_map_filter)
  have mcr: "mc (features_init_row r) = cases_positive r" if "r \<in> set rs" for r
    using that single by (auto simp: mc_def)
  have dates: "map DateTime (filter mc I) = map DateTime (filter cases_positive rs)"
    by (simp add: mcI o_def)
  define md where "md = min_list (map DateTime (filter cases_positive rs))"
  have D1': "D1 = map (\<lambda>r. if mc r
      then col_set ''DaysCountFromFirstCase'' (Some (of_int (DateTime r - md))) r else r) I"
    using D1 by (simp only: dates md_def)
  have "series ''DaysCountFromFirstCase'' D1 =
      map (\<lambda>r. if cases_positive r then Some (of_int (DateTime r - md)) else Some 0) rs"
    unfolding D1' I_def
    by (simp add: series_def mcr num_features_init_row cong: map_cong)
  then have sDC: "series ''DaysCountFromFirstCase'' D1 =
      map (\<lambda>r. if cases_positive r
         then Some (of_int (DateTime r - min_list (map DateTime (filter cases_positive rs))))
         else Some 0) rs"
    by (simp only: md_def)
  have sFC: "series col FC =
     (if col = ''DailyActive'' then diff (series ''Active'' I)
      else if col = ''DailyRecovered'' then diff (series ''Recovered'' I)
      else if col = ''DailyConfirmedDeaths'' then diff (series ''ConfirmedDeaths'' I)
      else if col = ''DailyConfirmedCases'' then diff (series ''ConfirmedCases'' I)
      else series col D1)" for col
    by (simp add: FC series_set_column lenD1 lenI)
  have sout2: "series col out =
     (if col \<in> set [''DailyConfirmedCases'', ''DailyConfirmedDeaths'', ''DailyRecovered'',
         ''DailyActive''] then map fillna0 (series col FC) else series col FC)" for col
    unfolding sout by (simp add: series_def num_features_fillna_row o_def)
  show "series ''Active'' out = active"
    by (simp add: sout2 sFC sD1 sI num_features_init_row active_def)
  show "series ''DailyConfirmedCases'' out = map fillna0 (diff (series ''ConfirmedCases'' rs))"
    unfolding sout2 sFC sI by (simp add: num_features_init_row series_def)
  show "series ''DailyConfirmedDeaths'' out = map fillna0 (diff (series ''ConfirmedDeaths'' rs))"
    unfolding sout2 sFC sI by (simp add: num_features_init_row series_def)
  show "series ''DailyRecovered'' out = map fillna0 (diff (series ''Recovered'' rs))"
    unfolding sout2 sFC sI by (simp add: num_features_init_row series_def)
  show "series ''DailyActive'' out = map fillna0 (diff active)"
    by (simp add: sout2 sFC sI num_features_init_row active_def)
  show "series ''DaysCountFromFirstCase'' out =
      map (\<lambda>r. if cases_positive r
         then Some (of_int (DateTime r - min_list (map DateTime (filter cases_positive rs))))
         else Some 0) rs"
    by (simp add: sout2 sFC sDC)
  show "series ''RelativeConfirmedCases'' out
      = map (\<lambda>r. fdiv (num r ''ConfirmedCases'') (num r ''Population'')) rs"
    by (simp add: sout2 sFC sD1 sI num_features_init_row)
  show "series ''RelativeConfirmedDeaths'' out
      = map (\<lambda>r. fdiv (num r ''ConfirmedDeaths'') (num r ''Population'')) rs"
    by (simp add: sout2 sFC sD1 sI num_features_init_row)
  show "series ''RelativeRecovered'' out
      = map (\<lambda>r. fdiv (num r ''Recovered'') (num r ''Population'')) rs"
    by (simp add: sout2 sFC sD1 sI num_features_init_row)
  show "series ''RelativeActive'' out
      = map (\<lambda>r. fdiv (fsub (fsub (num r ''ConfirmedCases'') (num r ''ConfirmedDeaths''))
          (num r ''Recovered'')) (num r ''Population'')) rs"
    by (simp add: sout2 sFC sD1 sI num_features_init_row)
  show "series col out = series col rs"
    if "col \<notin> set [''Active'', ''RelativeConfirmedCases'', ''RelativeConfirmedDeaths'',
        ''RelativeRecovered'', ''RelativeActive'', ''DailyConfirmedCases'',
        ''DailyConfirmedDeaths'', ''DailyRecovered'', ''DailyActive'', ''DaysCountFromFirstCase'']"
  proof -
    from that have ne: "col \<noteq> ''DaysCountFromFirstCase''" by simp
    show ?thesis
      unfolding sout2 sFC sD1 [OF ne] sI using that by (simp add: num_features_init_row series_def)
  qed
  show "map DateTime out = map DateTime rs"
    unfolding out_def rs_def loc_country_create_features_commute by simp
  show "map Country_Code out = map Country_Code rs"
    unfolding out_def rs_def loc_country_create_features_commute by simp
qed

section \<open>Daily differences\<close>

lemma diff_nth_0: "xs \<noteq> [] \<Longrightarrow> diff xs ! 0 = None"
  by (cases xs) (simp_all add: diff_def)

lemma diff_nth_Suc: "Suc i < length xs \<Longrightarrow> diff xs ! Suc i = fsub (xs ! Suc i) (xs ! i)"
  by (cases xs) (simp_all add: diff_def)

lemma length_loc_country_create_features [simp]:
  "length (loc_country c (create_features df)) = length (loc_country c df)"
  using create_features_series(13) [of c df] by (metis length_map)

lemma daily_series:
  fixes c :: string and df :: dataframe
  defines "out \<equiv> loc_country c (create_features df)"
  assumes "(X, D) \<in> set [(''ConfirmedCases'', ''DailyConfirmedCases''),
      (''ConfirmedDeaths'', ''DailyConfirmedDeaths''), (''Recovered'', ''DailyRecovered''),
      (''Active'', ''DailyActive'')]"
  shows "series D out = map fillna0 (diff (series X out))"
  using assms(2) unfolding out_def
  by (auto simp: create_features_series)

text \<open>
  C5: for each of \<open>ConfirmedCases\<close>, \<open>ConfirmedDeaths\<close>, \<open>Recovered\<close> and \<open>Active\<close>, on the rows
  of a country in table order, the daily column of the first row is 0, whatever the
  count of that row is, and the daily column of every later row is the count of the row
  minus the count of the row before.
\<close>

theorem daily_delta_per_country:
  fixes c :: string and df :: dataframe
  defines "out \<equiv> loc_country c (create_features df)"
  assumes XD: "(X, D) \<in> set [(''ConfirmedCases'', ''DailyConfirmedCases''),
      (''ConfirmedDeaths'', ''DailyConfirmedDeaths''), (''Recovered'', ''DailyRecovered''),
      (''Active'', ''DailyActive'')]"
  shows "(out \<noteq> [] \<longrightarrow> num (out ! 0) D = Some 0) \<and>
    (\<forall>i a b. Suc i < length out \<longrightarrow> num (out ! Suc i) X = Some a \<longrightarrow> num (out ! i) X = Some b
       \<longrightarrow> num (out ! Suc i) D = Some (a - b))"
proof -
  have s: "series D out = map fillna0 (diff (series X out))"
    unfolding out_def using XD by (rule daily_series)
  have first: "num (out ! 0) D = Some 0" if "out \<noteq> []"
  proof -
    from that have "num (out ! 0) D = series D out ! 0" by (simp add: series_nth)
    also have "\<dots> = fillna0 (diff (series X out) ! 0)" using that by (simp add: s)
    also have "\<dots> = Some 0" using that by (simp add: diff_nth_0 fillna0_def series_def)
    finally show ?thesis .
  qed
  have later: "num (out ! Suc i) D = Some (a - b)"
    if "Suc i < length out" "num (out ! Suc i) X = Some a" "num (out ! i) X = Some b" for i a b
  proof -
    from that(1) have "num (out ! Suc i) D = series D out ! Suc i" by (simp add: series_nth)
    also have "\<dots> = fillna0 (diff (series X out) ! Suc i)" using that(1) by (simp add: s)
    also have "\<dots> = fillna0 (fsub (num (out ! Suc i) X) (num (out ! i) X))"
      using that(1) by (simp add: diff_nth_Suc series_nth)
    also have "\<dots> = Some (a - b)" using that by (simp add: fsub_def fillna0_def)
    finally show ?thesis .
  qed
  from first later show ?thesis by blast
qed

theorem daily_delta_per_country_witness:
  "num (loc_country ''X'' (create_features table_example) ! 0) ''DailyConfirmedCases'' = Some 0 \<and>
   num (loc_country ''X'' (create_features table_example) ! 2) ''DailyConfirmedCases'' = Some 5 \<and>
   num (loc_country ''X'' (create_features table_example) ! 3) ''DailyConfirmedCases'' = Some 0 \<and>
   num (loc_country ''X'' (create_features table_example) ! 4) ''DailyConfirmedCases'' = Some 7"
proof -
  define out where "out = loc_country ''X'' (create_features table_example)"
  have h: "(''ConfirmedCases'', ''DailyConfirmedCases'') \<in> set [(''ConfirmedCases'', ''DailyConfirmedCases''),
      (''ConfirmedDeaths'', ''DailyConfirmedDeaths''), (''Recovered'', ''DailyRecovered''),
      (''Active'', ''DailyActive'')]" by simp
  have len: "length out = 5" by (simp add: out_def loc_country_X_table_example)
  have "series ''ConfirmedCases'' out = series ''ConfirmedCases'' (loc_country ''X'' table_example)"
    unfolding out_def by (rule create_features_series(11)) simp
  then have cc: "series ''ConfirmedCases'' out = [Some 0, Some 0, Some 5, Some 5, Some 12]"
    by (simp add: table_example_X)
  have cell: "num (out ! i) ''ConfirmedCases'' = [Some 0, Some 0, Some 5, Some 5, Some 12] ! i"
    if "i < 5" for i
    using that len cc by (metis series_nth)
  note t = daily_delta_per_country [OF h, of "''X''" table_example, folded out_def]
  from t len have d0: "num (out ! 0) ''DailyConfirmedCases'' = Some 0" by auto
  from t have step: "Suc i < length out \<Longrightarrow> num (out ! Suc i) ''ConfirmedCases'' = Some a \<Longrightarrow>
      num (out ! i) ''ConfirmedCases'' = Some b \<Longrightarrow>
      num (out ! Suc i) ''DailyConfirmedCases'' = Some (a - b)" for i a b
    by blast
  from step [of 1 5 0] len cell [of 1] cell [of 2]
  have d2: "num (out ! 2) ''DailyConfirmedCases'' = Some 5" by (simp add: numeral_2_eq_2)
  from step [of 2 5 5] len cell [of 2] cell [of 3]
  have d3: "num (out ! 3) ''DailyConfirmedCases'' = Some 0" by (simp add: numeral_3_eq_3 numeral_2_eq_2)
  from step [of 3 12 5] len cell [of 3] cell [of 4]
  have d4: "num (out ! 4) ''DailyConfirmedCases'' = Some 7"
    by (simp add: numeral_3_eq_3 eval_nat_numeral)
  from d0 d2 d3 d4 show ?thesis unfolding out_def by blast
qed

section \<open>Relative rates\<close>

lemma series_features_country_other:
  assumes "col \<notin> set [''DailyConfirmedCases'', ''DailyConfirmedDeaths'', ''DailyRecovered'',
      ''DailyActive'', ''DaysCountFromFirstCase'']"
  shows "series col (features_country c d) = series col d"
  using assms by (simp add: features_country_def Let_def series_loc_assign_other)

lemma series_foldl_features_country_other:
  assumes "col \<notin> set [''DailyConfirmedCases'', ''DailyConfirmedDeaths'', ''DailyRecovered'',
      ''DailyActive'', ''DaysCountFromFirstCase'']"
  shows "series col (foldl (\<lambda>d c. features_country c d) d cs) = series col d"
  by (induction cs arbitrary: d) (simp_all add: series_features_country_other [OF assms])

lemma length_create_features [simp]: "length (create_features df) = length df"
  using map_Country_Code_create_features [of df] by (metis length_map)

text \<open>The four relative rates of a row, from the counts and the population of that row.\<close>

lemma relative_cells:
  assumes i: "i < length df"
  shows "num (create_features df ! i) ''RelativeConfirmedCases''
      = fdiv (num (df ! i) ''ConfirmedCases'') (num (df ! i) ''Population'')"
    and "num (create_features df ! i) ''RelativeConfirmedDeaths''
      = fdiv (num (df ! i) ''ConfirmedDeaths'') (num (df ! i) ''Population'')"
    and "num (create_features df ! i) ''RelativeRecovered''
      = fdiv (num (df ! i) ''Recovered'') (num (df ! i) ''Population'')"
    and "num (create_features df ! i) ''RelativeActive''
      = fdiv (fsub (fsub (num (df ! i) ''ConfirmedCases'') (num (df ! i) ''ConfirmedDeaths''))
          (num (df ! i) ''Recovered'')) (num (df ! i) ''Population'')"
    and "num (create_features df ! i) ''Active''
      = fsub (fsub (num (df ! i) ''ConfirmedCases'') (num (df ! i) ''ConfirmedDeaths''))
          (num (df ! i) ''Recovered'')"
proof -
  have s: "series col (create_features df) = map (\<lambda>r. num (features_init_row r) col) df"
    if "col \<notin> set [''DailyConfirmedCases'', ''DailyConfirmedDeaths'', ''DailyRecovered'',
      ''DailyActive'', ''DaysCountFromFirstCase'']" for col
  proof -
    have "series col (create_features df)
        = series col (foldl (\<lambda>d c. features_country c d) (map features_init_row df)
            (unique (map Country_Code df)))"
      unfolding create_features_rowwise using that
      by (simp add: series_def num_features_fillna_row)
    also have "\<dots> = series col (map features_init_row df)"
      using that by (rule series_foldl_features_country_other)
    finally show ?thesis by (simp add: series_def)
  qed
  have cell: "num (create_features df ! i) col = num (features_init_row (df ! i)) col"
    if "col \<notin> set [''DailyConfirmedCases'', ''DailyConfirmedDeaths'', ''DailyRecovered'',
      ''DailyActive'', ''DaysCountFromFirstCase'']" for col
  proof -
    have "num (create_features df ! i) col = series col (create_features df) ! i"
      using i by (simp add: series_nth)
    with s [OF that] i show ?thesis by simp
  qed
  show "num (create_features df ! i) ''RelativeConfirmedCases''
      = fdiv (num (df ! i) ''ConfirmedCases'') (num (df ! i) ''Population'')"
    by (simp add: cell num_features_init_row)
  show "num (create_features df ! i) ''RelativeConfirmedDeaths''
      = fdiv (num (df ! i) ''ConfirmedDeaths'') (num (df ! i) ''Population'')"
    by (simp add: cell num_features_init_row)
  show "num (create_features df ! i) ''RelativeRecovered''
      = fdiv (num (df ! i) ''Recovered'') (num (df ! i) ''Population'')"
    by (simp add: cell num_features_init_row)
  show "num (create_features df ! i) ''RelativeActive''
      = fdiv (fsub (fsub (num (df ! i) ''ConfirmedCases'') (num (df ! i) ''ConfirmedDeaths''))
          (num (df ! i) ''Recovered'')) (num (df ! i) ''Population'')"
    by (simp add: cell num_features_init_row)
  show "num (create_features df ! i) ''Active''
      = fsub (fsub (num (df ! i) ''ConfirmedCases'') (num (df ! i) ''ConfirmedDeaths''))
          (num (df ! i) ''Recovered'')"
    by (simp add: cell num_features_init_row)
qed

text \<open>Another population column changes nothing but the population and the four rates.\<close>

lemma create_features_population_only:
  fixes c :: string and df :: dataframe and p q :: "row \<Rightarrow> cell"
  assumes col: "col \<notin> set [''Population'', ''RelativeConfirmedCases'', ''RelativeConfirmedDeaths'',
      ''RelativeRecovered'', ''RelativeActive'']"
  shows "series col (loc_country c (create_features (map (\<lambda>r. col_set ''Population'' (p r) r) df)))
    = series col (loc_country c (create_features (map (\<lambda>r. col_set ''Population'' (q r) r) df)))"
proof -
  have cp: "cases_positive (col_set ''Population'' v r) = cases_positive r" for v r
    by (simp add: cases_positive_def)
  have fl: "filter cases_positive (map (\<lambda>r. col_set ''Population'' (u r) r) d)
      = map (\<lambda>r. col_set ''Population'' (u r) r) (filter cases_positive d)" for u and d :: dataframe
    by (induction d) (simp_all add: cp)
  have lc: "loc_country c (map (\<lambda>r. col_set ''Population'' (u r) r) df)
      = map (\<lambda>r. col_set ''Population'' (u r) r) (loc_country c df)" for u
    by (rule loc_country_map) simp
  consider "col = ''Active''" | "col = ''DailyConfirmedCases''" | "col = ''DailyConfirmedDeaths''"
    | "col = ''DailyRecovered''" | "col = ''DailyActive''" | "col = ''DaysCountFromFirstCase''"
    | "col \<notin> set [''Active'', ''RelativeConfirmedCases'', ''RelativeConfirmedDeaths'',
        ''RelativeRecovered'', ''RelativeActive'', ''DailyConfirmedCases'',
        ''DailyConfirmedDeaths'', ''DailyRecovered'', ''DailyActive'', ''DaysCountFromFirstCase'']"
    using col by auto
  then show ?thesis
  proof cases
    case 1
    then show ?thesis by (simp add: create_features_series(1) lc o_def)
  next
    case 2
    show ?thesis unfolding 2 create_features_series(2) lc by (simp add: series_def o_def)
  next
    case 3
    show ?thesis unfolding 3 create_features_series(3) lc by (simp add: series_def o_def)
  next
    case 4
    show ?thesis unfolding 4 create_features_series(4) lc by (simp add: series_def o_def)
  next
    case 5
    then show ?thesis by (simp add: create_features_series(5) lc o_def)
  next
    case 6
    then show ?thesis by (simp add: create_features_series(6) lc fl cp o_def)
  next
    case 7
    show ?thesis unfolding create_features_series(11) [OF 7] lc
      using col by (simp add: series_def o_def)
  qed
qed

lemma col_set_same [simp]: "col_set col (num r col) r = r"
  by (simp add: col_set_def)

text \<open>
  C9: on every row, each of the four relative rates is the corresponding count divided by
  the population of the row (for \<open>RelativeActive\<close> the count is the column \<open>Active\<close>); when
  the population of a row is missing, its four relative rates are NaN; and whatever the
  population column holds, every column other than \<open>Population\<close> and the four rates is the
  same, in every country.
\<close>

theorem relative_rates:
  fixes df :: dataframe
  assumes i: "i < length df"
  shows "(\<forall>p a. num (df ! i) ''Population'' = Some p \<longrightarrow> p \<noteq> 0 \<longrightarrow>
        num (df ! i) ''ConfirmedCases'' = Some a \<longrightarrow>
        num (create_features df ! i) ''RelativeConfirmedCases'' = Some (a / p)) \<and>
    (\<forall>p a. num (df ! i) ''Population'' = Some p \<longrightarrow> p \<noteq> 0 \<longrightarrow>
        num (df ! i) ''ConfirmedDeaths'' = Some a \<longrightarrow>
        num (create_features df ! i) ''RelativeConfirmedDeaths'' = Some (a / p)) \<and>
    (\<forall>p a. num (df ! i) ''Population'' = Some p \<longrightarrow> p \<noteq> 0 \<longrightarrow>
        num (df ! i) ''Recovered'' = Some a \<longrightarrow>
        num (create_features df ! i) ''RelativeRecovered'' = Some (a / p)) \<and>
    (\<forall>p a. num (df ! i) ''Population'' = Some p \<longrightarrow> p \<noteq> 0 \<longrightarrow>
        num (create_features df ! i) ''Active'' = Some a \<longrightarrow>
        num (create_features df ! i) ''RelativeActive'' = Some (a / p)) \<and>
    (num (df ! i) ''Population'' = None \<longrightarrow>
        num (create_features df ! i) ''RelativeConfirmedCases'' = None \<and>
        num (create_features df ! i) ''RelativeConfirmedDeaths'' = None \<and>
        num (create_features df ! i) ''RelativeRecovered'' = None \<and>
        num (create_features df ! i) ''RelativeActive'' = None) \<and>
    (\<forall>c col q. col \<notin> set [''Population'', ''RelativeConfirmedCases'', ''RelativeConfirmedDeaths'',
          ''RelativeRecovered'', ''RelativeActive''] \<longrightarrow>
        series col (loc_country c (create_features (map (\<lambda>r. col_set ''Population'' (q r) r) df)))
          = series col (loc_country c (create_features df)))"
proof -
  note r = relative_cells [OF i]
  have "series col (loc_country c (create_features (map (\<lambda>r. col_set ''Population'' (q r) r) df)))
          = series col (loc_country c (create_features df))"
    if "col \<notin> set [''Population'', ''RelativeConfirmedCases'', ''RelativeConfirmedDeaths'',
          ''RelativeRecovered'', ''RelativeActive'']" for c col q
    using create_features_population_only [OF that, where c = c and p = q
        and q = "\<lambda>r. num r ''Population''" and df = df]
    by simp
  then show ?thesis
    by (auto simp: r fdiv_def split: option.splits)
qed

theorem relative_rates_witness:
  "num (create_features population_example ! 0) ''RelativeConfirmedCases'' = Some 0.0001 \<and>
   num (create_features population_example ! 1) ''RelativeConfirmedCases'' = None \<and>
   num (create_features population_example ! 1) ''RelativeActive'' = None"
proof -
  have c: "num (population_example ! 0) ''Population'' = Some 1000000"
    "num (population_example ! 0) ''ConfirmedCases'' = Some 100"
    "num (population_example ! 1) ''Population'' = None"
    by (simp_all add: population_example_def mk_row_def)
  have l: "0 < length population_example" "1 < length population_example"
    by (simp_all add: population_example_def)
  from relative_rates [OF l(1)] c(1,2)
  have 1: "num (create_features population_example ! 0) ''RelativeConfirmedCases'' = Some 0.0001"
    by simp
  from relative_rates [OF l(2)] c(3)
  have 2: "num (create_features population_example ! 1) ''RelativeConfirmedCases'' = None"
    "num (create_features population_example ! 1) ''RelativeActive'' = None"
    by simp_all
  from 1 2 show ?thesis by blast
qed

section \<open>Countries do not interfere\<close>

lemma loc_country_add_world_population_data:
  "loc_country c (add_world_population_data wp df) = add_world_population_data wp (loc_country c df)"
  unfolding add_world_population_data_def by (rule loc_country_map) simp

lemma loc_country_fill_missing_values_commute:
  "loc_country c (fill_missing_values df) = fill_missing_values (loc_country c df)"
proof -
  have "set (map Country_Code (fill_missing_values (loc_country c df))) \<subseteq> {c}"
    unfolding map_Country_Code_fill_missing_values by (rule single_loc_country)
  then have "loc_country c (fill_missing_values (loc_country c df))
      = fill_missing_values (loc_country c df)"
    by (rule loc_country_single)
  then show ?thesis
    by (simp add: loc_country_fill_missing_values [of c df]
        loc_country_fill_missing_values [of c "loc_country c df"])
qed

text \<open>
  C8: when two tables differ only in the rows of one country \<open>c\<close>, that is, the rows of
  every other country are the same in both and in the same order, then the rows of every
  other country are the same after the filler, after the feature synthesizer, and after
  the filler, the population join and the feature synthesizer in a row: the forward
  fills, the cumulative sums, the daily differences and the day counts of a country see
  the rows of that country only.
\<close>

theorem countries_do_not_interfere:
  fixes df1 df2 :: dataframe
  assumes "\<forall>c'. c' \<noteq> c \<longrightarrow> loc_country c' df1 = loc_country c' df2"
  shows "\<forall>c'. c' \<noteq> c \<longrightarrow>
    loc_country c' (fill_missing_values df1) = loc_country c' (fill_missing_values df2) \<and>
    loc_country c' (create_features df1) = loc_country c' (create_features df2) \<and>
    loc_country c' (create_features (add_world_population_data wp (fill_missing_values df1)))
      = loc_country c' (create_features (add_world_population_data wp (fill_missing_values df2)))"
  using assms
  by (simp add: loc_country_fill_missing_values_commute loc_country_create_features_commute
      loc_country_add_world_population_data)

theorem countries_do_not_interfere_witness:
  "loc_country ''Y'' table_example \<noteq> loc_country ''Y'' table_example_other \<and>
   loc_country ''X'' (fill_missing_values table_example)
     = loc_country ''X'' (fill_missing_values table_example_other) \<and>
   loc_country ''X'' (create_features table_example)
     = loc_country ''X'' (create_features table_example_other) \<and>
   loc_country ''X'' (create_features (add_world_population_data (\<lambda>c. None)
       (fill_missing_values table_example)))
     = loc_country ''X'' (create_features (add_world_population_data (\<lambda>c. None)
       (fill_missing_values table_example_other)))"
proof -
  have h: "\<forall>c'. c' \<noteq> ''Y'' \<longrightarrow> loc_country c' table_example = loc_country c' table_example_other"
    by (simp add: table_example_other_def table_example_def loc_country_def mk_row0_def)
  have d: "loc_country ''Y'' table_example \<noteq> loc_country ''Y'' table_example_other"
    by (simp add: table_example_other_def table_example_def loc_country_def mk_row0_def)
  from countries_do_not_interfere [OF h, of "\<lambda>c. None"] d show ?thesis by simp
qed

section \<open>What \<^verbatim>\<open>extend_data\<close> returns\<close>

lemma unit_formula:
  fixes x f d :: real
  assumes "0 \<le> x" "x \<le> d" "0 < d" "f = 0 \<or> f = 1"
  shows "0 \<le> x / d * (1 - w) + w * f" and "x / d * (1 - w) + w * f \<le> 1"
proof -
  have q: "0 \<le> x / d" "x / d \<le> 1" using assms by simp_all
  have w: "0 \<le> w" "w \<le> 1" by (simp_all add: w_def)
  from q w have "0 \<le> x / d * (1 - w)" by (intro mult_nonneg_nonneg) simp_all
  moreover from assms(4) w have "0 \<le> w * f" by auto
  ultimately show "0 \<le> x / d * (1 - w) + w * f" by simp
  from q w have "x / d * (1 - w) \<le> 1 * (1 - w)" by (intro mult_right_mono) simp_all
  moreover from assms(4) w have "w * f \<le> w" by auto
  ultimately show "x / d * (1 - w) + w * f \<le> 1" by simp
qed

lemma unit_flagged:
  assumes "cell_between 0 d s" "flag_ok g" "0 < d"
  shows "cell_between 0 1
    (fmul (Some nf) (fadd (fmul (fdiv s (Some d)) (Some (1 - w))) (fmul (Some w) g)))"
proof (cases s)
  case None
  then show ?thesis by (simp add: cell_between_def fmul_def fadd_def fdiv_def)
next
  case (Some x)
  show ?thesis
  proof (cases g)
    case None
    then show ?thesis by (simp add: cell_between_def fmul_def fadd_def fdiv_def split: option.splits)
  next
    case (Some f)
    with assms \<open>s = Some x\<close> have "0 \<le> x" "x \<le> d" "f = 0 \<or> f = 1"
      by (simp_all add: cell_between_def flag_ok_def)
    from unit_formula [OF this(1,2) assms(3) this(3)] \<open>s = Some x\<close> Some assms(3)
    show ?thesis by (simp add: cell_between_def fmul_def fadd_def fdiv_def nf_def)
  qed
qed

lemma unit_default_flag:
  assumes "cell_between 0 d s" "0 < d"
  shows "cell_between 0 1
    (fmul (Some nf) (fadd (fmul (fdiv s (Some d)) (Some (1 - w)))
       (fmul (Some w) (fadd (fmul s (Some 0)) (Some 1)))))"
proof -
  have "flag_ok (fadd (fmul s (Some 0)) (Some 1))"
    by (cases s) (simp_all add: flag_ok_def fadd_def fmul_def)
  with assms show ?thesis by (intro unit_flagged)
qed

lemma unit_travel:
  assumes "cell_between 0 4 s"
  shows "cell_between 0 1 (fdiv (fmul (Some nf) s) (Some 4))"
  using assms by (cases s) (simp_all add: cell_between_def fmul_def fdiv_def nf_def)

lemma flag_columns:
  "s_id_of COL_c1 @ ''_Flag'' = ''C1_Flag''" "s_id_of COL_c2 @ ''_Flag'' = ''C2_Flag''"
  "s_id_of COL_c3 @ ''_Flag'' = ''C3_Flag''" "s_id_of COL_c4 @ ''_Flag'' = ''C4_Flag''"
  "s_id_of COL_c5 @ ''_Flag'' = ''C5_Flag''" "s_id_of COL_c6 @ ''_Flag'' = ''C6_Flag''"
  "s_id_of COL_c7 @ ''_Flag'' = ''C7_Flag''" "s_id_of COL_h1 @ ''_Flag'' = ''H1_Flag''"
  by (simp_all add: s_id_of_def COL_c1_def COL_c2_def COL_c3_def COL_c4_def
      COL_c5_def COL_c6_def COL_c7_def COL_h1_def)

lemma map2_map_map_same: "map2 f (map g xs) (map h (map g xs)) = map (\<lambda>x. f (g x) (h (g x))) xs"
  by (induction xs) simp_all

text \<open>
  The series that a flagged indicator with divisor \<open>d\<close> is transformed to, and the one of
  the travel controls, row by row of the raw table.
\<close>

lemma l_i_flagged:
  assumes "idx \<in> {1, 2, 3, 4, 5, 6, 7, 9}"
  defines "d \<equiv> (if idx \<in> {3, 5, 7, 9} then 2 else if idx \<in> {1, 2, 6} then 3 else 4 :: real)"
  shows "l_i idx (series column old_df) (series fcol old_df)
      = Series (map (\<lambda>r. fmul (Some nf) (fadd (fmul (fdiv (num r column) (Some d)) (Some (1 - w)))
          (fmul (Some w) (num r fcol)))) old_df)"
    and "l_i idx (series column old_df)
        (map (\<lambda>x. fadd (fmul x (Some 0)) (Some 1)) (series column old_df))
      = Series (map (\<lambda>r. fmul (Some nf) (fadd (fmul (fdiv (num r column) (Some d)) (Some (1 - w)))
          (fmul (Some w) (fadd (fmul (num r column) (Some 0)) (Some 1))))) old_df)"
  using assms(1) unfolding d_def
  by (auto simp: l_i_def series_def map2_map_map map2_map_map_same)

lemma l_i_travel:
  "l_i 8 (series column old_df) si_g
     = Series (map (\<lambda>r. fdiv (fmul (Some nf) (num r column)) (Some 4)) old_df)"
  by (simp add: l_i_def series_def)

lemma transform_step_flagged:
  assumes idx: "idx_of column = Inr idx" "idx \<in> {1, 2, 3, 4, 5, 6, 7, 9}"
    and m: "m_id_of idx = m"
    and range: "\<And>r. raw_in_range r \<Longrightarrow>
      cell_between 0 (if idx \<in> {3, 5, 7, 9} then 2 else if idx \<in> {1, 2, 6} then 3 else 4)
        (num r column) \<and> flag_ok (num r (s_id_of column @ ''_Flag''))"
  shows "\<exists>vs. transform_to_mobility df old_df column hf
        = Inr (set_column m vs (set_column_scalar m (Some 0) df)) \<and>
      ((\<forall>r\<in>set old_df. raw_in_range r) \<longrightarrow> (\<forall>v\<in>set vs. cell_between 0 1 v))"
proof -
  define d :: real where "d = (if idx \<in> {3, 5, 7, 9} then 2 else if idx \<in> {1, 2, 6} then 3 else 4)"
  have d: "0 < d" by (simp add: d_def)
  have range': "cell_between 0 d (num r column)" "flag_ok (num r (s_id_of column @ ''_Flag''))"
    if "raw_in_range r" for r
    using range [OF that] unfolding d_def by blast+
  show ?thesis
  proof (cases hf)
    case True
    have "transform_to_mobility df old_df column hf
      = Inr (set_column m (map (\<lambda>r. fmul (Some nf) (fadd (fmul (fdiv (num r column) (Some d))
          (Some (1 - w))) (fmul (Some w) (num r (s_id_of column @ ''_Flag''))))) old_df)
          (set_column_scalar m (Some 0) df))"
      using True by (simp add: transform_to_mobility_def idx(1) m Let_def l_i_flagged(1) [OF idx(2)]
          d_def)
    moreover have "\<forall>v\<in>set (map (\<lambda>r. fmul (Some nf) (fadd (fmul (fdiv (num r column) (Some d))
          (Some (1 - w))) (fmul (Some w) (num r (s_id_of column @ ''_Flag''))))) old_df).
        cell_between 0 1 v" if "\<forall>r\<in>set old_df. raw_in_range r"
      using that range' d by (auto intro!: unit_flagged)
    ultimately show ?thesis by blast
  next
    case False
    have "transform_to_mobility df old_df column hf
      = Inr (set_column m (map (\<lambda>r. fmul (Some nf) (fadd (fmul (fdiv (num r column) (Some d))
          (Some (1 - w))) (fmul (Some w) (fadd (fmul (num r column) (Some 0)) (Some 1))))) old_df)
          (set_column_scalar m (Some 0) df))"
      using False by (simp add: transform_to_mobility_def idx(1) m Let_def l_i_flagged(2) [OF idx(2)]
          d_def)
    moreover have "\<forall>v\<in>set (map (\<lambda>r. fmul (Some nf) (fadd (fmul (fdiv (num r column) (Some d))
          (Some (1 - w))) (fmul (Some w) (fadd (fmul (num r column) (Some 0)) (Some 1))))) old_df).
        cell_between 0 1 v" if "\<forall>r\<in>set old_df. raw_in_range r"
      using that range' d by (auto intro!: unit_default_flag)
    ultimately show ?thesis by blast
  qed
qed

lemma transform_step_travel:
  "\<exists>vs. transform_to_mobility df old_df COL_c8 hf
        = Inr (set_column ''S8'' vs (set_column_scalar ''S8'' (Some 0) df)) \<and>
      ((\<forall>r\<in>set old_df. raw_in_range r) \<longrightarrow> (\<forall>v\<in>set vs. cell_between 0 1 v))"
proof -
  have "transform_to_mobility df old_df COL_c8 hf
      = Inr (set_column ''S8'' (map (\<lambda>r. fdiv (fmul (Some nf) (num r COL_c8)) (Some 4)) old_df)
          (set_column_scalar ''S8'' (Some 0) df))"
    by (simp add: transform_to_mobility_def idx_of_cols m_id_of_vals Let_def l_i_travel)
  moreover have "\<forall>v\<in>set (map (\<lambda>r. fdiv (fmul (Some nf) (num r COL_c8)) (Some 4)) old_df).
      cell_between 0 1 v" if "\<forall>r\<in>set old_df. raw_in_range r"
    using that by (auto simp: raw_in_range_def intro!: unit_travel)
  ultimately show ?thesis by blast
qed

text \<open>
  One call of the transformer from the loop of \<^verbatim>\<open>extend_data\<close>: it succeeds and writes one
  of the columns \<open>S1..S9\<close>, with values in the unit interval (or NaN) when the raw table is
  within its ranges.
\<close>

lemma transform_step:
  assumes "column \<in> set ci_cols"
  shows "\<exists>m vs. m \<in> set si_cols \<and> derived_column column = Inr m \<and>
      transform_to_mobility df old_df column hf
        = Inr (set_column m vs (set_column_scalar m (Some 0) df)) \<and>
      ((\<forall>r\<in>set old_df. raw_in_range r) \<longrightarrow> (\<forall>v\<in>set vs. cell_between 0 1 v))"
proof -
  from assms consider "column = COL_h1" | "column = COL_c1" | "column = COL_c2"
    | "column = COL_c3" | "column = COL_c4" | "column = COL_c5" | "column = COL_c6"
    | "column = COL_c7" | "column = COL_c8"
    by (auto simp: ci_cols_def)
  then show ?thesis
  proof cases
    case 1
    have "''S9'' \<in> set si_cols" by (simp add: si_cols_def)
    with transform_step_flagged [OF idx_of_cols(9) _ m_id_of_vals(9), of df old_df hf] 1
    show ?thesis
      by (fastforce simp: raw_in_range_def flag_columns derived_column_def idx_of_cols m_id_of_vals)
  next
    case 2
    have "''S1'' \<in> set si_cols" by (simp add: si_cols_def)
    with transform_step_flagged [OF idx_of_cols(1) _ m_id_of_vals(1), of df old_df hf] 2
    show ?thesis
      by (fastforce simp: raw_in_range_def flag_columns derived_column_def idx_of_cols m_id_of_vals)
  next
    case 3
    have "''S2'' \<in> set si_cols" by (simp add: si_cols_def)
    with transform_step_flagged [OF idx_of_cols(2) _ m_id_of_vals(2), of df old_df hf] 3
    show ?thesis
      by (fastforce simp: raw_in_range_def flag_columns derived_column_def idx_of_cols m_id_of_vals)
  next
    case 4
    have "''S3'' \<in> set si_cols" by (simp add: si_cols_def)
    with transform_step_flagged [OF idx_of_cols(3) _ m_id_of_vals(3), of df old_df hf] 4
    show ?thesis
      by (fastforce simp: raw_in_range_def flag_columns derived_column_def idx_of_cols m_id_of_vals)
  next
    case 5
    have "''S4'' \<in> set si_cols" by (simp add: si_cols_def)
    with transform_step_flagged [OF idx_of_cols(4) _ m_id_of_vals(4), of df old_df hf] 5
    show ?thesis
      by (fastforce simp: raw_in_range_def flag_columns derived_column_def idx_of_cols m_id_of_vals)
  next
    case 6
    have "''S5'' \<in> set si_cols" by (simp add: si_cols_def)
    with transform_step_flagged [OF idx_of_cols(5) _ m_id_of_vals(5), of df old_df hf] 6
    show ?thesis
      by (fastforce simp: raw_in_range_def flag_columns derived_column_def idx_of_cols m_id_of_vals)
  next
    case 7
    have "''S6'' \<in> set si_cols" by (simp add: si_cols_def)
    with transform_step_flagged [OF idx_of_cols(6) _ m_id_of_vals(6), of df old_df hf] 7
    show ?thesis
      by (fastforce simp: raw_in_range_def flag_columns derived_column_def idx_of_cols m_id_of_vals)
  next
    case 8
    have "''S7'' \<in> set si_cols" by (simp add: si_cols_def)
    with transform_step_flagged [OF idx_of_cols(7) _ m_id_of_vals(7), of df old_df hf] 8
    show ?thesis
      by (fastforce simp: raw_in_range_def flag_columns derived_column_def idx_of_cols m_id_of_vals)
  next
    case 9
    have "''S8'' \<in> set si_cols" by (simp add: si_cols_def)
    moreover have "derived_column COL_c8 = Inr ''S8''"
      by (simp add: derived_column_def idx_of_cols m_id_of_vals)
    ultimately show ?thesis using transform_step_travel [of df old_df hf] 9 by blast
  qed
qed

lemma series_set_column_other: "c \<noteq> col \<Longrightarrow> series c (set_column col vs df) = series c df"
  by (induction col vs df rule: set_column.induct) (simp_all add: series_def)

lemma series_set_column_scalar_other:
  "c \<noteq> col \<Longrightarrow> series c (set_column_scalar col x df) = series c df"
  by (simp add: set_column_scalar_def series_def)

lemma map_Country_Code_set_column_scalar [simp]:
  "map Country_Code (set_column_scalar col x df) = map Country_Code df"
  by (simp add: set_column_scalar_def)

lemma map_DateTime_set_column_scalar [simp]:
  "map DateTime (set_column_scalar col x df) = map DateTime df"
  by (simp add: set_column_scalar_def)

lemma cells_set_column_same:
  assumes "\<forall>v\<in>set vs. P v" and "P None"
  shows "\<forall>r\<in>set (set_column col vs df). P (num r col)"
  using assms by (induction col vs df rule: set_column.induct) simp_all

lemma cells_of_series: "(\<forall>r\<in>set df. P (num r col)) = (\<forall>v\<in>set (series col df). P v)"
  by (simp add: series_def)

text \<open>
  The loop of \<^verbatim>\<open>extend_data\<close> over a list of indicator columns: it succeeds, keeps the
  countries, the dates and every column other than \<open>S1..S9\<close>, and keeps or puts the
  columns \<open>S1..S9\<close> in the unit interval when the raw table is within its ranges.
\<close>

lemma extend_loop_result:
  assumes "set cols \<subseteq> set ci_cols"
  shows "\<exists>d. extend_loop i cols df old_df = Inr d \<and>
      map Country_Code d = map Country_Code df \<and> map DateTime d = map DateTime df \<and>
      (\<forall>col. col \<notin> set si_cols \<longrightarrow> series col d = series col df) \<and>
      ((\<forall>r\<in>set old_df. raw_in_range r) \<longrightarrow>
         (\<forall>col. (\<forall>r\<in>set df. cell_between 0 1 (num r col)) \<or> Inr col \<in> derived_column ` set cols
            \<longrightarrow> (\<forall>r\<in>set d. cell_between 0 1 (num r col))))"
  using assms
proof (induction cols arbitrary: i df)
  case Nil
  then show ?case by simp
next
  case (Cons column cols)
  then have "column \<in> set ci_cols" and sub: "set cols \<subseteq> set ci_cols" by simp_all
  define hf where "hf = (i \<noteq> 8)"
  from transform_step [OF \<open>column \<in> set ci_cols\<close>, of df old_df hf]
  obtain m vs where m: "m \<in> set si_cols" and dc: "derived_column column = Inr m"
    and t: "transform_to_mobility df old_df column hf
        = Inr (set_column m vs (set_column_scalar m (Some 0) df))"
    and u: "(\<forall>r\<in>set old_df. raw_in_range r) \<longrightarrow> (\<forall>v\<in>set vs. cell_between 0 1 v)"
    by blast
  define df' where "df' = set_column m vs (set_column_scalar m (Some 0) df)"
  have step: "extend_loop i (column # cols) df old_df = extend_loop (i + 1) cols df' old_df"
    using t by (cases "i = 8") (simp_all add: hf_def df'_def)
  from Cons.IH [OF sub, of "i + 1" df']
  obtain d where d: "extend_loop (i + 1) cols df' old_df = Inr d"
    "map Country_Code d = map Country_Code df'" "map DateTime d = map DateTime df'"
    "\<forall>col. col \<notin> set si_cols \<longrightarrow> series col d = series col df'"
    "(\<forall>r\<in>set old_df. raw_in_range r) \<longrightarrow>
         (\<forall>col. (\<forall>r\<in>set df'. cell_between 0 1 (num r col)) \<or> Inr col \<in> derived_column ` set cols
            \<longrightarrow> (\<forall>r\<in>set d. cell_between 0 1 (num r col)))"
    by blast
  have a: "map Country_Code d = map Country_Code df" "map DateTime d = map DateTime df"
    using d(2,3) by (simp_all add: df'_def)
  have b: "series col d = series col df" if "col \<notin> set si_cols" for col
  proof -
    from that m have "col \<noteq> m" by blast
    with d(4) that show ?thesis
      by (simp add: df'_def series_set_column_other series_set_column_scalar_other)
  qed
  have c: "\<forall>r\<in>set d. cell_between 0 1 (num r col)"
    if range: "\<forall>r\<in>set old_df. raw_in_range r"
      and old: "(\<forall>r\<in>set df. cell_between 0 1 (num r col))
        \<or> Inr col \<in> derived_column ` set (column # cols)" for col
  proof -
    have "(\<forall>r\<in>set df'. cell_between 0 1 (num r col)) \<or> Inr col \<in> derived_column ` set cols"
    proof (cases "col = m")
      case True
      from u range have "\<forall>v\<in>set vs. cell_between 0 1 v" by blast
      then have "\<forall>r\<in>set df'. cell_between 0 1 (num r col)" unfolding df'_def True
        by (rule cells_set_column_same) (simp add: cell_between_def)
      then show ?thesis ..
    next
      case False
      then have s: "series col df' = series col df"
        by (simp add: df'_def series_set_column_other series_set_column_scalar_other)
      from old show ?thesis
      proof
        assume "\<forall>r\<in>set df. cell_between 0 1 (num r col)"
        with s show ?thesis by (simp add: cells_of_series)
      next
        assume "Inr col \<in> derived_column ` set (column # cols)"
        with dc False show ?thesis by auto
      qed
    qed
    with d(5) range show ?thesis by blast
  qed
  from step d(1) a b c show ?case by auto
qed

lemma derived_columns_ci_cols: "Inr ` set si_cols \<subseteq> derived_column ` set ci_cols"
proof -
  have "map derived_column ci_cols
      = map Inr [''S9'', ''S1'', ''S2'', ''S3'', ''S4'', ''S5'', ''S6'', ''S7'', ''S8'']"
    by (simp add: ci_cols_def derived_column_def idx_of_cols m_id_of_vals)
  then have "derived_column ` set ci_cols
      = Inr ` set [''S9'', ''S1'', ''S2'', ''S3'', ''S4'', ''S5'', ''S6'', ''S7'', ''S8'']"
    by (metis set_map)
  then show ?thesis by (auto simp: si_cols_def)
qed

lemma num_fillna0 [simp]: "fillna0 a \<noteq> None"
  by (cases a) (simp_all add: fillna0_def)

lemma cell_between_fillna0:
  "cell_between lo hi a \<Longrightarrow> lo \<le> 0 \<Longrightarrow> 0 \<le> hi \<Longrightarrow> cell_between lo hi (fillna0 a)"
  by (cases a) (simp_all add: cell_between_def fillna0_def)

text \<open>
  \<^verbatim>\<open>extend_data\<close> succeeds. Its table is sorted by country and date and has no NaN; a
  column other than \<open>S1..S9\<close> and the six seeded ones holds the cells of the input with
  NaN replaced by 0; and \<open>S1..S9\<close> are in the unit interval when the raw table is within
  its ranges.
\<close>

lemma extend_data_result:
  "\<exists>d. extend_data df old_df = Inr d \<and>
     sorted (map (\<lambda>r. (Country_Code r, DateTime r)) d) \<and>
     (\<forall>r\<in>set d. \<forall>col. num r col \<noteq> None) \<and>
     (\<forall>col. col \<notin> set si_cols \<union> set [''mt'', ''Mt'', ''pt'', ''Pt'', ''st'', ''St'']
        \<longrightarrow> (\<forall>r\<in>set d. \<exists>r0\<in>set df. num r col = fillna0 (num r0 col))) \<and>
     ((\<forall>r\<in>set old_df. raw_in_range r)
        \<longrightarrow> (\<forall>r\<in>set d. \<forall>col\<in>set si_cols. cell_between 0 1 (num r col)))"
proof -
  from extend_loop_result [of ci_cols 0 df old_df]
  obtain d1 where d1: "extend_loop 0 ci_cols df old_df = Inr d1"
    "\<forall>col. col \<notin> set si_cols \<longrightarrow> series col d1 = series col df"
    "(\<forall>r\<in>set old_df. raw_in_range r) \<longrightarrow>
         (\<forall>col. (\<forall>r\<in>set df. cell_between 0 1 (num r col)) \<or> Inr col \<in> derived_column ` set ci_cols
            \<longrightarrow> (\<forall>r\<in>set d1. cell_between 0 1 (num r col)))"
    by auto
  define F :: "row \<Rightarrow> row" where "F = (\<lambda>r. r\<lparr>num := (\<lambda>col. fillna0 (num r col))\<rparr>)"
  define S :: "row \<Rightarrow> row" where "S = (\<lambda>r. col_set ''St'' (Some 0) (col_set ''st'' (Some 0)
    (col_set ''Pt'' (Some 0) (col_set ''pt'' (Some 0) (col_set ''Mt'' (Some 0)
    (col_set ''mt'' (Some 0) r))))))"
  define d where "d = map S (sort_values (map F d1))"
  have ed: "extend_data df old_df = Inr d"
    by (simp add: extend_data_def d1(1) Let_def d_def S_def F_def fillna_all_def
        set_column_scalar_def o_def)
  have key: "(\<lambda>r. (Country_Code r, DateTime r)) \<circ> S = (\<lambda>r. (Country_Code r, DateTime r))"
    by (rule ext) (simp add: S_def)
  have sorted: "sorted (map (\<lambda>r. (Country_Code r, DateTime r)) d)"
    unfolding d_def map_map key sort_values_def by (rule sorted_sort_key)
  have rows: "\<exists>r1\<in>set d1. r = S (F r1)" if "r \<in> set d" for r
    using that by (auto simp: d_def sort_values_def)
  have numS: "num (S r) col =
      (if col \<in> set [''mt'', ''Mt'', ''pt'', ''Pt'', ''st'', ''St''] then Some 0 else num r col)"
    for r col by (simp add: S_def)
  have numF: "num (F r) col = fillna0 (num r col)" for r col by (simp add: F_def)
  have nonan: "\<forall>r\<in>set d. \<forall>col. num r col \<noteq> None"
  proof (intro ballI allI)
    fix r col assume "r \<in> set d"
    with rows obtain r1 where "r = S (F r1)" by blast
    then show "num r col \<noteq> None" by (simp add: numS numF del: not_None_eq)
  qed
  have other: "\<forall>r\<in>set d. \<exists>r0\<in>set df. num r col = fillna0 (num r0 col)"
    if "col \<notin> set si_cols \<union> set [''mt'', ''Mt'', ''pt'', ''Pt'', ''st'', ''St'']" for col
  proof
    fix r assume "r \<in> set d"
    with rows obtain r1 where r1: "r1 \<in> set d1" "r = S (F r1)" by blast
    from that d1(2) have "series col d1 = series col df" by simp
    moreover from r1(1) have "num r1 col \<in> set (series col d1)" by (simp add: series_def)
    ultimately have "num r1 col \<in> set (series col df)" by simp
    then obtain r0 where "r0 \<in> set df" "num r1 col = num r0 col" by (auto simp: series_def)
    with r1(2) that show "\<exists>r0\<in>set df. num r col = fillna0 (num r0 col)"
      by (auto simp: numS numF)
  qed
  have unit: "\<forall>r\<in>set d. \<forall>col\<in>set si_cols. cell_between 0 1 (num r col)"
    if range: "\<forall>r\<in>set old_df. raw_in_range r"
  proof (intro ballI)
    fix r col assume "r \<in> set d" "col \<in> set si_cols"
    with rows obtain r1 where r1: "r1 \<in> set d1" "r = S (F r1)" by blast
    from \<open>col \<in> set si_cols\<close> derived_columns_ci_cols
    have "Inr col \<in> derived_column ` set ci_cols" by blast
    with d1(3) range r1(1) have "cell_between 0 1 (num r1 col)" by blast
    then have "cell_between 0 1 (fillna0 (num r1 col))" by (rule cell_between_fillna0) simp_all
    moreover from \<open>col \<in> set si_cols\<close>
    have "col \<notin> set [''mt'', ''Mt'', ''pt'', ''Pt'', ''st'', ''St'']"
      by (auto simp: si_cols_def)
    ultimately show "cell_between 0 1 (num r col)" by (simp add: r1(2) numS numF)
  qed
  from ed sorted nonan other unit show ?thesis by blast
qed

section \<open>Monotone cumulative columns\<close>

lemma filled_cell_from_input:
  assumes "col \<in> set fill_cols" and "j < length (loc_country c df)"
  shows "num (loc_country c (fill_missing_values df) ! j) col \<in> set (series col (loc_country c df))"
proof -
  have "num (loc_country c (fill_missing_values df) ! j) col
      = series col (loc_country c (fill_missing_values df)) ! j"
    using assms(2) by (simp add: series_nth)
  also have "\<dots> = replace_ffill (series col (loc_country c df)) ! j"
    using assms(1) by (simp add: series_fill_missing_values)
  also have "\<dots> \<in> set (replace_ffill (series col (loc_country c df)))"
    using assms(2) by simp
  finally show ?thesis using set_replace_ffill by blast
qed

lemma sum_si_cols_bounds:
  assumes "\<forall>col\<in>set si_cols. 0 \<le> f col \<and> f col \<le> (1::real)"
  shows "0 \<le> (\<Sum>col\<leftarrow>si_cols. f col)" and "(\<Sum>col\<leftarrow>si_cols. f col) \<le> 9"
  using assms by (simp_all add: si_cols_def)

text \<open>
  On a table whose \<open>S1..S9\<close> are numbers of the unit interval and whose stringency index
  is a number that is not negative, each of \<open>Pt\<close>, \<open>Mt\<close>, \<open>St\<close> of a filled country grows
  from each row to the next.
\<close>

lemma fill_monotone:
  fixes c :: string and d :: dataframe
  defines "out \<equiv> loc_country c (fill_missing_values d)"
  assumes unit: "\<forall>r\<in>set (loc_country c d). \<forall>col\<in>set si_cols.
      \<exists>v. num r col = Some v \<and> 0 \<le> v \<and> v \<le> 1"
    and si: "\<forall>r\<in>set (loc_country c d). \<exists>v. num r ''StringencyIndex'' = Some v \<and> 0 \<le> v"
    and i: "Suc i < length out"
    and col: "col \<in> set [''Mt'', ''Pt'', ''St'']"
  shows "\<exists>a b. num (out ! i) col = Some a \<and> num (out ! Suc i) col = Some b \<and> a \<le> b"
proof -
  have nums: "\<forall>r\<in>set (loc_country c d). \<forall>col\<in>set (''StringencyIndex'' # si_cols). num r col \<noteq> None"
    using unit si by fastforce
  have len: "length out = length (loc_country c d)" by (simp add: out_def)
  note t0 = derived_cells [OF nums, of i, folded out_def]
  note t1 = derived_cells [OF nums, of "Suc i", folded out_def, OF i]
  from i have i0: "i < length out" by simp
  have S: "0 \<le> the (num (out ! Suc i) k) \<and> the (num (out ! Suc i) k) \<le> 1"
    if "k \<in> set si_cols" for k
  proof -
    from that have "k \<in> set fill_cols" using si_cols_fill_cols by blast
    from filled_cell_from_input [OF this, of "Suc i" c d] i len
    have "num (out ! Suc i) k \<in> set (series k (loc_country c d))" by (simp add: out_def)
    then obtain r where "r \<in> set (loc_country c d)" "num (out ! Suc i) k = num r k"
      by (auto simp: series_def)
    with unit that show ?thesis by fastforce
  qed
  have I: "0 \<le> the (num (out ! Suc i) ''StringencyIndex'')"
  proof -
    have "''StringencyIndex'' \<in> set fill_cols" by (simp add: fill_cols_def)
    from filled_cell_from_input [OF this, of "Suc i" c d] i len
    have "num (out ! Suc i) ''StringencyIndex'' \<in> set (series ''StringencyIndex'' (loc_country c d))"
      by (simp add: out_def)
    then obtain r where "r \<in> set (loc_country c d)"
      "num (out ! Suc i) ''StringencyIndex'' = num r ''StringencyIndex''"
      by (auto simp: series_def)
    with si show ?thesis by fastforce
  qed
  from t1 have pt: "the (num (out ! Suc i) ''pt'') = (\<Sum>k\<leftarrow>si_cols. the (num (out ! Suc i) k)) / 9"
    and mt: "the (num (out ! Suc i) ''mt'') = 1 - the (num (out ! Suc i) ''pt'')"
    and st: "the (num (out ! Suc i) ''st'') = the (num (out ! Suc i) ''StringencyIndex'') / 100"
    by simp_all
  from sum_si_cols_bounds [of "\<lambda>k. the (num (out ! Suc i) k)"] S
  have "0 \<le> (\<Sum>k\<leftarrow>si_cols. the (num (out ! Suc i) k))"
    "(\<Sum>k\<leftarrow>si_cols. the (num (out ! Suc i) k)) \<le> 9" by blast+
  with pt have p: "0 \<le> the (num (out ! Suc i) ''pt'')" "the (num (out ! Suc i) ''pt'') \<le> 1"
    by simp_all
  with mt have m: "0 \<le> the (num (out ! Suc i) ''mt'')" by simp
  from st I have s: "0 \<le> the (num (out ! Suc i) ''st'')" by simp
  from col consider "col = ''Mt''" | "col = ''Pt''" | "col = ''St''" by auto
  then show ?thesis
  proof cases
    case 1
    from t0 [OF i0] t1 have "num (out ! i) ''Mt'' = Some (\<Sum>j\<le>i. the (num (out ! j) ''mt''))"
      "num (out ! Suc i) ''Mt'' = Some (\<Sum>j\<le>Suc i. the (num (out ! j) ''mt''))" by blast+
    with m 1 show ?thesis by simp
  next
    case 2
    from t0 [OF i0] t1 have "num (out ! i) ''Pt'' = Some (\<Sum>j\<le>i. the (num (out ! j) ''pt''))"
      "num (out ! Suc i) ''Pt'' = Some (\<Sum>j\<le>Suc i. the (num (out ! j) ''pt''))" by blast+
    with p 2 show ?thesis by simp
  next
    case 3
    from t0 [OF i0] t1 have "num (out ! i) ''St'' = Some (\<Sum>j\<le>i. the (num (out ! j) ''st''))"
      "num (out ! Suc i) ''St'' = Some (\<Sum>j\<le>Suc i. the (num (out ! j) ''st''))" by blast+
    with s 3 show ?thesis by simp
  qed
qed

lemma length_loc_country_cong:
  "map Country_Code a = map Country_Code b \<Longrightarrow> length (loc_country c a) = length (loc_country c b)"
proof (induction a arbitrary: b)
  case Nil
  then show ?case by simp
next
  case (Cons x a)
  then obtain y b' where "b = y # b'" by (cases b) auto
  with Cons show ?case by (auto simp: loc_country_def)
qed

lemma extend_data_rows:
  assumes "extend_data df old_df = Inr d"
  shows "length (loc_country c d) = length (loc_country c df)"
proof -
  from extend_loop_result [of ci_cols 0 df old_df]
  obtain d1 where d1: "extend_loop 0 ci_cols df old_df = Inr d1"
    "map Country_Code d1 = map Country_Code df"
    by auto
  define F :: "row \<Rightarrow> row" where "F = (\<lambda>r. r\<lparr>num := (\<lambda>col. fillna0 (num r col))\<rparr>)"
  define S :: "row \<Rightarrow> row" where "S = (\<lambda>r. col_set ''St'' (Some 0) (col_set ''st'' (Some 0)
    (col_set ''Pt'' (Some 0) (col_set ''pt'' (Some 0) (col_set ''Mt'' (Some 0)
    (col_set ''mt'' (Some 0) r))))))"
  have "extend_data df old_df = Inr (map S (sort_values (map F d1)))"
    by (simp add: extend_data_def d1(1) Let_def S_def F_def fillna_all_def
        set_column_scalar_def o_def)
  with assms have d: "d = map S (sort_values (map F d1))" by simp
  have "loc_country c d = map S (loc_country c (sort_values (map F d1)))"
    unfolding d by (rule loc_country_map) (simp add: S_def)
  also have "loc_country c (sort_values (map F d1)) = sort_values (loc_country c (map F d1))"
    by (simp add: loc_country_def sort_values_def filter_sort)
  also have "loc_country c (map F d1) = map F (loc_country c d1)"
    by (rule loc_country_map) (simp add: F_def)
  finally have "length (loc_country c d) = length (loc_country c d1)"
    by (simp add: sort_values_def)
  with length_loc_country_cong [OF d1(2)] show ?thesis by simp
qed

lemma sorted_dates_country:
  assumes "sorted (map (\<lambda>r. (Country_Code r, DateTime r)) d)"
  shows "sorted (map DateTime (loc_country c d))"
proof -
  from assms have "sorted (map (\<lambda>r. (Country_Code r, DateTime r)) (loc_country c d))"
    unfolding loc_country_def by (rule sorted_filter)
  then have "sorted_wrt (\<lambda>a b. (Country_Code a, DateTime a) \<le> (Country_Code b, DateTime b))
      (loc_country c d)"
    by (simp add: sorted_map)
  then have "sorted_wrt (\<lambda>a b. DateTime a \<le> DateTime b) (loc_country c d)"
  proof (rule sorted_wrt_mono_rel [rotated])
    fix a b assume "a \<in> set (loc_country c d)" "b \<in> set (loc_country c d)"
      "(Country_Code a, DateTime a) \<le> (Country_Code b, DateTime b)"
    then show "DateTime a \<le> DateTime b" by (auto simp: loc_country_def less_eq_prod_def)
  qed
  then show ?thesis by (simp add: sorted_map)
qed

lemma map_DateTime_fill_country [simp]: "map DateTime (fill_country c df) = map DateTime df"
  by (simp add: fill_country_def Let_def)

lemma map_DateTime_loc_country_fill_missing_values [simp]:
  "map DateTime (loc_country c (fill_missing_values df)) = map DateTime (loc_country c df)"
  by (simp add: loc_country_fill_missing_values)

lemma cell_between_number:
  "cell_between lo hi a \<Longrightarrow> a \<noteq> None \<Longrightarrow> \<exists>v. a = Some v \<and> lo \<le> v \<and> v \<le> hi"
  by (cases a) (simp_all add: cell_between_def)

text \<open>
  C6: when every raw ordinal is within the range of its indicator, every flag is 0 or 1
  and the stringency index is between 0 and 100 (a missing reading is allowed),
  \<^verbatim>\<open>extend_data\<close> followed by the filler gives a table in which, for every country, the
  rows are in date order and each of \<open>Mt\<close>, \<open>Pt\<close>, \<open>St\<close> is a number on every row that is
  at least the number of the row before. \<^verbatim>\<open>extend_data\<close> keeps the number of rows of each
  country.
\<close>

theorem cumulative_columns_monotone:
  assumes raw: "\<forall>r\<in>set old_df. raw_in_range r"
    and str: "\<forall>r\<in>set df. stringency_in_range r"
  shows "\<exists>d. extend_data df old_df = Inr d \<and>
    (\<forall>c. length (loc_country c (fill_missing_values d)) = length (loc_country c df)) \<and>
    (\<forall>c. sorted (map DateTime (loc_country c (fill_missing_values d)))) \<and>
    (\<forall>c col i. col \<in> set [''Mt'', ''Pt'', ''St''] \<longrightarrow>
       Suc i < length (loc_country c (fill_missing_values d)) \<longrightarrow>
       (\<exists>a b. num (loc_country c (fill_missing_values d) ! i) col = Some a \<and>
          num (loc_country c (fill_missing_values d) ! Suc i) col = Some b \<and> a \<le> b))"
proof -
  from extend_data_result [of df old_df] raw
  obtain d where d: "extend_data df old_df = Inr d"
    "sorted (map (\<lambda>r. (Country_Code r, DateTime r)) d)"
    "\<forall>r\<in>set d. \<forall>col. num r col \<noteq> None"
    "\<forall>col. col \<notin> set si_cols \<union> set [''mt'', ''Mt'', ''pt'', ''Pt'', ''st'', ''St'']
        \<longrightarrow> (\<forall>r\<in>set d. \<exists>r0\<in>set df. num r col = fillna0 (num r0 col))"
    "\<forall>r\<in>set d. \<forall>col\<in>set si_cols. cell_between 0 1 (num r col)"
    by blast
  have sub: "set (loc_country c d) \<subseteq> set d" for c by (auto simp: loc_country_def)
  have unit: "\<forall>r\<in>set (loc_country c d). \<forall>col\<in>set si_cols.
      \<exists>v. num r col = Some v \<and> 0 \<le> v \<and> v \<le> 1" for c
  proof (intro ballI)
    fix r col assume "r \<in> set (loc_country c d)" "col \<in> set si_cols"
    with sub have "r \<in> set d" by blast
    with d(3,5) \<open>col \<in> set si_cols\<close> show "\<exists>v. num r col = Some v \<and> 0 \<le> v \<and> v \<le> 1"
      by (intro cell_between_number) blast+
  qed
  have si: "\<forall>r\<in>set (loc_country c d). \<exists>v. num r ''StringencyIndex'' = Some v \<and> 0 \<le> v" for c
  proof
    fix r assume "r \<in> set (loc_country c d)"
    with sub have r: "r \<in> set d" by blast
    have "''StringencyIndex'' \<notin> set si_cols \<union> set [''mt'', ''Mt'', ''pt'', ''Pt'', ''st'', ''St'']"
      by (simp add: si_cols_def)
    with d(4) r obtain r0 where r0: "r0 \<in> set df"
      "num r ''StringencyIndex'' = fillna0 (num r0 ''StringencyIndex'')" by blast
    from str r0(1) have "cell_between 0 100 (num r0 ''StringencyIndex'')"
      by (simp add: stringency_in_range_def)
    then have "cell_between 0 100 (fillna0 (num r0 ''StringencyIndex''))"
      by (rule cell_between_fillna0) simp_all
    from cell_between_number [OF this] r0(2)
    show "\<exists>v. num r ''StringencyIndex'' = Some v \<and> 0 \<le> v" by auto
  qed
  have len: "length (loc_country c (fill_missing_values d)) = length (loc_country c df)" for c
    using extend_data_rows [OF d(1)] by simp
  have dates: "sorted (map DateTime (loc_country c (fill_missing_values d)))" for c
    using sorted_dates_country [OF d(2)] by simp
  have mono: "\<exists>a b. num (loc_country c (fill_missing_values d) ! i) col = Some a \<and>
          num (loc_country c (fill_missing_values d) ! Suc i) col = Some b \<and> a \<le> b"
    if "col \<in> set [''Mt'', ''Pt'', ''St'']" "Suc i < length (loc_country c (fill_missing_values d))"
    for c col i
    using unit si that(2,1) by (rule fill_monotone)
  from d(1) len dates mono show ?thesis by blast
qed

theorem cumulative_columns_monotone_witness:
  "\<exists>d. extend_data raw_table_example raw_table_example = Inr d \<and>
     length (loc_country ''ABW'' (fill_missing_values d)) = 2 \<and>
     sorted (map DateTime (loc_country ''ABW'' (fill_missing_values d))) \<and>
     (\<exists>a b. num (loc_country ''ABW'' (fill_missing_values d) ! 0) ''Mt'' = Some a \<and>
        num (loc_country ''ABW'' (fill_missing_values d) ! 1) ''Mt'' = Some b \<and> a \<le> b) \<and>
     (\<exists>a b. num (loc_country ''ABW'' (fill_missing_values d) ! 0) ''Pt'' = Some a \<and>
        num (loc_country ''ABW'' (fill_missing_values d) ! 1) ''Pt'' = Some b \<and> a \<le> b) \<and>
     (\<exists>a b. num (loc_country ''ABW'' (fill_missing_values d) ! 0) ''St'' = Some a \<and>
        num (loc_country ''ABW'' (fill_missing_values d) ! 1) ''St'' = Some b \<and> a \<le> b)"
proof -
  have raw: "\<forall>r\<in>set raw_table_example. raw_in_range r"
    by (simp add: raw_table_example_def mk_row_def raw_in_range_def cell_between_def flag_ok_def
        COL_c1_def COL_c2_def COL_c3_def COL_c4_def COL_c5_def COL_c6_def COL_c7_def COL_c8_def
        COL_h1_def)
  have str: "\<forall>r\<in>set raw_table_example. stringency_in_range r"
    by (simp add: raw_table_example_def mk_row_def stringency_in_range_def cell_between_def)
  have two: "length (loc_country ''ABW'' raw_table_example) = 2"
    by (simp add: raw_table_example_def mk_row_def loc_country_def)
  from cumulative_columns_monotone [OF raw str]
  obtain d where d: "extend_data raw_table_example raw_table_example = Inr d"
    "\<forall>c. length (loc_country c (fill_missing_values d)) = length (loc_country c raw_table_example)"
    "\<forall>c. sorted (map DateTime (loc_country c (fill_missing_values d)))"
    "\<forall>c col i. col \<in> set [''Mt'', ''Pt'', ''St''] \<longrightarrow>
       Suc i < length (loc_country c (fill_missing_values d)) \<longrightarrow>
       (\<exists>a b. num (loc_country c (fill_missing_values d) ! i) col = Some a \<and>
          num (loc_country c (fill_missing_values d) ! Suc i) col = Some b \<and> a \<le> b)"
    by blast
  from d(2) two have l: "length (loc_country ''ABW'' (fill_missing_values d)) = 2" by simp
  then have s: "Suc 0 < length (loc_country ''ABW'' (fill_missing_values d))" by simp
  from d(4) [rule_format, of "''Mt''" 0 "''ABW''", OF _ s]
  have m: "\<exists>a b. num (loc_country ''ABW'' (fill_missing_values d) ! 0) ''Mt'' = Some a \<and>
        num (loc_country ''ABW'' (fill_missing_values d) ! 1) ''Mt'' = Some b \<and> a \<le> b" by simp
  from d(4) [rule_format, of "''Pt''" 0 "''ABW''", OF _ s]
  have p: "\<exists>a b. num (loc_country ''ABW'' (fill_missing_values d) ! 0) ''Pt'' = Some a \<and>
        num (loc_country ''ABW'' (fill_missing_values d) ! 1) ''Pt'' = Some b \<and> a \<le> b" by simp
  from d(4) [rule_format, of "''St''" 0 "''ABW''", OF _ s]
  have t: "\<exists>a b. num (loc_country ''ABW'' (fill_missing_values d) ! 0) ''St'' = Some a \<and>
        num (loc_country ''ABW'' (fill_missing_values d) ! 1) ''St'' = Some b \<and> a \<le> b" by simp
  from d(1) l d(3) m p t show ?thesis by blast
qed

section \<open>Days since the first case\<close>

lemma pad_nonzero: "v \<noteq> Some 0 \<Longrightarrow> Some 0 \<notin> set (pad v xs)"
  by (induction xs arbitrary: v) auto

lemma pad_nonzero_persists:
  "pad v xs ! j \<noteq> Some 0 \<Longrightarrow> j \<le> i \<Longrightarrow> i < length xs \<Longrightarrow> pad v xs ! i \<noteq> Some 0"
proof (induction xs arbitrary: v i j)
  case Nil
  then show ?case by simp
next
  case (Cons x xs)
  show ?case
  proof (cases "x = Some 0")
    case True
    show ?thesis
    proof (cases j)
      case 0
      with Cons.prems True have "v \<noteq> Some 0" by simp
      then have "Some 0 \<notin> set (pad v (x # xs))" by (rule pad_nonzero)
      moreover from Cons.prems have "pad v (x # xs) ! i \<in> set (pad v (x # xs))"
        by (intro nth_mem) simp
      ultimately show ?thesis by metis
    next
      case (Suc j')
      with Cons.prems obtain i' where i: "i = Suc i'" by (cases i) auto
      with Cons.prems Suc True Cons.IH [of v j' i'] show ?thesis by simp
    qed
  next
    case False
    then have "Some 0 \<notin> set (pad x xs)" by (rule pad_nonzero)
    with False have "Some 0 \<notin> set (pad v (x # xs))" by simp
    moreover from Cons.prems have "pad v (x # xs) ! i \<in> set (pad v (x # xs))"
      by (intro nth_mem) simp
    ultimately show ?thesis by metis
  qed
qed

lemma replace_ffill_nonzero_persists:
  assumes "replace_ffill xs ! j \<noteq> Some 0" "j \<le> i" "i < length xs"
  shows "replace_ffill xs ! i \<noteq> Some 0"
proof (cases xs)
  case Nil
  with assms show ?thesis by simp
next
  case (Cons x xs')
  then have "replace_ffill xs = pad x xs" by (simp add: replace_ffill_def)
  with assms pad_nonzero_persists [of x xs j i] show ?thesis by simp
qed

text \<open>
  In a forward-filled series of numbers that are not negative, the entries after a positive
  entry are positive.
\<close>

lemma filled_positive_persists:
  assumes nonneg: "\<forall>x\<in>set xs. \<exists>v. x = Some v \<and> 0 \<le> v"
    and j: "replace_ffill xs ! j = Some u" "0 < u" and ji: "j \<le> i" "i < length xs"
  shows "\<exists>v. replace_ffill xs ! i = Some v \<and> 0 < v"
proof -
  from j have "replace_ffill xs ! j \<noteq> Some 0" by simp
  from replace_ffill_nonzero_persists [OF this ji]
  have nz: "replace_ffill xs ! i \<noteq> Some 0" .
  from ji have "replace_ffill xs ! i \<in> set (replace_ffill xs)" by simp
  with set_replace_ffill have "replace_ffill xs ! i \<in> set xs" by blast
  with nonneg obtain v where "replace_ffill xs ! i = Some v" "0 \<le> v" by blast
  with nz show ?thesis by (cases "v = 0") auto
qed

lemma min_list_attained:
  "xs \<noteq> [] \<Longrightarrow> min_list xs \<in> set xs \<and> (\<forall>x\<in>set xs. min_list xs \<le> (x::int))"
  by (simp add: min_list_Min)


lemma cases_positive_cell:
  "cases_positive r = (\<exists>v. num r ''ConfirmedCases'' = Some v \<and> 0 < v)"
  by (cases "num r ''ConfirmedCases''") (simp_all add: cases_positive_def)

text \<open>
  The day counts of one country after the filler, the population join and the feature
  synthesizer, for a country whose confirmed cases are numbers that are not negative and
  whose rows are in date order: \<open>j\<close> is a row of the earliest date with a positive count.
\<close>

lemma days_count_cells:
  fixes c :: string and df :: dataframe and wp :: "string \<Rightarrow> cell"
  defines "out \<equiv> loc_country c
    (create_features (add_world_population_data wp (fill_missing_values df)))"
  assumes nonneg: "\<forall>r\<in>set (loc_country c df). \<exists>v. num r ''ConfirmedCases'' = Some v \<and> 0 \<le> v"
    and dates: "sorted (map DateTime (loc_country c df))"
  shows "map DateTime out = map DateTime (loc_country c df)"
    and "series ''ConfirmedCases'' out = replace_ffill (series ''ConfirmedCases'' (loc_country c df))"
    and "j < length out \<Longrightarrow> cases_positive (out ! j) \<Longrightarrow>
      \<forall>k<length out. cases_positive (out ! k) \<longrightarrow> DateTime (out ! j) \<le> DateTime (out ! k) \<Longrightarrow>
      i < length out \<Longrightarrow>
      num (out ! i) ''DaysCountFromFirstCase''
        = Some (if DateTime (out ! j) \<le> DateTime (out ! i)
                then of_int (DateTime (out ! i) - DateTime (out ! j)) else 0)"
    and "\<forall>k<length out. \<not> cases_positive (out ! k) \<Longrightarrow> i < length out \<Longrightarrow>
      num (out ! i) ''DaysCountFromFirstCase'' = Some 0"
proof -
  define T where "T = add_world_population_data wp (fill_missing_values df)"
  define rs where "rs = loc_country c T"
  define xs where "xs = series ''ConfirmedCases'' (loc_country c df)"
  define m where "m = min_list (map DateTime (filter cases_positive rs))"
  have out: "out = loc_country c (create_features T)" by (simp add: out_def T_def)
  have rs: "rs = map (\<lambda>r. col_set ''Population'' (wp (Country_Code r)) r)
      (loc_country c (fill_missing_values df))"
    unfolding rs_def T_def loc_country_add_world_population_data
    by (simp add: add_world_population_data_def)
  have dt_rs: "map DateTime rs = map DateTime (loc_country c df)"
    by (simp add: rs o_def)
  have cc_rs: "series ''ConfirmedCases'' rs = replace_ffill xs"
  proof -
    have "series ''ConfirmedCases'' rs
        = series ''ConfirmedCases'' (loc_country c (fill_missing_values df))"
      by (simp add: rs series_def)
    also have "\<dots> = replace_ffill xs"
      unfolding xs_def by (rule series_fill_missing_values) (simp add: fill_cols_def)
    finally show ?thesis .
  qed
  have dt_out: "map DateTime out = map DateTime rs"
    unfolding out rs_def by (rule create_features_series(12))
  have cc_out: "series ''ConfirmedCases'' out = series ''ConfirmedCases'' rs"
    unfolding out rs_def by (rule create_features_series(11)) simp
  have dc_out: "series ''DaysCountFromFirstCase'' out =
      map (\<lambda>r. if cases_positive r then Some (of_int (DateTime r - m)) else Some 0) rs"
    unfolding out rs_def m_def by (rule create_features_series(6))
  show A: "map DateTime out = map DateTime (loc_country c df)" by (simp add: dt_out dt_rs)
  show B: "series ''ConfirmedCases'' out
      = replace_ffill (series ''ConfirmedCases'' (loc_country c df))"
    by (simp add: cc_out cc_rs xs_def)
  have len: "length out = length rs" "length rs = length (loc_country c df)"
    "length xs = length (loc_country c df)"
    using dt_out dt_rs by (metis length_map, metis length_map, simp add: xs_def)
  have dt: "DateTime (out ! k) = DateTime (rs ! k)" if "k < length out" for k
    using that len arg_cong [OF dt_out, of "\<lambda>l. l ! k"] by simp
  have pos_rs: "cases_positive (rs ! k) = (\<exists>v. replace_ffill xs ! k = Some v \<and> 0 < v)"
    if "k < length out" for k
    using that len arg_cong [OF cc_rs, of "\<lambda>l. l ! k"]
    by (simp add: cases_positive_cell series_nth)
  have pos: "cases_positive (out ! k) = cases_positive (rs ! k)" if "k < length out" for k
    using that len arg_cong [OF cc_out, of "\<lambda>l. l ! k"]
    by (simp add: cases_positive_cell series_nth)
  have cell: "num (out ! k) ''DaysCountFromFirstCase''
      = (if cases_positive (rs ! k) then Some (of_int (DateTime (rs ! k) - m)) else Some 0)"
    if "k < length out" for k
    using that len arg_cong [OF dc_out, of "\<lambda>l. l ! k"] by (simp add: series_nth)
  have nn: "\<forall>x\<in>set xs. \<exists>v. x = Some v \<and> 0 \<le> v"
    using nonneg by (auto simp: xs_def series_def)
  have sorted_rs: "DateTime (rs ! a) \<le> DateTime (rs ! b)" if "a \<le> b" "b < length rs" for a b
  proof -
    from dates dt_rs have "sorted (map DateTime rs)" by simp
    from sorted_nth_mono [OF this, of a b] that show ?thesis by simp
  qed
  show "num (out ! i) ''DaysCountFromFirstCase''
        = Some (if DateTime (out ! j) \<le> DateTime (out ! i)
                then of_int (DateTime (out ! i) - DateTime (out ! j)) else 0)"
    if j: "j < length out" and pj: "cases_positive (out ! j)"
      and first: "\<forall>k<length out. cases_positive (out ! k) \<longrightarrow> DateTime (out ! j) \<le> DateTime (out ! k)"
      and i: "i < length out"
  proof -
    from pj j have pj': "cases_positive (rs ! j)" by (simp add: pos)
    with j len have mem: "rs ! j \<in> set (filter cases_positive rs)" by simp
    then have "filter cases_positive rs \<noteq> []" by (metis empty_iff list.set(1))
    then have ne: "map DateTime (filter cases_positive rs) \<noteq> []" by simp
    from min_list_attained [OF ne]
    have m_in: "m \<in> set (map DateTime (filter cases_positive rs))"
      and m_le: "\<forall>x\<in>set (map DateTime (filter cases_positive rs)). m \<le> x"
      unfolding m_def by blast+
    from m_le mem have "m \<le> DateTime (rs ! j)" by simp
    moreover have "DateTime (rs ! j) \<le> m"
    proof -
      from m_in obtain r where "r \<in> set rs" "cases_positive r" "m = DateTime r" by auto
      then obtain k where "k < length rs" "rs ! k = r" by (auto simp: in_set_conv_nth)
      with first len \<open>cases_positive r\<close> \<open>m = DateTime r\<close> j show ?thesis
        by (auto simp: pos dt)
    qed
    ultimately have m: "m = DateTime (rs ! j)" by simp
    show ?thesis
    proof (cases "cases_positive (rs ! i)")
      case True
      with first i have "DateTime (out ! j) \<le> DateTime (out ! i)" by (simp add: pos)
      with True i j show ?thesis by (simp add: cell m dt)
    next
      case False
      have "i < j"
      proof (rule ccontr)
        assume "\<not> i < j"
        then have ji: "j \<le> i" by simp
        from pj' j obtain u where "replace_ffill xs ! j = Some u" "0 < u"
          by (auto simp: pos_rs)
        from filled_positive_persists [OF nn this ji] i len
        have "\<exists>v. replace_ffill xs ! i = Some v \<and> 0 < v" by simp
        with False i show False by (simp add: pos_rs)
      qed
      with sorted_rs [of i j] j len have "DateTime (rs ! i) \<le> DateTime (rs ! j)" by simp
      with False i j show ?thesis by (simp add: cell dt)
    qed
  qed
  show "num (out ! i) ''DaysCountFromFirstCase'' = Some 0"
    if "\<forall>k<length out. \<not> cases_positive (out ! k)" and "i < length out"
    using that by (simp add: cell pos)
qed


text \<open>
  C4: after the filler, the population join and the feature synthesizer, for a country
  whose confirmed cases are numbers that are not negative and whose rows are in date
  order: when \<open>j\<close> is a row of the earliest date with \<open>ConfirmedCases > 0\<close>, every row from
  that date onward has the number of days since that date in \<open>DaysCountFromFirstCase\<close>
  and every row before it has 0; when no row of the country has \<open>ConfirmedCases > 0\<close>,
  every row has 0. The synthesizer keeps the dates and the filled counts.
\<close>

theorem days_count_from_first_case:
  fixes c :: string and df :: dataframe and wp :: "string \<Rightarrow> cell"
  defines "out \<equiv> loc_country c
    (create_features (add_world_population_data wp (fill_missing_values df)))"
  assumes nonneg: "\<forall>r\<in>set (loc_country c df). \<exists>v. num r ''ConfirmedCases'' = Some v \<and> 0 \<le> v"
    and dates: "sorted (map DateTime (loc_country c df))"
  shows "(\<forall>j<length out. cases_positive (out ! j) \<longrightarrow>
       (\<forall>k<length out. cases_positive (out ! k) \<longrightarrow> DateTime (out ! j) \<le> DateTime (out ! k)) \<longrightarrow>
       (\<forall>i<length out. num (out ! i) ''DaysCountFromFirstCase''
          = Some (if DateTime (out ! j) \<le> DateTime (out ! i)
                  then of_int (DateTime (out ! i) - DateTime (out ! j)) else 0))) \<and>
    ((\<forall>k<length out. \<not> cases_positive (out ! k)) \<longrightarrow>
       (\<forall>i<length out. num (out ! i) ''DaysCountFromFirstCase'' = Some 0)) \<and>
    map DateTime out = map DateTime (loc_country c df) \<and>
    series ''ConfirmedCases'' out = replace_ffill (series ''ConfirmedCases'' (loc_country c df))"
  using days_count_cells [OF nonneg dates, where wp = wp] unfolding out_def by blast

lemma less_5_cases: "k < 5 \<Longrightarrow> k = 0 \<or> k = 1 \<or> k = 2 \<or> k = 3 \<or> k = (4::nat)"
  by arith

theorem days_count_from_first_case_witness:
  "series ''ConfirmedCases'' (loc_country ''X'' table_example)
     = [Some 0, Some 0, Some 5, Some 5, Some 12] \<and>
   map DateTime (loc_country ''X'' table_example) = [18290, 18291, 18292, 18293, 18294] \<and>
   map (\<lambda>i. num (loc_country ''X'' (create_features (add_world_population_data (\<lambda>c. None)
      (fill_missing_values table_example))) ! i) ''DaysCountFromFirstCase'') [0, 1, 2, 3, 4]
     = [Some 0, Some 0, Some 0, Some 1, Some 2]"
proof -
  define out where "out = loc_country ''X'' (create_features
    (add_world_population_data (\<lambda>c. None) (fill_missing_values table_example)))"
  have cc: "series ''ConfirmedCases'' (loc_country ''X'' table_example)
     = [Some 0, Some 0, Some 5, Some 5, Some 12]" by (rule table_example_X(4))
  have dt: "map DateTime (loc_country ''X'' table_example) = [18290, 18291, 18292, 18293, 18294]"
    by (simp add: loc_country_X_table_example mk_row0_def)
  have nonneg: "\<forall>r\<in>set (loc_country ''X'' table_example).
      \<exists>v. num r ''ConfirmedCases'' = Some v \<and> 0 \<le> v"
    by (simp add: loc_country_X_table_example num_mk_row0_eq)
  have dates: "sorted (map DateTime (loc_country ''X'' table_example))"
    by (simp add: dt)
  note t = days_count_from_first_case [OF nonneg dates, where wp = "\<lambda>c. None", folded out_def]
  from t have dto: "map DateTime out = [18290, 18291, 18292, 18293, 18294]" by (simp add: dt)
  from t have cco: "series ''ConfirmedCases'' out = [Some 0, Some 0, Some 5, Some 5, Some 12]"
    by (simp add: cc replace_ffill_def)
  have len: "length out = 5" using arg_cong [OF dto, of length] by simp
  have date: "DateTime (out ! k) = [18290, 18291, 18292, 18293, 18294] ! k" if "k < 5" for k
    using that len arg_cong [OF dto, of "\<lambda>l. l ! k"] by simp
  have cell: "num (out ! k) ''ConfirmedCases'' = [Some 0, Some 0, Some 5, Some 5, Some 12] ! k"
    if "k < 5" for k
    using that len arg_cong [OF cco, of "\<lambda>l. l ! k"] by (simp add: series_nth)
  have pos: "\<not> cases_positive (out ! 0)" "\<not> cases_positive (out ! 1)" "cases_positive (out ! 2)"
    "cases_positive (out ! 3)" "cases_positive (out ! 4)"
    by (simp_all add: cases_positive_def cell)
  have d: "DateTime (out ! 0) = 18290" "DateTime (out ! 1) = 18291" "DateTime (out ! 2) = 18292"
    "DateTime (out ! 3) = 18293" "DateTime (out ! 4) = 18294"
    by (simp_all add: date)
  have first: "\<forall>k<length out. cases_positive (out ! k) \<longrightarrow> DateTime (out ! 2) \<le> DateTime (out ! k)"
  proof (intro allI impI)
    fix k assume "k < length out" "cases_positive (out ! k)"
    with len less_5_cases [of k] pos d show "DateTime (out ! 2) \<le> DateTime (out ! k)" by auto
  qed
  from t len pos(3) first
  have r: "\<forall>i<5. num (out ! i) ''DaysCountFromFirstCase''
      = Some (if DateTime (out ! 2) \<le> DateTime (out ! i)
              then of_int (DateTime (out ! i) - DateTime (out ! 2)) else 0)"
    by simp
  have "num (out ! 0) ''DaysCountFromFirstCase'' = Some 0"
    "num (out ! 1) ''DaysCountFromFirstCase'' = Some 0"
    "num (out ! 2) ''DaysCountFromFirstCase'' = Some 0"
    "num (out ! 3) ''DaysCountFromFirstCase'' = Some 1"
    "num (out ! 4) ''DaysCountFromFirstCase'' = Some 2"
    using r [rule_format, of 0] r [rule_format, of 1] r [rule_format, of 2] r [rule_format, of 3]
      r [rule_format, of 4] d
    by simp_all
  with cc dt show ?thesis unfolding out_def by simp
qed


text \<open>
  The pipeline establishes the two conditions: in \<^verbatim>\<open>process_data\<close> the filler, the join
  and the synthesizer run on the table of \<^verbatim>\<open>extend_data\<close>, in which the rows of every
  country are in date order and the confirmed cases are numbers, not negative when those
  of the input are not negative or missing.
\<close>

lemma process_data_days_count_conditions:
  assumes "\<forall>r\<in>set df. case num r ''ConfirmedCases'' of None \<Rightarrow> True | Some v \<Rightarrow> 0 \<le> v"
  shows "\<exists>d. extend_data df old_df = Inr d \<and>
    process_data wp df old_df
      = Inr (create_features (add_world_population_data wp (fill_missing_values d))) \<and>
    (\<forall>c. (\<forall>r\<in>set (loc_country c d). \<exists>v. num r ''ConfirmedCases'' = Some v \<and> 0 \<le> v) \<and>
         sorted (map DateTime (loc_country c d)))"
proof -
  from extend_data_result [of df old_df]
  obtain d where d: "extend_data df old_df = Inr d"
    "sorted (map (\<lambda>r. (Country_Code r, DateTime r)) d)"
    "\<forall>col. col \<notin> set si_cols \<union> set [''mt'', ''Mt'', ''pt'', ''Pt'', ''st'', ''St'']
        \<longrightarrow> (\<forall>r\<in>set d. \<exists>r0\<in>set df. num r col = fillna0 (num r0 col))"
    by blast
  have p: "process_data wp df old_df
      = Inr (create_features (add_world_population_data wp (fill_missing_values d)))"
    by (simp add: process_data_def d(1))
  have cc: "\<exists>v. num r ''ConfirmedCases'' = Some v \<and> 0 \<le> v" if "r \<in> set (loc_country c d)" for r c
  proof -
    from that have r: "r \<in> set d" by (simp add: loc_country_def)
    have "''ConfirmedCases'' \<notin> set si_cols \<union> set [''mt'', ''Mt'', ''pt'', ''Pt'', ''st'', ''St'']"
      by (simp add: si_cols_def)
    with d(3) r obtain r0 where r0: "r0 \<in> set df"
      "num r ''ConfirmedCases'' = fillna0 (num r0 ''ConfirmedCases'')" by blast
    with assms show ?thesis
      by (cases "num r0 ''ConfirmedCases''") (auto simp: fillna0_def)
  qed
  from d(1) p cc sorted_dates_country [OF d(2)] show ?thesis by blast
qed

text \<open>
  Without the filler the synthesizer sets the day count on the rows with a positive count
  only: a row after the first case whose count is 0 keeps the default 0. The filler
  leaves no such row, which is why the theorem above is about the filled table.
\<close>

lemma days_count_unfilled_example:
  "series ''DaysCountFromFirstCase'' (loc_country ''X'' (create_features unfilled_example))
     = [Some 0, Some 0, Some 0, Some 2]"
proof -
  have rs: "loc_country ''X'' unfilled_example =
    [mk_row0 ''X'' 18290 [(''ConfirmedCases'', 0)], mk_row0 ''X'' 18291 [(''ConfirmedCases'', 5)],
     mk_row0 ''X'' 18292 [(''ConfirmedCases'', 0)], mk_row0 ''X'' 18293 [(''ConfirmedCases'', 7)]]"
    by (simp add: unfilled_example_def loc_country_def mk_row0_def)
  have pos: "cases_positive (mk_row0 c d [(''ConfirmedCases'', v)]) = (0 < v)" for c d v
    by (simp add: cases_positive_def num_mk_row0_eq)
  have dt: "DateTime (mk_row0 c d kvs) = d" for c d kvs by (simp add: mk_row0_def)
  show ?thesis
    unfolding create_features_series(6) rs by (simp add: pos dt)
qed

section \<open>The column that the transformer writes\<close>

lemma l_i_Series:
  "i \<in> {1, 2, 3, 4, 5, 6, 7, 8, 9} \<Longrightarrow> \<exists>vs. l_i i si si_g = Series vs"
  by (auto simp: l_i_def)

text \<open>
  A call of the transformer on an indicator column of index \<open>i\<close> in 1..9 succeeds, keeps
  the countries, the dates and every column other than \<open>S{i}\<close>, and writes to \<open>S{i}\<close>, on
  each row that both tables have, the value computed from the raw column of that row.
\<close>

lemma transform_column:
  assumes idx: "idx_of column = Inr i" "1 \<le> i" "i \<le> 9"
  shows "\<exists>df'. transform_to_mobility df old_df column hf = Inr df' \<and>
     map Country_Code df' = map Country_Code df \<and> map DateTime df' = map DateTime df \<and>
     (\<forall>col. col \<noteq> m_id_of i \<longrightarrow> series col df' = series col df) \<and>
     (\<forall>j raw flag. j < length df \<longrightarrow> j < length old_df \<longrightarrow>
        num (old_df ! j) column = Some raw \<longrightarrow>
        (i \<noteq> 8 \<longrightarrow>
           (if hf then num (old_df ! j) (s_id_of column @ ''_Flag'') else Some 1) = Some flag) \<longrightarrow>
        num (df' ! j) (m_id_of i) =
          Some (if i = 8 then raw / 4
                else raw / (if i \<in> {3, 5, 7, 9} then 2 else if i \<in> {1, 2, 6} then 3 else 4)
                       * (1 - 0.28375) + 0.28375 * flag))"
proof -
  from idx have i: "i \<in> {1, 2, 3, 4, 5, 6, 7, 8, 9}" by auto
  define si where "si = series column old_df"
  define si_g where "si_g = (if hf then series (s_id_of column @ ''_Flag'') old_df
    else map (\<lambda>x. fadd (fmul x (Some 0)) (Some 1)) (series column old_df))"
  from l_i_Series [OF i, of si si_g] obtain vs where vs: "l_i i si si_g = Series vs" by blast
  define df' where "df' = set_column (m_id_of i) vs (set_column_scalar (m_id_of i) (Some 0) df)"
  have t: "transform_to_mobility df old_df column hf = Inr df'"
    using vs by (simp add: transform_to_mobility_def idx(1) Let_def si_def si_g_def df'_def)
  have frame: "map Country_Code df' = map Country_Code df" "map DateTime df' = map DateTime df"
    "\<forall>col. col \<noteq> m_id_of i \<longrightarrow> series col df' = series col df"
    by (simp_all add: df'_def series_set_column_other series_set_column_scalar_other)
  have cell: "num (df' ! j) (m_id_of i) =
          Some (if i = 8 then raw / 4
                else raw / (if i \<in> {3, 5, 7, 9} then 2 else if i \<in> {1, 2, 6} then 3 else 4)
                       * (1 - 0.28375) + 0.28375 * flag)"
    if "j < length df" "j < length old_df" "num (old_df ! j) column = Some raw"
      "i \<noteq> 8 \<longrightarrow> (if hf then num (old_df ! j) (s_id_of column @ ''_Flag'') else Some 1) = Some flag"
    for j raw flag
  proof -
    have "\<exists>d. transform_to_mobility df old_df column hf = Inr d \<and>
      num (d ! j) (m_id_of i) =
          Some (if i = 8 then raw / 4
                else raw / (if i \<in> {3, 5, 7, 9} then 2 else if i \<in> {1, 2, 6} then 3 else 4)
                       * (1 - 0.28375) + 0.28375 * flag)"
      using i that idx(1)
      by (auto simp: transform_to_mobility_def l_i_def set_column_nth set_column_scalar_def
          series_def fadd_def fmul_def fdiv_def w_def nf_def Let_def split: if_splits)
    with t show ?thesis by simp
  qed
  from t frame cell show ?thesis by blast
qed


text \<open>
  C10: \<^verbatim>\<open>transform_to_mobility\<close> writes the raw column \<open>C{k}\<close> to the derived column \<open>S{k}\<close>
  for \<open>k\<close> in 1..8 and \<open>H1\<close> to \<open>S9\<close>: called on the raw column \<open>column\<close> of index \<open>i\<close> it
  succeeds, changes no column but \<open>m\<close>, and puts into \<open>m\<close> the value computed from the raw
  value of the row. The constant of \<^verbatim>\<open>FEATURE\<close> that names \<open>m\<close> is \<open>label\<close>, the one of
  another indicator, and not \<open>own\<close>, the one of the indicator of \<open>column\<close>: \<open>S1\<close>, which
  holds school closing, is \<^verbatim>\<open>FEATURE.public_information\<close> and not
  \<^verbatim>\<open>FEATURE.school_closing\<close>, which is \<open>S2\<close>; and so on up to \<open>S8\<close>, which holds the travel
  controls and is \<^verbatim>\<open>FEATURE.restrictions_on_internal_movement\<close>, and \<open>S9\<close>, which holds
  the public information campaigns and is \<^verbatim>\<open>FEATURE.international_travel_controls\<close>.
\<close>

theorem feature_labels_shifted:
  fixes i :: int
  assumes q: "(column, i, m, label, own) \<in> set
    [(COL_c1, 1, ''S1'', FEATURE_public_information, FEATURE_school_closing),
     (COL_c2, 2, ''S2'', FEATURE_school_closing, FEATURE_workplace_closing),
     (COL_c3, 3, ''S3'', FEATURE_workplace_closing, FEATURE_cancel_public_events),
     (COL_c4, 4, ''S4'', FEATURE_cancel_public_events, FEATURE_restrictions_on_gatherings),
     (COL_c5, 5, ''S5'', FEATURE_restrictions_on_gatherings, FEATURE_close_public_transport),
     (COL_c6, 6, ''S6'', FEATURE_close_public_transport, FEATURE_stay_at_home_requirements),
     (COL_c7, 7, ''S7'', FEATURE_stay_at_home_requirements,
        FEATURE_restrictions_on_internal_movement),
     (COL_c8, 8, ''S8'', FEATURE_restrictions_on_internal_movement,
        FEATURE_international_travel_controls),
     (COL_h1, 9, ''S9'', FEATURE_international_travel_controls, FEATURE_public_information)]"
  shows "column \<in> set ci_cols \<and> label = m \<and> own \<noteq> m \<and>
    (\<exists>df'. transform_to_mobility df old_df column has_flag = Inr df' \<and>
       map Country_Code df' = map Country_Code df \<and> map DateTime df' = map DateTime df \<and>
       (\<forall>col. col \<noteq> m \<longrightarrow> series col df' = series col df) \<and>
       (\<forall>j raw flag. j < length df \<longrightarrow> j < length old_df \<longrightarrow>
          num (old_df ! j) column = Some raw \<longrightarrow>
          (i \<noteq> 8 \<longrightarrow>
             (if has_flag then num (old_df ! j) (s_id_of column @ ''_Flag'') else Some 1)
               = Some flag) \<longrightarrow>
          num (df' ! j) m =
            Some (if i = 8 then raw / 4
                  else raw / (if i \<in> {3, 5, 7, 9} then 2 else if i \<in> {1, 2, 6} then 3 else 4)
                         * (1 - 0.28375) + 0.28375 * flag)))"
proof -
  note f = FEATURE_public_information_def FEATURE_school_closing_def FEATURE_workplace_closing_def
    FEATURE_cancel_public_events_def FEATURE_restrictions_on_gatherings_def
    FEATURE_close_public_transport_def FEATURE_stay_at_home_requirements_def
    FEATURE_restrictions_on_internal_movement_def FEATURE_international_travel_controls_def
  from q have names: "column \<in> set ci_cols \<and> label = m \<and> own \<noteq> m"
    by (auto simp: ci_cols_def f)
  from q have idx: "idx_of column = Inr i" "1 \<le> i" "i \<le> 9" and m: "m_id_of i = m"
    by (auto simp: idx_of_cols m_id_of_vals)
  from transform_column [OF idx, of df old_df has_flag] names show ?thesis
    unfolding m by blast
qed

theorem feature_labels_shifted_witness:
  "num (raw_example ! 0) ''C1_School_closing'' = Some 2 \<and>
   FEATURE_public_information = ''S1'' \<and> FEATURE_school_closing = ''S2'' \<and>
   (\<exists>df'. transform_to_mobility raw_example raw_example COL_c1 True = Inr df' \<and>
      num (df' ! 0) FEATURE_public_information = Some 0.76125 \<and>
      series FEATURE_school_closing df' = series FEATURE_school_closing raw_example)"
proof -
  have q: "(COL_c1, 1, ''S1'', FEATURE_public_information, FEATURE_school_closing) \<in> set
    [(COL_c1, 1, ''S1'', FEATURE_public_information, FEATURE_school_closing),
     (COL_c2, 2, ''S2'', FEATURE_school_closing, FEATURE_workplace_closing),
     (COL_c3, 3, ''S3'', FEATURE_workplace_closing, FEATURE_cancel_public_events),
     (COL_c4, 4, ''S4'', FEATURE_cancel_public_events, FEATURE_restrictions_on_gatherings),
     (COL_c5, 5, ''S5'', FEATURE_restrictions_on_gatherings, FEATURE_close_public_transport),
     (COL_c6, 6, ''S6'', FEATURE_close_public_transport, FEATURE_stay_at_home_requirements),
     (COL_c7, 7, ''S7'', FEATURE_stay_at_home_requirements,
        FEATURE_restrictions_on_internal_movement),
     (COL_c8, 8, ''S8'', FEATURE_restrictions_on_internal_movement,
        FEATURE_international_travel_controls),
     (COL_h1, 9, ''S9'', FEATURE_international_travel_controls, FEATURE_public_information)]"
    by simp
  have a: "num (raw_example ! 0) COL_c1 = Some 2"
    "num (raw_example ! 0) (s_id_of COL_c1 @ ''_Flag'') = Some 1"
    by (simp_all add: raw_example_def mk_row_def COL_c1_def s_id_of_def)
  have l: "0 < length raw_example" by (simp add: raw_example_def)
  have s2: "FEATURE_school_closing = ''S2''" by (simp add: FEATURE_school_closing_def)
  from feature_labels_shifted [OF q, of raw_example raw_example True]
  obtain df' where p: "FEATURE_public_information = ''S1''"
    and t: "transform_to_mobility raw_example raw_example COL_c1 True = Inr df'"
    and frame: "\<forall>col. col \<noteq> ''S1'' \<longrightarrow> series col df' = series col raw_example"
    and cell: "\<forall>j raw flag. j < length raw_example \<longrightarrow> j < length raw_example \<longrightarrow>
          num (raw_example ! j) COL_c1 = Some raw \<longrightarrow>
          ((1::int) \<noteq> 8 \<longrightarrow>
             (if True then num (raw_example ! j) (s_id_of COL_c1 @ ''_Flag'') else Some 1)
               = Some flag) \<longrightarrow>
          num (df' ! j) ''S1'' =
            Some (if (1::int) = 8 then raw / 4
                  else raw / (if (1::int) \<in> {3, 5, 7, 9} then 2
                              else if (1::int) \<in> {1, 2, 6} then 3 else 4)
                         * (1 - 0.28375) + 0.28375 * flag)"
    by blast
  from cell [rule_format, of 0 2 1] l a have c: "num (df' ! 0) ''S1'' = Some 0.76125" by simp
  from frame have fr: "series ''S2'' df' = series ''S2'' raw_example" by simp
  from a(1) have r: "num (raw_example ! 0) ''C1_School_closing'' = Some 2"
    by (simp add: COL_c1_def)
  from r p s2 t c fr show ?thesis by auto
qed

end
